(* ===== verification/Prelude.thy ===== *)
theory Prelude
  imports Main "HOL-Library.Multiset" "HOL-Library.AList"
begin

text \<open>
  Shared vocabulary of the development: gRPC status codes, Go errors and the outcome of a call
  (value, error, panic), Go maps as association lists, and the order in which a \<open>range\<close> loop
  visits a map.  The human readable text of an error is represented by its format string as it
  stands in the source; the arguments substituted into it are not modelled, except for the text
  of operating system errors, which \<open>NodePublishVolume\<close> inspects.
\<close>

named_theorems go_defs "definitions of handlers and helpers that proofs unfold"
named_theorems lock_simps "how an operation acts on the set of held volume locks"

section \<open>Errors and outcomes\<close>

datatype code =
    InvalidArgument | NotFound | AlreadyExists | PermissionDenied | Aborted
  | Unimplemented | Internal | Unavailable

text \<open>The classes of operating system errors the code distinguishes (\<open>os.IsNotExist\<close>,
  \<open>os.IsExist\<close>, \<open>os.IsPermission\<close>, \<open>mount.IsCorruptedMnt\<close>).  \<open>EACCES\<close> is both a permission
  error and a sign of a corrupted mount point; \<open>EPERM\<close> is a permission error only.\<close>

datatype os_kind = ENotExist | EExist | EPerm | EAcces | ECorrupted | EOther

record os_error =
  kind :: os_kind
  text_of :: string

datatype go_error =
    Status code string
  | Errorf string
  | OsError os_error

text \<open>A call returns a value, returns an error, or panics.\<close>

datatype 'a outcome = Return 'a | Fail go_error | Panics string

primrec code_name :: "code \<Rightarrow> string" where
  "code_name InvalidArgument = ''InvalidArgument''"
| "code_name NotFound = ''NotFound''"
| "code_name AlreadyExists = ''AlreadyExists''"
| "code_name PermissionDenied = ''PermissionDenied''"
| "code_name Aborted = ''Aborted''"
| "code_name Unimplemented = ''Unimplemented''"
| "code_name Internal = ''Internal''"
| "code_name Unavailable = ''Unavailable''"

text \<open>\<open>err.Error()\<close>; a status error prints its code in front of its message.\<close>

primrec err_text :: "go_error \<Rightarrow> string" where
  "err_text (Status c m) = ''rpc error: code = '' @ code_name c @ '' desc = '' @ m"
| "err_text (Errorf m) = m"
| "err_text (OsError e) = text_of e"

definition IsNotExist :: "os_error \<Rightarrow> bool" where
  "IsNotExist e \<longleftrightarrow> kind e = ENotExist"

definition IsExist :: "os_error \<Rightarrow> bool" where
  "IsExist e \<longleftrightarrow> kind e = EExist"

definition IsPermission :: "os_error \<Rightarrow> bool" where
  "IsPermission e \<longleftrightarrow> kind e = EPerm \<or> kind e = EAcces"

primrec is_return :: "'a outcome \<Rightarrow> bool" where
  "is_return (Return x) = True"
| "is_return (Fail e) = False"
| "is_return (Panics m) = False"

definition nil_dereference :: string where
  "nil_dereference = ''invalid memory address or nil pointer dereference''"

section \<open>Go maps and range loops\<close>

type_synonym gomap = "(string \<times> string) list"

text \<open>
  Go leaves the order in which \<open>for k, v := range m\<close> visits a map unspecified.  A loop of the
  model therefore takes the order as an argument: a function that gives, for a map of \<open>n\<close>
  entries, the sequence of positions visited.  \<open>range_ok\<close> says that it visits each entry once;
  nothing else is ever assumed of it.
\<close>

type_synonym visit = "nat \<Rightarrow> nat list"

definition range_ok :: "visit \<Rightarrow> bool" where
  "range_ok ord \<longleftrightarrow> (\<forall>n. mset (ord n) = mset [0..<n])"

definition range_over :: "visit \<Rightarrow> 'a list \<Rightarrow> 'a list" where
  "range_over ord m = map (\<lambda>i. m ! i) (ord (length m))"

definition in_order :: visit where
  "in_order n = [0..<n]"

definition backwards :: visit where
  "backwards n = rev [0..<n]"

lemma range_ok_in_order [simp]: "range_ok in_order"
  by (simp add: range_ok_def in_order_def)

lemma range_ok_backwards [simp]: "range_ok backwards"
  by (simp add: range_ok_def backwards_def)

lemma mset_range_over [simp]:
  assumes "range_ok ord"
  shows "mset (range_over ord m) = mset m"
proof -
  have "mset (range_over ord m) = image_mset (\<lambda>i. m ! i) (mset (ord (length m)))"
    by (simp add: range_over_def)
  also have "\<dots> = image_mset (\<lambda>i. m ! i) (mset [0..<length m])"
    using assms by (simp only: range_ok_def)
  also have "\<dots> = mset (map (\<lambda>i. m ! i) [0..<length m])"
    by (simp only: mset_map)
  also have "\<dots> = mset m" by (simp only: map_nth)
  finally show ?thesis .
qed

lemma set_range_over [simp]: "range_ok ord \<Longrightarrow> set (range_over ord m) = set m"
  by (metis mset_range_over set_mset_mset)

lemma length_range_over [simp]: "range_ok ord \<Longrightarrow> length (range_over ord m) = length m"
  by (metis mset_range_over size_mset)

lemma distinct_range_over [simp]:
  "range_ok ord \<Longrightarrow> distinct (map f (range_over ord m)) = distinct (map f m)"
  by (metis mset_map mset_eq_imp_distinct_iff mset_range_over)

lemma range_over_Nil [simp]: "range_ok ord \<Longrightarrow> range_over ord [] = []"
  by (metis length_0_conv length_range_over list.size(3))

lemma range_over_in_order [simp]: "range_over in_order m = m"
  by (simp add: range_over_def in_order_def map_nth)

section \<open>Maps and association lists\<close>

lemma ran_remove:
  assumes "m i = Some k" and "inj_on m (dom m)"
  shows "ran (m(i := None)) = ran m - {k}"
proof (intro set_eqI iffI)
  fix x
  assume "x \<in> ran (m(i := None))"
  then obtain j where j: "j \<noteq> i" "m j = Some x" by (auto simp: ran_def split: if_splits)
  then have "x \<noteq> k" using assms by (auto simp: inj_on_def dom_def)
  with j show "x \<in> ran m - {k}" by (auto simp: ran_def)
next
  fix x
  assume "x \<in> ran m - {k}"
  then obtain j where j: "m j = Some x" "x \<noteq> k" by (auto simp: ran_def)
  then have "j \<noteq> i" using assms(1) by auto
  with j show "x \<in> ran (m(i := None))" by (auto simp: ran_def)
qed

lemma map_of_perm:
  assumes "mset xs = mset ys" and "distinct (map fst xs)"
  shows "map_of xs = map_of ys"
proof -
  have "distinct (map fst ys)" by (metis assms mset_eq_imp_distinct_iff mset_map)
  moreover have "set xs = set ys" by (metis assms(1) set_mset_mset)
  ultimately show ?thesis using assms(2) by (intro map_of_inject_set [THEN iffD2]) auto
qed

lemma map_of_range_over [simp]:
  "range_ok ord \<Longrightarrow> distinct (map fst m) \<Longrightarrow> map_of (range_over ord m) = map_of m"
  by (rule map_of_perm) auto

lemma map_of_AList_update [simp]: "map_of (AList.update k v m) = (map_of m)(k \<mapsto> v)"
  by (simp add: update_conv')

lemma map_of_AList_delete [simp]: "map_of (AList.delete k m) = (map_of m)(k := None)"
  by (simp add: delete_conv')

lemma fst_AList_update_present [simp]:
  "k \<in> fst ` set m \<Longrightarrow> map fst (AList.update k v m) = map fst m"
  by (induction m) auto

lemma distinct_AList_update [simp]:
  "distinct (map fst m) \<Longrightarrow> distinct (map fst (AList.update k v m))"
  by (rule distinct_update)

end
