(* ===== verification/LBController.thy ===== *)
theory LBController
  imports Prelude
begin

text \<open>
  The load balancer of \<open>pkg/lbcontroller/lbcontroller.go\<close>: the in-memory map from NFS server IP
  to number of nodes assigned to it, its reconstruction from node annotations
  (\<open>resyncIPMap\<close>), the assignment of the least loaded IP to a node (\<open>AssignIPToNode\<close>) and its
  withdrawal (\<open>RemoveIPFromNode\<close>).  The node lister and the node client of the Kubernetes API
  are arguments.  Each operation is split where the code takes the mutex: the lister is read
  before, everything else happens while it is held.
\<close>

section \<open>Data\<close>

definition NodeAnnotation :: string where
  "NodeAnnotation = ''nfs.lb.csi.storage.gke.io/assigned-ip''"

text \<open>The part of a Kubernetes node object the code reads and writes.  \<open>Annotations\<close> is \<open>None\<close>
  for the nil map.  \<open>ResourceVersion\<close> is carried along by \<open>DeepCopy\<close> and interpreted by the API
  server only.\<close>

record node =
  Name :: string
  Annotations :: "gomap option"
  ResourceVersion :: nat

datatype api_error = ApiNotFound | ApiConflict | ApiOther

type_synonym lister = "string \<Rightarrow> api_error + node"

text \<open>\<open>clientset.CoreV1().Nodes().Update\<close>: acts on the state of the API server.\<close>

type_synonym 'api updater = "node \<Rightarrow> 'api \<Rightarrow> api_error option \<times> 'api"

type_synonym ipmap = "(string \<times> int) list"

text \<open>\<open>ip, exists := node.Annotations[NodeAnnotation]\<close>; reading the nil map finds nothing.\<close>

definition assigned_ip :: "node \<Rightarrow> string option" where
  "assigned_ip n = (case Annotations n of None \<Rightarrow> None | Some m \<Rightarrow> map_of m NodeAnnotation)"

text \<open>Reading a missing key of a \<open>map[string]int\<close> gives 0.\<close>

definition ip_count :: "ipmap \<Rightarrow> string \<Rightarrow> int" where
  "ip_count m ip = (case map_of m ip of None \<Rightarrow> 0 | Some c \<Rightarrow> c)"

definition ip_known :: "ipmap \<Rightarrow> string \<Rightarrow> bool" where
  "ip_known m ip \<longleftrightarrow> map_of m ip \<noteq> None"

definition ip_add :: "int \<Rightarrow> string \<Rightarrow> ipmap \<Rightarrow> ipmap" where
  "ip_add d ip m = AList.update ip (ip_count m ip + d) m"

section \<open>Rebuilding the map\<close>

definition initIPMap :: "string list \<Rightarrow> ipmap" where
  "initIPMap ipList = fold (\<lambda>ip m. AList.update ip 0 m) ipList []"

definition resync_node :: "node \<Rightarrow> ipmap \<Rightarrow> ipmap" where
  "resync_node n m =
     (case assigned_ip n of
        None \<Rightarrow> m
      | Some ip \<Rightarrow> if ip_known m ip then ip_add 1 ip m else m)"

definition resyncIPMap :: "api_error + node list \<Rightarrow> string list \<Rightarrow> ipmap outcome" where
  "resyncIPMap listed ipList =
     (case listed of
        Inl e \<Rightarrow> Fail (Errorf ''failed to get cluster nodes: %w'')
      | Inr clusterNodes \<Rightarrow> Return (fold resync_node clusterNodes (initIPMap ipList)))"

section \<open>Choosing the least loaded IP\<close>

text \<open>\<open>sort.Slice\<close> with a strict comparison.  It is not stable, but the slice it is given is
  already in the unspecified order of a map iteration, so an insertion sort of that slice has the
  same possible results.\<close>

fun insert_by :: "('a \<Rightarrow> 'a \<Rightarrow> bool) \<Rightarrow> 'a \<Rightarrow> 'a list \<Rightarrow> 'a list" where
  "insert_by lt x [] = [x]"
| "insert_by lt x (y # ys) = (if lt y x then y # insert_by lt x ys else x # y # ys)"

fun sort_Slice :: "('a \<Rightarrow> 'a \<Rightarrow> bool) \<Rightarrow> 'a list \<Rightarrow> 'a list" where
  "sort_Slice lt [] = []"
| "sort_Slice lt (x # xs) = insert_by lt x (sort_Slice lt xs)"

definition sorted_ips :: "visit \<Rightarrow> ipmap \<Rightarrow> string list" where
  "sorted_ips ord m =
     sort_Slice (\<lambda>x y. ip_count m x < ip_count m y) (map fst (range_over ord m))"

section \<open>Assigning and removing\<close>

text \<open>\<open>nodeCopy.Annotations[NodeAnnotation] = selectedIP\<close> on a deep copy whose nil map has been
  replaced by an empty one.\<close>

definition annotate :: "node \<Rightarrow> string \<Rightarrow> node" where
  "annotate n ip =
     n\<lparr>Annotations := Some (AList.update NodeAnnotation ip
        (case Annotations n of None \<Rightarrow> [] | Some m \<Rightarrow> m))\<rparr>"

text \<open>\<open>delete(nodeCopy.Annotations, NodeAnnotation)\<close>.\<close>

definition unannotate :: "node \<Rightarrow> node" where
  "unannotate n = n\<lparr>Annotations := map_option (AList.delete NodeAnnotation) (Annotations n)\<rparr>"

text \<open>The part of \<open>AssignIPToNode\<close> after the early return: sort, pick, update the node object,
  count.\<close>

definition assign_new ::
  "'api updater \<Rightarrow> visit \<Rightarrow> node \<Rightarrow> ipmap \<Rightarrow> 'api \<Rightarrow> string outcome \<times> ipmap \<times> 'api" where
  "assign_new upd ord n m api =
     (case sorted_ips ord m of
        [] \<Rightarrow> (Panics ''index out of range [0] with length 0'', m, api)
      | selectedIP # _ \<Rightarrow>
          (case upd (annotate n selectedIP) api of
             (Some e, api') \<Rightarrow>
               (Fail (Errorf ''failed to assign IP %q to node %q: %v''), m, api')
           | (None, api') \<Rightarrow> (Return selectedIP, ip_add 1 selectedIP m, api')))"

definition assign_locked ::
  "'api updater \<Rightarrow> visit \<Rightarrow> node \<Rightarrow> ipmap \<Rightarrow> 'api \<Rightarrow> string outcome \<times> ipmap \<times> 'api" where
  "assign_locked upd ord n m api =
     (case assigned_ip n of
        Some ip \<Rightarrow>
          if ip_known m ip then (Return ip, m, api) else assign_new upd ord n m api
      | None \<Rightarrow> assign_new upd ord n m api)"

definition api_error_of :: "api_error \<Rightarrow> go_error" where
  "api_error_of e =
     Errorf (case e of ApiNotFound \<Rightarrow> ''not found'' | ApiConflict \<Rightarrow> ''conflict''
             | ApiOther \<Rightarrow> ''api error'')"

definition AssignIPToNode ::
  "lister \<Rightarrow> 'api updater \<Rightarrow> visit \<Rightarrow> string \<Rightarrow> string \<Rightarrow> ipmap \<Rightarrow> 'api
   \<Rightarrow> string outcome \<times> ipmap \<times> 'api" where
  "AssignIPToNode get upd ord nodeName volumeID m api =
     (case get nodeName of
        Inl e \<Rightarrow> (Fail (api_error_of e), m, api)
      | Inr n \<Rightarrow> assign_locked upd ord n m api)"

definition remove_locked ::
  "'api updater \<Rightarrow> node \<Rightarrow> string \<Rightarrow> ipmap \<Rightarrow> 'api \<Rightarrow> unit outcome \<times> ipmap \<times> 'api" where
  "remove_locked upd n ip m api =
     (if \<not> ip_known m ip then (Return (), m, api)
      else (case upd (unannotate n) api of
              (Some e, api') \<Rightarrow> (Fail (api_error_of e), m, api')
            | (None, api') \<Rightarrow> (Return (), ip_add (- 1) ip m, api')))"

definition RemoveIPFromNode ::
  "lister \<Rightarrow> 'api updater \<Rightarrow> string \<Rightarrow> string \<Rightarrow> ipmap \<Rightarrow> 'api
   \<Rightarrow> unit outcome \<times> ipmap \<times> 'api" where
  "RemoveIPFromNode get upd nodeName volumeID m api =
     (case get nodeName of
        Inl e \<Rightarrow>
          if e = ApiNotFound then (Return (), m, api) else (Fail (api_error_of e), m, api)
      | Inr n \<Rightarrow>
          (case assigned_ip n of
             None \<Rightarrow> (Return (), m, api)
           | Some ip \<Rightarrow> remove_locked upd n ip m api))"

section \<open>Properties of the parts\<close>

lemmas lb_defs [go_defs] =
  assign_new_def assign_locked_def AssignIPToNode_def remove_locked_def RemoveIPFromNode_def

lemma NodeAnnotation_annotate [simp]: "assigned_ip (annotate n ip) = Some ip"
  by (simp add: assigned_ip_def annotate_def)

lemma assigned_unannotate [simp]: "assigned_ip (unannotate n) = None"
  by (simp add: assigned_ip_def unannotate_def split: option.splits)

lemma Name_annotate [simp]: "Name (annotate n ip) = Name n" "Name (unannotate n) = Name n"
  by (simp_all add: annotate_def unannotate_def)

lemma ResourceVersion_annotate [simp]:
  "ResourceVersion (annotate n ip) = ResourceVersion n"
  "ResourceVersion (unannotate n) = ResourceVersion n"
  by (simp_all add: annotate_def unannotate_def)

lemma assigned_ip_rv [simp]: "assigned_ip (n\<lparr>ResourceVersion := r\<rparr>) = assigned_ip n"
  by (simp add: assigned_ip_def)

lemma ip_known_iff: "ip_known m ip \<longleftrightarrow> ip \<in> fst ` set m"
  by (simp add: ip_known_def map_of_eq_None_iff)

lemma map_of_ip_add:
  "map_of (ip_add d ip m) = (map_of m)(ip \<mapsto> ip_count m ip + d)"
  by (simp add: ip_add_def)

lemma ip_count_ip_add [simp]:
  "ip_count (ip_add d ip m) j = (if j = ip then ip_count m ip + d else ip_count m j)"
  by (simp add: ip_count_def map_of_ip_add)

lemma ip_known_ip_add [simp]: "ip_known (ip_add d ip m) j \<longleftrightarrow> j = ip \<or> ip_known m j"
  by (simp add: ip_known_def map_of_ip_add)

lemma keys_ip_add [simp]: "ip_known m ip \<Longrightarrow> map fst (ip_add d ip m) = map fst m"
  by (simp add: ip_add_def ip_known_iff)

lemma distinct_ip_add [simp]:
  "distinct (map fst m) \<Longrightarrow> distinct (map fst (ip_add d ip m))"
  by (simp add: ip_add_def)

subsection \<open>Sorting\<close>

lemma mset_insert_by [simp]: "mset (insert_by lt x xs) = add_mset x (mset xs)"
  by (induction xs) auto

lemma mset_sort_Slice [simp]: "mset (sort_Slice lt xs) = mset xs"
  by (induction xs) auto

lemma set_sort_Slice [simp]: "set (sort_Slice lt xs) = set xs"
  by (metis mset_sort_Slice set_mset_mset)

lemma set_insert_by [simp]: "set (insert_by lt x xs) = insert x (set xs)"
  by (metis mset_insert_by set_mset_add_mset_insert set_mset_mset)

text \<open>Sorting by a numeric key: no element precedes a smaller one.\<close>

lemma sorted_wrt_insert_by:
  fixes f :: "'a \<Rightarrow> 'b::linorder"
  assumes "sorted_wrt (\<lambda>x y. f x \<le> f y) xs"
  shows "sorted_wrt (\<lambda>x y. f x \<le> f y) (insert_by (\<lambda>x y. f x < f y) x xs)"
  using assms by (induction xs) fastforce+

lemma sorted_wrt_sort_Slice:
  fixes f :: "'a \<Rightarrow> 'b::linorder"
  shows "sorted_wrt (\<lambda>x y. f x \<le> f y) (sort_Slice (\<lambda>x y. f x < f y) xs)"
  by (induction xs) (auto intro: sorted_wrt_insert_by)

lemma set_sorted_ips [simp]: "range_ok ord \<Longrightarrow> set (sorted_ips ord m) = fst ` set m"
  by (simp add: sorted_ips_def)

lemma sorted_ips_sorted: "sorted_wrt (\<lambda>x y. ip_count m x \<le> ip_count m y) (sorted_ips ord m)"
  unfolding sorted_ips_def by (rule sorted_wrt_sort_Slice)

lemma sorted_ips_Cons:
  assumes "range_ok ord" and "sorted_ips ord m = ip # rest"
  shows "ip_known m ip" and "ip_known m j \<Longrightarrow> ip_count m ip \<le> ip_count m j"
proof -
  have keys: "set (ip # rest) = fst ` set m" using assms by (metis set_sorted_ips)
  then show "ip_known m ip" by (auto simp: ip_known_iff)
  have "sorted_wrt (\<lambda>x y. ip_count m x \<le> ip_count m y) (ip # rest)"
    using sorted_ips_sorted [of m ord] unfolding assms(2) .
  moreover assume "ip_known m j"
  then have "j \<in> set (ip # rest)" using keys by (simp add: ip_known_iff)
  ultimately show "ip_count m ip \<le> ip_count m j" by auto
qed

lemma sorted_ips_Nil: "range_ok ord \<Longrightarrow> sorted_ips ord m = [] \<longleftrightarrow> m = []"
  by (metis image_is_empty set_empty set_sorted_ips)

subsection \<open>Rebuilding the map\<close>

lemma map_of_initIPMap:
  "map_of (initIPMap ips) ip = (if ip \<in> set ips then Some 0 else None)"
proof -
  have "map_of (fold (\<lambda>ip m. AList.update ip 0 m) ips m) ip =
      (if ip \<in> set ips then Some 0 else map_of m ip)" for m :: ipmap
    by (induction ips arbitrary: m) auto
  then show ?thesis by (simp add: initIPMap_def)
qed

lemma distinct_initIPMap [simp]: "distinct (map fst (initIPMap ips))"
proof -
  have "distinct (map fst m) \<Longrightarrow> distinct (map fst (fold (\<lambda>ip m. AList.update ip 0 m) ips m))"
    for m :: ipmap
    by (induction ips arbitrary: m) auto
  then show ?thesis by (simp add: initIPMap_def)
qed

lemma ip_known_resync_node [simp]: "ip_known (resync_node n m) ip \<longleftrightarrow> ip_known m ip"
  by (auto simp: resync_node_def split: option.splits)

lemma ip_known_fold_resync [simp]: "ip_known (fold resync_node ns m) ip \<longleftrightarrow> ip_known m ip"
  by (induction ns arbitrary: m) auto

lemma ip_count_fold_resync:
  "ip_known m ip \<Longrightarrow>
   ip_count (fold resync_node ns m) ip =
     ip_count m ip + int (length (filter (\<lambda>n. assigned_ip n = Some ip) ns))"
  by (induction ns arbitrary: m) (auto simp: resync_node_def split: option.splits)

lemma distinct_fold_resync [simp]:
  "distinct (map fst m) \<Longrightarrow> distinct (map fst (fold resync_node ns m))"
  by (induction ns arbitrary: m) (auto simp: resync_node_def split: option.splits)

lemma map_of_resync:
  "map_of (fold resync_node ns (initIPMap ipList)) ip =
     (if ip \<in> set ipList
      then Some (int (length (filter (\<lambda>n. assigned_ip n = Some ip) ns))) else None)"
proof -
  let ?m = "fold resync_node ns (initIPMap ipList)"
  have known: "ip_known ?m ip \<longleftrightarrow> ip \<in> set ipList"
    by (simp add: ip_known_def [of "initIPMap ipList"] map_of_initIPMap)
  show ?thesis
  proof (cases "ip \<in> set ipList")
    case True
    then have "ip_count ?m ip = int (length (filter (\<lambda>n. assigned_ip n = Some ip) ns))"
      by (simp add: ip_count_fold_resync ip_known_def ip_count_def [of "initIPMap ipList"]
          map_of_initIPMap)
    then show ?thesis using True known by (auto simp: ip_count_def ip_known_def)
  next
    case False
    then show ?thesis using known unfolding ip_known_def by metis
  qed
qed

end
