(* ===== verification/LBBalance.thy ===== *)
theory LBBalance
  imports LBController
begin

text \<open>
  The contract of a least-loaded balancer as a locale, with the evenness of the resulting
  distribution proved once from the contract; its interpretation on the maps and the selection of
  \<open>LBController\<close>; and the functional properties of \<open>resyncIPMap\<close>, \<open>AssignIPToNode\<close> and
  \<open>RemoveIPFromNode\<close>.
\<close>

section \<open>Definitions\<close>

text \<open>Loads differ by at most one.\<close>

definition balanced :: "'k set \<Rightarrow> ('k \<Rightarrow> int) \<Rightarrow> bool" where
  "balanced K load \<longleftrightarrow> (\<forall>i\<in>K. \<forall>j\<in>K. load i \<le> load j + 1)"

definition known_ips :: "ipmap \<Rightarrow> string set" where
  "known_ips m = fst ` set m"

definition pick_ip :: "visit \<Rightarrow> ipmap \<Rightarrow> string option" where
  "pick_ip ord m = (case sorted_ips ord m of [] \<Rightarrow> None | ip # _ \<Rightarrow> Some ip)"

text \<open>A sequence of \<open>AssignIPToNode\<close> calls (visiting order of the map, node, volume), whatever
  each of them returns, as one controller serves them.\<close>

fun assign_run ::
  "('api \<Rightarrow> lister) \<Rightarrow> 'api updater \<Rightarrow> (visit \<times> string \<times> string) list \<Rightarrow> ipmap \<Rightarrow> 'api
   \<Rightarrow> ipmap \<times> 'api" where
  "assign_run get upd [] m api = (m, api)"
| "assign_run get upd ((ord, nodeName, volumeID) # reqs) m api =
     (case AssignIPToNode (get api) upd ord nodeName volumeID m api of
        (r, m', api') \<Rightarrow> assign_run get upd reqs m' api')"

section \<open>The least-loaded contract\<close>

locale least_loaded =
  fixes ips :: "'m \<Rightarrow> 'k set"
    and load :: "'m \<Rightarrow> 'k \<Rightarrow> int"
    and pick :: "'o \<Rightarrow> 'm \<Rightarrow> 'k option"
    and bump :: "'k \<Rightarrow> 'm \<Rightarrow> 'm"
    and ok :: "'o \<Rightarrow> bool"
  assumes finite_ips: "finite (ips m)"
    and pick_in: "ok x \<Longrightarrow> pick x m = Some k \<Longrightarrow> k \<in> ips m"
    and pick_least: "ok x \<Longrightarrow> pick x m = Some k \<Longrightarrow> j \<in> ips m \<Longrightarrow> load m k \<le> load m j"
    and pick_None: "ok x \<Longrightarrow> pick x m = None \<longleftrightarrow> ips m = {}"
    and ips_bump: "k \<in> ips m \<Longrightarrow> ips (bump k m) = ips m"
    and load_bump: "load (bump k m) j = (if j = k then load m k + 1 else load m j)"
begin

lemma balanced_bump:
  assumes "ok x" and "pick x m = Some k" and "balanced (ips m) (load m)"
  shows "balanced (ips (bump k m)) (load (bump k m))"
  unfolding balanced_def
proof (intro ballI)
  fix i j
  assume "i \<in> ips (bump k m)" and "j \<in> ips (bump k m)"
  then have ij: "i \<in> ips m" "j \<in> ips m"
    using assms(1,2) by (auto simp: ips_bump pick_in)
  have "load m i \<le> load m j + 1" using assms(3) ij by (simp add: balanced_def)
  moreover have "load m k \<le> load m j" using assms(1,2) ij by (simp add: pick_least)
  ultimately show "load (bump k m) i \<le> load (bump k m) j + 1"
    by (auto simp: load_bump)
qed

lemma sum_bump:
  assumes "k \<in> ips m"
  shows "sum (load (bump k m)) (ips (bump k m)) = sum (load m) (ips m) + 1"
proof -
  have fin: "finite (ips m - {k})" by (simp add: finite_ips)
  have "sum (load (bump k m)) (ips m) = load (bump k m) k + sum (load (bump k m)) (ips m - {k})"
    using assms by (simp add: sum.remove finite_ips)
  also have "sum (load (bump k m)) (ips m - {k}) = sum (load m) (ips m - {k})"
    by (rule sum.cong) (auto simp: load_bump)
  also have "load (bump k m) k + sum (load m) (ips m - {k}) = sum (load m) (ips m) + 1"
    using assms by (simp add: sum.remove [of "ips m" k] finite_ips load_bump)
  finally show ?thesis using assms by (simp add: ips_bump)
qed

text \<open>Balanced loads are the total divided evenly, rounded down or up.\<close>

lemma balanced_even:
  assumes "balanced (ips m) (load m)" and "i \<in> ips m"
  shows "sum (load m) (ips m) div int (card (ips m)) \<le> load m i"
    and "load m i \<le> sum (load m) (ips m) div int (card (ips m)) + 1"
proof -
  let ?n = "int (card (ips m))" and ?s = "sum (load m) (ips m)"
  have n: "?n > 0" using assms(2) finite_ips card_gt_0_iff by auto
  have rest: "?s = load m i + sum (load m) (ips m - {i})"
    using assms(2) by (simp add: sum.remove finite_ips)
  have card: "int (card (ips m - {i})) = ?n - 1"
    using assms(2) n by (simp add: finite_ips of_nat_diff)
  have "sum (load m) (ips m - {i}) \<le> int (card (ips m - {i})) * (load m i + 1)"
    by (rule sum_bounded_above) (use assms in \<open>auto simp: balanced_def\<close>)
  then have "?s \<le> ?n * load m i + (?n - 1)" unfolding rest card by (simp add: algebra_simps)
  then have "?s < ?n * (load m i + 1)" by (simp add: algebra_simps)
  moreover have "?n * (?s div ?n) \<le> ?s"
    using n pos_mod_sign [of ?n ?s] mult_div_mod_eq [of ?n ?s] by linarith
  ultimately have "?n * (?s div ?n) < ?n * (load m i + 1)" by linarith
  then have "?s div ?n < load m i + 1" using n by (simp only: mult_less_cancel_left_pos)
  then show "?s div ?n \<le> load m i" by simp
  have "int (card (ips m - {i})) * (load m i - 1) \<le> sum (load m) (ips m - {i})"
    by (rule sum_bounded_below) (use assms in \<open>force simp: balanced_def\<close>)
  then have "?n * load m i - (?n - 1) \<le> ?s" unfolding rest card by (simp add: algebra_simps)
  then have "?n * (load m i - 1) \<le> ?s" by (simp add: algebra_simps)
  then have "load m i - 1 \<le> ?s div ?n"
    using zdiv_mono1 [of "?n * (load m i - 1)" ?s ?n] n by simp
  then show "load m i \<le> ?s div ?n + 1" by simp
qed

end

lemma known_ips_iff: "ip \<in> known_ips m \<longleftrightarrow> ip_known m ip"
  by (simp add: known_ips_def ip_known_iff)

lemma known_ips_ip_add [simp]: "known_ips (ip_add d ip m) = insert ip (known_ips m)"
  by (simp add: known_ips_def ip_add_def dom_update)

lemma pick_ip_Some: "pick_ip ord m = Some ip \<longleftrightarrow> (\<exists>rest. sorted_ips ord m = ip # rest)"
  by (auto simp: pick_ip_def split: list.splits)

interpretation lb: least_loaded known_ips ip_count pick_ip "ip_add 1" range_ok
proof (unfold_locales, goal_cases)
  case (1 m)
  show ?case by (simp add: known_ips_def)
next
  case (2 x m k)
  then show ?case by (auto simp: pick_ip_Some known_ips_def ip_known_iff dest: sorted_ips_Cons(1))
next
  case (3 x m k j)
  then show ?case
    by (metis ip_known_iff known_ips_def pick_ip_Some sorted_ips_Cons(2))
next
  case (4 x m)
  then show ?case
    using sorted_ips_Nil [of x m] by (auto simp: pick_ip_def known_ips_def split: list.splits)
next
  case (5 k m)
  then show ?case by (metis ip_known_iff keys_ip_add known_ips_def list.set_map)
next
  case (6 k m j)
  show ?case by simp
qed

section \<open>Facts about single calls\<close>

lemma assign_new_pick:
  "assign_new upd ord n m api =
     (case pick_ip ord m of
        None \<Rightarrow> (Panics ''index out of range [0] with length 0'', m, api)
      | Some ip \<Rightarrow>
          (case upd (annotate n ip) api of
             (Some e, api') \<Rightarrow> (Fail (Errorf ''failed to assign IP %q to node %q: %v''), m, api')
           | (None, api') \<Rightarrow> (Return ip, ip_add 1 ip m, api')))"
  by (simp add: assign_new_def pick_ip_def split: list.splits)

text \<open>Every call either leaves the map alone or counts one more node on the picked IP.\<close>

lemma assign_locked_map:
  assumes "assign_locked upd ord n m api = (r, m', api')"
  shows "m' = m \<or> (\<exists>ip. pick_ip ord m = Some ip \<and> m' = ip_add 1 ip m \<and> r = Return ip)"
  using assms
  by (auto simp: assign_locked_def assign_new_pick split: option.splits prod.splits if_splits)

lemma AssignIPToNode_map:
  assumes "AssignIPToNode get upd ord nodeName volumeID m api = (r, m', api')"
  shows "m' = m \<or> (\<exists>ip. pick_ip ord m = Some ip \<and> m' = ip_add 1 ip m \<and> r = Return ip)"
  using assms assign_locked_map
  by (fastforce simp: AssignIPToNode_def split: sum.splits)

lemma AssignIPToNode_known_ips:
  assumes "AssignIPToNode get upd ord nodeName volumeID m api = (r, m', api')" and "range_ok ord"
  shows "known_ips m' = known_ips m"
  using AssignIPToNode_map [OF assms(1)] lb.ips_bump lb.pick_in [OF assms(2)] by auto

lemma AssignIPToNode_balanced:
  assumes "AssignIPToNode get upd ord nodeName volumeID m api = (r, m', api')" and "range_ok ord"
    and "balanced (known_ips m) (ip_count m)"
  shows "balanced (known_ips m') (ip_count m')"
  using AssignIPToNode_map [OF assms(1)] lb.balanced_bump [OF assms(2) _ assms(3)] assms(3) by auto

lemma assign_run_balanced:
  assumes "assign_run get upd reqs m api = (m', api')"
    and "\<forall>(ord, q) \<in> set reqs. range_ok ord"
    and "balanced (known_ips m) (ip_count m)"
  shows "known_ips m' = known_ips m \<and> balanced (known_ips m') (ip_count m')"
  using assms
proof (induction reqs arbitrary: m api)
  case Nil
  then show ?case by simp
next
  case (Cons q reqs)
  obtain ord nodeName volumeID where q: "q = (ord, nodeName, volumeID)" by (cases q) auto
  obtain r m1 api1 where
    step: "AssignIPToNode (get api) upd ord nodeName volumeID m api = (r, m1, api1)"
    by (metis prod_cases3)
  have ok: "range_ok ord" using Cons.prems(2) q by simp
  have "assign_run get upd reqs m1 api1 = (m', api')" using Cons.prems(1) q step by simp
  then have "known_ips m' = known_ips m1 \<and> balanced (known_ips m') (ip_count m')"
    using Cons.prems(2,3) AssignIPToNode_balanced [OF step ok] by (intro Cons.IH) auto
  then show ?case using AssignIPToNode_known_ips [OF step ok] by metis
qed

section \<open>Properties\<close>

text \<open>On start-up \<open>resyncIPMap\<close> succeeds whenever the nodes can be listed, its keys are
  exactly the configured IPs (once each), and the count of each is the number of listed nodes
  annotated with it; annotations with an IP that is not configured are ignored.\<close>

lemma resyncIPMap_counts:
  "\<exists>m. resyncIPMap (Inr ns) ipList = Return m \<and> distinct (map fst m) \<and>
       (\<forall>ip. map_of m ip =
          (if ip \<in> set ipList
           then Some (int (length (filter (\<lambda>n. assigned_ip n = Some ip) ns))) else None))"
  by (simp add: resyncIPMap_def map_of_resync)

text \<open>C6. A node without a usable assignment gets an IP of the configured list that no other
  configured IP undercuts.  The assignment is recorded by one update of the node object that sets
  the annotation; when that succeeds the IP is returned and its count, and no other, goes up by
  one, and when it fails an error is returned and no count changes.\<close>

theorem AssignIPToNode_least_loaded:
  assumes "range_ok ord" and "get nodeName = Inr n" and "m \<noteq> []"
    and "\<And>ip. assigned_ip n = Some ip \<Longrightarrow> \<not> ip_known m ip"
  shows "\<exists>ip. ip_known m ip \<and> (\<forall>j. ip_known m j \<longrightarrow> ip_count m ip \<le> ip_count m j) \<and>
    AssignIPToNode get upd ord nodeName volumeID m api =
      (case upd (annotate n ip) api of
         (None, api') \<Rightarrow> (Return ip, ip_add 1 ip m, api')
       | (Some e, api') \<Rightarrow> (Fail (Errorf ''failed to assign IP %q to node %q: %v''), m, api'))"
proof -
  obtain ip rest where ip: "sorted_ips ord m = ip # rest"
    using assms(1,3) sorted_ips_Nil by (metis list.exhaust)
  have "AssignIPToNode get upd ord nodeName volumeID m api = assign_new upd ord n m api"
    using assms(2,4) by (auto simp: AssignIPToNode_def assign_locked_def split: option.splits)
  then show ?thesis
    using sorted_ips_Cons [OF assms(1) ip] ip
    by (intro exI [of _ ip]) (auto simp: assign_new_def split: prod.splits option.splits)
qed

theorem AssignIPToNode_least_loaded_witness:
  "\<exists>ip. ip_known [(''10.0.0.1'', 2), (''10.0.0.2'', 1)] ip \<and>
    (\<forall>j. ip_known [(''10.0.0.1'', 2), (''10.0.0.2'', 1)] j \<longrightarrow>
       ip_count [(''10.0.0.1'', 2), (''10.0.0.2'', 1)] ip
         \<le> ip_count [(''10.0.0.1'', 2), (''10.0.0.2'', 1)] j) \<and>
    AssignIPToNode (\<lambda>_. Inr \<lparr>Name = ''n'', Annotations = None, ResourceVersion = 3\<rparr>)
      (\<lambda>n api. (None, n # api)) in_order ''n'' ''v'' [(''10.0.0.1'', 2), (''10.0.0.2'', 1)] [] =
      (Return ip, ip_add 1 ip [(''10.0.0.1'', 2), (''10.0.0.2'', 1)],
       [annotate \<lparr>Name = ''n'', Annotations = None, ResourceVersion = 3\<rparr> ip])"
proof -
  have known: "\<And>ip. assigned_ip \<lparr>Name = ''n'', Annotations = None, ResourceVersion = 3\<rparr> = Some ip
      \<Longrightarrow> \<not> ip_known [(''10.0.0.1'', 2), (''10.0.0.2'', 1)] ip"
    by (simp add: assigned_ip_def)
  show ?thesis
    using AssignIPToNode_least_loaded
      [of in_order "\<lambda>_. Inr \<lparr>Name = ''n'', Annotations = None, ResourceVersion = 3\<rparr>" "''n''" _
        "[(''10.0.0.1'', 2), (''10.0.0.2'', 1)]" "\<lambda>n api. (None, n # api)" "''v''" "[]",
        OF range_ok_in_order refl _ known]
    by simp
qed

text \<open>Publishing a second volume on a node keeps its server: when the node already carries
  an IP of the configured list, \<open>AssignIPToNode\<close> returns that IP, does not contact the API server
  and does not touch the map.\<close>

lemma AssignIPToNode_keeps_assignment:
  assumes "get nodeName = Inr n" and "assigned_ip n = Some ip" and "ip_known m ip"
  shows "AssignIPToNode get upd ord nodeName volumeID m api = (Return ip, m, api)"
  using assms by (simp add: AssignIPToNode_def assign_locked_def)

text \<open>C12. Starting from a map whose loads differ by at most one (in particular from a fresh
  cluster), any sequence of \<open>AssignIPToNode\<close> calls, successful or not, keeps the distribution
  even: the configured IPs stay the same and every IP carries the total number of assigned nodes
  divided by the number of IPs, rounded down or up.\<close>

theorem assign_run_even:
  assumes "assign_run get upd reqs m api = (m', api')"
    and "\<forall>(ord, q) \<in> set reqs. range_ok ord"
    and "balanced (known_ips m) (ip_count m)" and "ip \<in> known_ips m"
  shows "known_ips m' = known_ips m \<and>
    ip_count m' ip - sum (ip_count m') (known_ips m') div int (card (known_ips m')) \<in> {0, 1}"
proof -
  note run = assign_run_balanced [OF assms(1,2,3)]
  then have "balanced (known_ips m') (ip_count m')" "ip \<in> known_ips m'"
    using assms(4) by auto
  from lb.balanced_even [OF this] run show ?thesis by auto
qed

theorem assign_run_even_witness:
  "\<exists>m' api'.
     assign_run (\<lambda>api k. Inr \<lparr>Name = k, Annotations = None, ResourceVersion = 0\<rparr>)
       (\<lambda>n api. (None, api)) [(in_order, ''n1'', ''v''), (backwards, ''n2'', ''v''), (in_order, ''n3'', ''v'')]
       [(''a'', 0), (''b'', 0)] () = (m', api') \<and>
     known_ips m' = {''a'', ''b''} \<and>
     ip_count m' ''a'' - sum (ip_count m') (known_ips m') div int (card (known_ips m')) \<in> {0, 1}"
proof -
  let ?get = "\<lambda>api k. Inr \<lparr>Name = k, Annotations = None, ResourceVersion = 0\<rparr>"
  let ?upd = "\<lambda>n api. (None, api)"
  let ?reqs = "[(in_order, ''n1'', ''v''), (backwards, ''n2'', ''v''), (in_order, ''n3'', ''v'')]"
  let ?m = "[(''a'', 0), (''b'', 0)]"
  obtain m' api' where run: "assign_run ?get ?upd ?reqs ?m () = (m', api')"
    by (metis surj_pair)
  have ok: "\<forall>(ord, q) \<in> set ?reqs. range_ok ord" by simp
  have bal: "balanced (known_ips ?m) (ip_count ?m)"
    by (simp add: balanced_def known_ips_def ip_count_def)
  have "''a'' \<in> known_ips ?m" by (simp add: known_ips_def)
  note even = assign_run_even [OF run ok bal this]
  have "known_ips ?m = {''a'', ''b''}" by (simp add: known_ips_def)
  with even have "known_ips m' = {''a'', ''b''}" by metis
  with run even show ?thesis by (intro exI [of _ m'] exI [of _ api'] conjI) blast+
qed

text \<open>\<open>RemoveIPFromNode\<close> on every branch: an unknown node, a node without annotation and a
  node annotated with an IP outside the configured list are left alone and count as success; any
  other lister error is returned; otherwise the node object is updated without the annotation,
  and only if that succeeds the count of its IP, and no other, goes down by one.\<close>

lemma RemoveIPFromNode_spec:
  "RemoveIPFromNode get upd nodeName volumeID m api =
     (case get nodeName of
        Inl ApiNotFound \<Rightarrow> (Return (), m, api)
      | Inl e \<Rightarrow> (Fail (api_error_of e), m, api)
      | Inr n \<Rightarrow>
          if \<exists>ip. assigned_ip n = Some ip \<and> ip_known m ip
          then let (e, api') = upd (unannotate n) api
               in if e = None
                  then (Return (), ip_add (- 1) (the (assigned_ip n)) m, api')
                  else (Fail (api_error_of (the e)), m, api')
          else (Return (), m, api))"
  by (auto simp: RemoveIPFromNode_def remove_locked_def split: sum.splits option.splits
      api_error.splits prod.splits)



end
