(* ===== verification/LBConcurrent.thy ===== *)
theory LBConcurrent
  imports LBBalance
begin

text \<open>
  The load balancer under concurrent requests.  Every \<open>AssignIPToNode\<close> or \<open>RemoveIPFromNode\<close> call
  is two atomic steps: it first reads the node from the informer cache, without the mutex, and
  later runs the rest with the mutex held.  Between the two, other requests, the informer and
  other API clients may run in any order, so a request may act on a node object that is out of
  date.  The API server is known only by its contract: an update succeeds only if the object sent
  carries the resource version of the stored one (otherwise it is refused and nothing changes),
  and resource versions are never reused.
\<close>

section \<open>The API server contract\<close>

record api_state =
  revision :: nat
  nodes :: "string \<Rightarrow> node option"

text \<open>\<open>stored a n r\<close>: the state after the API server has accepted object \<open>n\<close> as version \<open>r\<close>.\<close>

definition stored :: "api_state \<Rightarrow> node \<Rightarrow> nat \<Rightarrow> api_state" where
  "stored a n r = \<lparr>revision = r, nodes = (nodes a)(Name n \<mapsto> n\<lparr>ResourceVersion := r\<rparr>)\<rparr>"

text \<open>What one \<open>Nodes().Update\<close> call may do.\<close>

definition update_allowed :: "node \<Rightarrow> api_state \<Rightarrow> api_error option \<times> api_state \<Rightarrow> bool" where
  "update_allowed n a res \<longleftrightarrow>
     (case res of
        (Some e, a') \<Rightarrow> a' = a
      | (None, a') \<Rightarrow>
          (\<exists>cur r. nodes a (Name n) = Some cur \<and> ResourceVersion cur = ResourceVersion n \<and>
             revision a < r \<and>
             a' = stored a n r))"

definition optimistic :: "api_state updater \<Rightarrow> bool" where
  "optimistic upd \<longleftrightarrow> (\<forall>n a. update_allowed n a (upd n a))"

text \<open>What other API clients may do: create, delete and modify node objects, but neither write
  the driver's annotation nor delete a node that carries it.\<close>

definition external_change :: "api_state \<Rightarrow> api_state \<Rightarrow> bool" where
  "external_change a a' \<longleftrightarrow>
     revision a \<le> revision a' \<and> finite (dom (nodes a')) \<and>
     (\<forall>k. case nodes a' k of
        None \<Rightarrow> (case nodes a k of None \<Rightarrow> True | Some n \<Rightarrow> assigned_ip n = None)
      | Some n' \<Rightarrow>
          nodes a k = Some n' \<or>
          (Name n' = k \<and> revision a < ResourceVersion n' \<and> ResourceVersion n' \<le> revision a' \<and>
           assigned_ip n' = (case nodes a k of None \<Rightarrow> None | Some n \<Rightarrow> assigned_ip n)))"

section \<open>The system\<close>

text \<open>A request between its two steps, with the node object it read.  \<open>seen\<close> is a history variable:
  every node object the API server has stored so far.  The informer may deliver any of them, at
  any time, so the cache may lag behind arbitrarily.\<close>

datatype pending = PAssign node | PRemove node

record lb_sys =
  api :: api_state
  ipMap :: ipmap
  cache :: "string \<Rightarrow> node option"
  seen :: "node set"
  pend :: "nat \<Rightarrow> pending option"
  answers :: "(nat \<times> string outcome) list"

inductive lb_step :: "lb_sys \<Rightarrow> lb_sys \<Rightarrow> bool" where
  get_assign: "pend s i = None \<Longrightarrow> cache s k = Some n \<Longrightarrow>
     lb_step s (s\<lparr>pend := (pend s)(i \<mapsto> PAssign n)\<rparr>)"
| get_remove: "pend s i = None \<Longrightarrow> cache s k = Some n \<Longrightarrow>
     lb_step s (s\<lparr>pend := (pend s)(i \<mapsto> PRemove n)\<rparr>)"
| run_assign: "pend s i = Some (PAssign n) \<Longrightarrow> optimistic upd \<Longrightarrow> range_ok ord \<Longrightarrow>
     assign_locked upd ord n (ipMap s) (api s) = (r, m', a') \<Longrightarrow>
     lb_step s (s\<lparr>pend := (pend s)(i := None), ipMap := m', api := a',
                  seen := seen s \<union> ran (nodes a'), answers := answers s @ [(i, r)]\<rparr>)"
| run_remove: "pend s i = Some (PRemove n) \<Longrightarrow> optimistic upd \<Longrightarrow>
     assigned_ip n = Some ip \<Longrightarrow>
     remove_locked upd n ip (ipMap s) (api s) = (r, m', a') \<Longrightarrow>
     lb_step s (s\<lparr>pend := (pend s)(i := None), ipMap := m', api := a',
                  seen := seen s \<union> ran (nodes a')\<rparr>)"
| skip_remove: "pend s i = Some (PRemove n) \<Longrightarrow> assigned_ip n = None \<Longrightarrow>
     lb_step s (s\<lparr>pend := (pend s)(i := None)\<rparr>)"
| informer: "n \<in> seen s \<Longrightarrow> lb_step s (s\<lparr>cache := (cache s)(Name n \<mapsto> n)\<rparr>)"
| informer_delete: "lb_step s (s\<lparr>cache := (cache s)(k := None)\<rparr>)"
| external: "external_change (api s) a' \<Longrightarrow>
     lb_step s (s\<lparr>api := a', seen := seen s \<union> ran (nodes a')\<rparr>)"

text \<open>The controller starts with a synchronised informer and the map rebuilt from it.\<close>

definition lb_init :: "string list \<Rightarrow> lb_sys \<Rightarrow> bool" where
  "lb_init ipList s \<longleftrightarrow>
     finite (dom (nodes (api s))) \<and>
     (\<forall>k n. nodes (api s) k = Some n \<longrightarrow>
        Name n = k \<and> ResourceVersion n \<le> revision (api s)) \<and>
     cache s = nodes (api s) \<and> seen s = ran (nodes (api s)) \<and> pend s = Map.empty \<and> answers s = [] \<and>
     (\<exists>ns. distinct ns \<and> set ns = ran (nodes (api s)) \<and>
        resyncIPMap (Inr ns) ipList = Return (ipMap s))"

inductive lb_reachable :: "string list \<Rightarrow> lb_sys \<Rightarrow> bool" for ipList where
  start: "lb_init ipList s \<Longrightarrow> lb_reachable ipList s"
| step: "lb_reachable ipList s \<Longrightarrow> lb_step s t \<Longrightarrow> lb_reachable ipList t"

text \<open>The nodes the API server has recorded as assigned to an IP.\<close>

definition assigned_nodes :: "api_state \<Rightarrow> string \<Rightarrow> string set" where
  "assigned_nodes a ip = {k. \<exists>n. nodes a k = Some n \<and> assigned_ip n = Some ip}"

text \<open>The lister as a request sees it.\<close>

definition cache_lister :: "lb_sys \<Rightarrow> lister" where
  "cache_lister s k = (case cache s k of None \<Rightarrow> Inl ApiNotFound | Some n \<Rightarrow> Inr n)"

text \<open>An API server that meets the contract and never fails without reason.\<close>

definition cas_update :: "api_state updater" where
  "cas_update n a =
     (case nodes a (Name n) of
        None \<Rightarrow> (Some ApiNotFound, a)
      | Some cur \<Rightarrow>
          if ResourceVersion cur = ResourceVersion n then (None, stored a n (revision a + 1))
          else (Some ApiConflict, a))"

section \<open>The invariant\<close>

text \<open>A node object read earlier is the stored one unless the stored one has a newer version.\<close>

definition snapshot_ok :: "api_state \<Rightarrow> node \<Rightarrow> bool" where
  "snapshot_ok a n \<longleftrightarrow>
     ResourceVersion n \<le> revision a \<and>
     (\<forall>cur. nodes a (Name n) = Some cur \<and> ResourceVersion cur = ResourceVersion n \<longrightarrow> cur = n)"

definition api_ok :: "api_state \<Rightarrow> bool" where
  "api_ok a \<longleftrightarrow> finite (dom (nodes a)) \<and>
     (\<forall>k n. nodes a k = Some n \<longrightarrow> Name n = k \<and> ResourceVersion n \<le> revision a)"

text \<open>The counts exceed the recorded nodes by \<open>lost\<close>.  It is zero as long as no node is deleted while
  it carries the annotation.\<close>

definition counts_off :: "(string \<Rightarrow> nat) \<Rightarrow> ipmap \<Rightarrow> api_state \<Rightarrow> bool" where
  "counts_off lost m a \<longleftrightarrow>
     (\<forall>ip c. map_of m ip = Some c \<longrightarrow> c = int (card (assigned_nodes a ip)) + int (lost ip))"

primrec pending_node :: "pending \<Rightarrow> node" where
  "pending_node (PAssign n) = n"
| "pending_node (PRemove n) = n"

definition lb_inv_off :: "(string \<Rightarrow> nat) \<Rightarrow> lb_sys \<Rightarrow> bool" where
  "lb_inv_off lost s \<longleftrightarrow>
     api_ok (api s) \<and> counts_off lost (ipMap s) (api s) \<and>
     (\<forall>n\<in>seen s. snapshot_ok (api s) n) \<and>
     (\<forall>k n. cache s k = Some n \<longrightarrow> snapshot_ok (api s) n) \<and>
     (\<forall>i p. pend s i = Some p \<longrightarrow> snapshot_ok (api s) (pending_node p))"

abbreviation lb_inv :: "lb_sys \<Rightarrow> bool" where
  "lb_inv \<equiv> lb_inv_off (\<lambda>_. 0)"

lemmas lb_inv_def = lb_inv_off_def [of "\<lambda>_. 0"]

lemma api_okD:
  "api_ok a \<Longrightarrow> nodes a k = Some n \<Longrightarrow> Name n = k"
  "api_ok a \<Longrightarrow> nodes a k = Some n \<Longrightarrow> ResourceVersion n \<le> revision a"
  by (auto simp: api_ok_def)

lemma snapshot_ok_current: "api_ok a \<Longrightarrow> nodes a k = Some n \<Longrightarrow> snapshot_ok a n"
  by (auto simp: api_ok_def snapshot_ok_def)

lemma finite_assigned_nodes [simp]: "api_ok a \<Longrightarrow> finite (assigned_nodes a ip)"
  by (rule finite_subset [of _ "dom (nodes a)"]) (auto simp: assigned_nodes_def api_ok_def)

subsection \<open>A successful update\<close>

lemma optimistic_Some: "optimistic upd \<Longrightarrow> upd n a = (Some e, a') \<Longrightarrow> a' = a"
  unfolding optimistic_def update_allowed_def by (metis (mono_tags, lifting) case_prod_conv option.simps(5))

lemma optimistic_None:
  assumes "optimistic upd" and "upd n a = (None, a')"
  obtains cur r where "nodes a (Name n) = Some cur" "ResourceVersion cur = ResourceVersion n"
    "revision a < r" "a' = stored a n r"
proof -
  have "update_allowed n a (None, a')" using assms by (metis optimistic_def)
  then show thesis using that by (auto simp: update_allowed_def)
qed

lemma api_ok_stored: "api_ok a \<Longrightarrow> revision a < r \<Longrightarrow> api_ok (stored a n r)"
  by (auto simp: api_ok_def stored_def dest: order.strict_implies_order le_less_trans)

lemma snapshot_ok_stored:
  "snapshot_ok a x \<Longrightarrow> revision a < r \<Longrightarrow> snapshot_ok (stored a n r) x"
  by (auto simp: snapshot_ok_def stored_def split: if_splits)

lemma assigned_nodes_stored:
  "assigned_nodes (stored a n r) ip =
     (if assigned_ip n = Some ip then insert (Name n) (assigned_nodes a ip)
      else assigned_nodes a ip - {Name n})"
  by (auto simp: assigned_nodes_def stored_def)

text \<open>The object a request sends is based on the stored one, or the update is refused.\<close>

lemma accepted_is_current:
  assumes "optimistic upd" and "upd n' a = (None, a')" and "snapshot_ok a n"
    and "Name n' = Name n" and "ResourceVersion n' = ResourceVersion n"
  obtains r where "nodes a (Name n) = Some n" "revision a < r" "a' = stored a n' r"
  using assms by (metis optimistic_None snapshot_ok_def)

lemma assigned_nodes_current:
  "nodes a (Name n) = Some n \<Longrightarrow> Name n \<in> assigned_nodes a ip \<longleftrightarrow> assigned_ip n = Some ip"
  by (simp add: assigned_nodes_def)

subsection \<open>Each operation keeps the counts in step\<close>

lemma counts_off_assign:
  assumes "counts_off lost m a" and "api_ok a" and cur: "nodes a (Name n) = Some n"
    and "\<And>j. assigned_ip n = Some j \<Longrightarrow> \<not> ip_known m j" and "ip_known m ip"
  shows "counts_off lost (ip_add 1 ip m) (stored a (annotate n ip) r)"
proof -
  have free: "Name n \<notin> assigned_nodes a j" if "ip_known m j" for j
    using assigned_nodes_current [OF cur] assms(4) that by blast
  have "c = int (card (assigned_nodes (stored a (annotate n ip) r) j)) + int (lost j)"
    if "map_of (ip_add 1 ip m) j = Some c" for j c
  proof (cases "j = ip")
    case True
    then have "c = ip_count m ip + 1" using that by (simp add: map_of_ip_add)
    then show ?thesis
      using True assms(1,2,5) free [of ip]
      by (auto simp: counts_off_def assigned_nodes_stored ip_count_def ip_known_def)
  next
    case False
    then have "map_of m j = Some c" using that by (simp add: map_of_ip_add)
    then show ?thesis
      using False assms(1) free [of j]
      by (simp add: counts_off_def assigned_nodes_stored ip_known_def)
  qed
  then show ?thesis by (simp add: counts_off_def)
qed

lemma counts_off_remove:
  assumes "counts_off lost m a" and "api_ok a" and cur: "nodes a (Name n) = Some n"
    and "assigned_ip n = Some ip" and "ip_known m ip"
  shows "counts_off lost (ip_add (- 1) ip m) (stored a (unannotate n) r)"
proof -
  have mem: "Name n \<in> assigned_nodes a j \<longleftrightarrow> j = ip" for j
    using assigned_nodes_current [OF cur] assms(4) by auto
  have "card (assigned_nodes a ip - {Name n}) = card (assigned_nodes a ip) - 1"
    using mem by simp
  moreover have "card (assigned_nodes a ip) > 0"
    using mem assms(2) by (auto simp: card_gt_0_iff)
  ultimately have "c = int (card (assigned_nodes (stored a (unannotate n) r) j)) + int (lost j)"
    if "map_of (ip_add (- 1) ip m) j = Some c" for j c
    using that assms(1,5) mem [of j]
    by (auto simp: counts_off_def assigned_nodes_stored map_of_ip_add ip_count_def ip_known_def
        split: if_splits)
  then show ?thesis by (simp add: counts_off_def)
qed

lemma assign_locked_cases:
  assumes "assign_locked upd ord n m a = (r, m', a')" and "optimistic upd" and "range_ok ord"
    and "snapshot_ok a n"
  shows "m' = m \<and> a' = a \<or>
    (\<exists>ip v. nodes a (Name n) = Some n \<and> revision a < v \<and> ip_known m ip \<and>
       (\<forall>j. assigned_ip n = Some j \<longrightarrow> \<not> ip_known m j) \<and>
       m' = ip_add 1 ip m \<and> a' = stored a (annotate n ip) v \<and> r = Return ip)"
proof (cases "\<exists>ip. assigned_ip n = Some ip \<and> ip_known m ip")
  case True
  then show ?thesis using assms(1) by (auto simp: assign_locked_def)
next
  case False
  then have new: "assign_new upd ord n m a = (r, m', a')"
    using assms(1) by (auto simp: assign_locked_def split: option.splits)
  show ?thesis
  proof (cases "pick_ip ord m")
    case None
    then show ?thesis using new by (simp add: assign_new_pick)
  next
    case (Some ip)
    have known: "ip_known m ip" using lb.pick_in [OF assms(3) Some]
      by (simp add: known_ips_iff)
    obtain e b where u: "upd (annotate n ip) a = (e, b)" by fastforce
    show ?thesis
    proof (cases e)
      case (Some err)
      with u \<open>pick_ip ord m = Some ip\<close> new optimistic_Some [OF assms(2)] show ?thesis
        by (auto simp: assign_new_pick)
    next
      case None
      from u have "upd (annotate n ip) a = (None, b)" using None by simp
      from accepted_is_current [OF assms(2) this assms(4)] obtain v
        where "nodes a (Name n) = Some n" "revision a < v" "b = stored a (annotate n ip) v"
        by auto
      with u None \<open>pick_ip ord m = Some ip\<close> new known False show ?thesis
        by (auto simp: assign_new_pick)
    qed
  qed
qed

lemma remove_locked_cases:
  assumes "remove_locked upd n ip m a = (r, m', a')" and "optimistic upd" and "snapshot_ok a n"
  shows "m' = m \<and> a' = a \<or>
    (\<exists>v. nodes a (Name n) = Some n \<and> revision a < v \<and> ip_known m ip \<and>
       m' = ip_add (- 1) ip m \<and> a' = stored a (unannotate n) v)"
proof (cases "upd (unannotate n) a")
  case (Pair e b)
  show ?thesis
  proof (cases e)
    case (Some err)
    then show ?thesis using Pair assms(1) optimistic_Some [OF assms(2)]
      by (auto simp: remove_locked_def split: if_splits)
  next
    case None
    from accepted_is_current [OF assms(2) _ assms(3)] Pair None obtain v
      where "nodes a (Name n) = Some n" "revision a < v" "b = stored a (unannotate n) v"
      by (metis Name_annotate(2) ResourceVersion_annotate(2))
    then show ?thesis using Pair None assms(1)
      by (auto simp: remove_locked_def split: if_splits)
  qed
qed

subsection \<open>Every step keeps the invariant\<close>

lemma external_change_inv:
  assumes "external_change a a'" and "api_ok a"
  shows "api_ok a'" and "snapshot_ok a n \<Longrightarrow> snapshot_ok a' n"
    and "assigned_nodes a' ip = assigned_nodes a ip"
proof -
  have rev: "revision a \<le> revision a'" using assms(1) by (simp add: external_change_def)
  have change: "case nodes a' k of
      None \<Rightarrow> (case nodes a k of None \<Rightarrow> True | Some n \<Rightarrow> assigned_ip n = None)
    | Some n' \<Rightarrow> nodes a k = Some n' \<or>
        (Name n' = k \<and> revision a < ResourceVersion n' \<and> ResourceVersion n' \<le> revision a' \<and>
         assigned_ip n' = (case nodes a k of None \<Rightarrow> None | Some n \<Rightarrow> assigned_ip n))" for k
    using assms(1) by (simp add: external_change_def)
  have "Name n = k \<and> ResourceVersion n \<le> revision a'" if "nodes a' k = Some n" for k n
    using change [of k] that rev api_okD [OF assms(2), of k n] by auto
  then show "api_ok a'" using assms(1) by (simp add: api_ok_def external_change_def)
  show "snapshot_ok a' n" if ok: "snapshot_ok a n"
  proof -
    have "cur = n" if "nodes a' (Name n) = Some cur" "ResourceVersion cur = ResourceVersion n" for cur
      using change [of "Name n"] that ok by (auto simp: snapshot_ok_def)
    then show ?thesis using ok rev by (simp add: snapshot_ok_def)
  qed
  have "k \<in> assigned_nodes a' ip \<longleftrightarrow> k \<in> assigned_nodes a ip" for k
    using change [of k] by (auto simp: assigned_nodes_def split: option.splits)
  then show "assigned_nodes a' ip = assigned_nodes a ip" by blast
qed

lemma lb_inv_pend:
  "lb_inv_off lost s \<Longrightarrow> pend s i = Some p \<Longrightarrow> snapshot_ok (api s) (pending_node p)"
  by (simp add: lb_inv_off_def)

text \<open>What remains to be shown of a step once the effect on the API server is known.\<close>

lemma lb_inv_change:
  assumes "lb_inv_off lost s" and "api_ok a'" and "counts_off lost m' a'"
    and "\<And>n. snapshot_ok (api s) n \<Longrightarrow> snapshot_ok a' n"
    and "\<And>i p. pend t i = Some p \<Longrightarrow> pend s i = Some p"
    and "api t = a'" and "ipMap t = m'" and "cache t = cache s"
    and "seen t = seen s \<union> ran (nodes a')"
  shows "lb_inv_off lost t"
proof -
  have "snapshot_ok a' n" if "n \<in> ran (nodes a')" for n
    using that assms(2) by (auto simp: ran_def intro: snapshot_ok_current)
  moreover have "snapshot_ok a' (pending_node p)" if "pend t i = Some p" for i p
    using assms(4) lb_inv_pend [OF assms(1) assms(5) [OF that]] by blast
  ultimately show ?thesis using assms(1-4,6-9) by (auto simp: lb_inv_off_def)
qed

lemma lb_inv_frame:
  "lb_inv_off lost s \<Longrightarrow> api t = api s \<Longrightarrow> ipMap t = ipMap s \<Longrightarrow> seen t = seen s \<Longrightarrow>
   (\<And>k n. cache t k = Some n \<Longrightarrow> cache s k = Some n \<or> n \<in> seen s) \<Longrightarrow>
   (\<And>i p. pend t i = Some p \<Longrightarrow>
      pend s i = Some p \<or> (\<exists>k. cache s k = Some (pending_node p))) \<Longrightarrow> lb_inv_off lost t"
  unfolding lb_inv_off_def by metis

lemma lb_step_inv:
  assumes "lb_step s t" and inv: "lb_inv_off lost s"
  shows "lb_inv_off lost t"
  using assms(1)
proof cases
  case (run_assign i n upd ord r m' a')
  have ok: "snapshot_ok (api s) n" "api_ok (api s)" "counts_off lost (ipMap s) (api s)"
    using lb_inv_pend [OF inv run_assign(2)] inv by (simp_all add: lb_inv_off_def)
  have effect: "api_ok a' \<and> counts_off lost m' a' \<and> (\<forall>x. snapshot_ok (api s) x \<longrightarrow> snapshot_ok a' x)"
    using assign_locked_cases [OF run_assign(5,3,4) ok(1)] ok
    by (auto intro: api_ok_stored snapshot_ok_stored counts_off_assign)
  show ?thesis
    by (rule lb_inv_change [OF inv, of a' m'])
      (use effect in \<open>auto simp: run_assign(1) split: if_splits\<close>)
next
  case (run_remove i n upd ip r m' a')
  have ok: "snapshot_ok (api s) n" "api_ok (api s)" "counts_off lost (ipMap s) (api s)"
    using lb_inv_pend [OF inv run_remove(2)] inv by (simp_all add: lb_inv_off_def)
  have effect: "api_ok a' \<and> counts_off lost m' a' \<and> (\<forall>x. snapshot_ok (api s) x \<longrightarrow> snapshot_ok a' x)"
    using remove_locked_cases [OF run_remove(5,3) ok(1)] ok run_remove(4)
    by (auto intro: api_ok_stored snapshot_ok_stored counts_off_remove)
  show ?thesis
    by (rule lb_inv_change [OF inv, of a' m'])
      (use effect in \<open>auto simp: run_remove(1) split: if_splits\<close>)
next
  case (external a')
  have ok: "api_ok (api s)" "counts_off lost (ipMap s) (api s)" using inv by (auto simp: lb_inv_off_def)
  show ?thesis
    by (rule lb_inv_change [OF inv, of a' "ipMap s"])
      (use external_change_inv [OF external(2) ok(1)] ok(2) in
        \<open>auto simp: external(1) counts_off_def\<close>)
qed (auto intro!: lb_inv_frame [OF inv] split: if_splits)

subsection \<open>Reachable states\<close>

lemma card_assigned_nodes:
  assumes "api_ok a" and "distinct ns" and "set ns = ran (nodes a)"
  shows "length (filter (\<lambda>n. assigned_ip n = Some ip) ns) = card (assigned_nodes a ip)"
proof -
  let ?N = "{n \<in> ran (nodes a). assigned_ip n = Some ip}"
  have "inj_on Name ?N"
  proof (rule inj_onI)
    fix x y
    assume "x \<in> ?N" "y \<in> ?N" and same: "Name x = Name y"
    then obtain k l where kl: "nodes a k = Some x" "nodes a l = Some y" by (auto simp: ran_def)
    then have "k = l" using same api_okD(1) [OF assms(1) kl(1)] api_okD(1) [OF assms(1) kl(2)] by simp
    with kl show "x = y" by simp
  qed
  moreover have "Name ` ?N = assigned_nodes a ip"
    using api_okD(1) [OF assms(1)] by (force simp: assigned_nodes_def ran_def)
  ultimately have "card ?N = card (assigned_nodes a ip)" by (metis card_image)
  moreover have "length (filter (\<lambda>n. assigned_ip n = Some ip) ns) = card ?N"
    using distinct_card [of "filter (\<lambda>n. assigned_ip n = Some ip) ns"] assms(2,3) by simp
  ultimately show ?thesis by simp
qed

lemma lb_init_inv:
  assumes "lb_init ipList s"
  shows "lb_inv s" and "ip_known (ipMap s) ip \<longleftrightarrow> ip \<in> set ipList"
proof -
  have ok: "api_ok (api s)" using assms by (auto simp: lb_init_def api_ok_def)
  obtain ns where ns: "distinct ns" "set ns = ran (nodes (api s))"
    and m: "ipMap s = fold resync_node ns (initIPMap ipList)"
    using assms by (auto simp: lb_init_def resyncIPMap_def)
  have "counts_off (\<lambda>_. 0) (ipMap s) (api s)"
    unfolding counts_off_def m map_of_resync
    by (auto simp: card_assigned_nodes [OF ok ns])
  moreover have "snapshot_ok (api s) n" if "n \<in> ran (nodes (api s))" for n
    using that snapshot_ok_current [OF ok] by (auto simp: ran_def)
  ultimately show "lb_inv s"
    using assms ok by (auto simp: lb_inv_def lb_init_def intro: snapshot_ok_current)
  show "ip_known (ipMap s) ip \<longleftrightarrow> ip \<in> set ipList"
    by (simp add: m ip_known_def [of "initIPMap ipList"] map_of_initIPMap)
qed

lemma ip_known_assign_locked:
  assumes "assign_locked upd ord n m a = (r, m', a')" and "range_ok ord"
  shows "ip_known m' ip \<longleftrightarrow> ip_known m ip"
  using assign_locked_map [OF assms(1)] lb.pick_in [OF assms(2)]
  by (auto simp: known_ips_iff)

lemma ip_known_remove_locked:
  "remove_locked upd n j m a = (r, m', a') \<Longrightarrow> ip_known m' ip \<longleftrightarrow> ip_known m ip"
  by (auto simp: remove_locked_def split: if_splits prod.splits option.splits)

lemma lb_step_known: "lb_step s t \<Longrightarrow> ip_known (ipMap t) ip \<longleftrightarrow> ip_known (ipMap s) ip"
  by (induction rule: lb_step.induct) (auto simp: ip_known_assign_locked ip_known_remove_locked)

lemma lb_reachable_inv:
  "lb_reachable ipList s \<Longrightarrow> lb_inv s \<and> (\<forall>ip. ip_known (ipMap s) ip \<longleftrightarrow> ip \<in> set ipList)"
  by (induction rule: lb_reachable.induct) (auto simp: lb_init_inv lb_step_known intro: lb_step_inv)

lemma lb_reachable_count:
  assumes "lb_reachable ipList s" and "ip \<in> set ipList"
  shows "map_of (ipMap s) ip = Some (int (card (assigned_nodes (api s) ip)))"
proof -
  from lb_reachable_inv [OF assms(1)] assms(2) obtain c where "map_of (ipMap s) ip = Some c"
    by (auto simp: ip_known_def)
  with lb_reachable_inv [OF assms(1)] show ?thesis by (auto simp: lb_inv_def counts_off_def)
qed

lemma optimistic_cas_update [simp]: "optimistic cas_update"
  by (auto simp: optimistic_def update_allowed_def cas_update_def split: option.splits)

lemma assign_locked_answer:
  assumes "assign_locked upd ord n m a = (r, m', a')" and "range_ok ord" and "m \<noteq> []"
  shows "case r of Return ip \<Rightarrow> ip_known m ip | Fail e \<Rightarrow> True | Panics msg \<Rightarrow> False"
proof -
  have "pick_ip ord m \<noteq> None"
    using lb.pick_None [OF assms(2)] assms(3) by (simp add: known_ips_def)
  then show ?thesis
    using assms(1) lb.pick_in [OF assms(2)]
    by (auto simp: assign_locked_def assign_new_pick known_ips_iff
        split: option.splits prod.splits if_splits)
qed

lemma lb_reachable_answers:
  assumes "lb_reachable ipList s" and "ipList \<noteq> []" and "(i, r) \<in> set (answers s)"
  shows "case r of Return ip \<Rightarrow> ip \<in> set ipList | Fail e \<Rightarrow> True | Panics msg \<Rightarrow> False"
  using assms(1,3)
proof (induction arbitrary: i r rule: lb_reachable.induct)
  case (start s)
  then show ?case by (simp add: lb_init_def)
next
  case (step s t)
  have known: "ip_known (ipMap s) ip \<longleftrightarrow> ip \<in> set ipList" for ip
    using lb_reachable_inv [OF step.hyps(1)] by blast
  then have ne: "ipMap s \<noteq> []" using assms(2) by (force simp: ip_known_def)
  from step.hyps(2) show ?case
  proof cases
    case (run_assign j n upd ord r' m' a')
    then have "(i, r) \<in> set (answers s) \<or> r = r'" using step.prems by auto
    then show ?thesis
    proof
      assume "r = r'"
      then show ?thesis using assign_locked_answer [OF run_assign(5,4) ne] known by (cases r') simp_all
    qed (rule step.IH)
  qed (use step.IH step.prems in auto)
qed

section \<open>A concrete run\<close>

text \<open>One node, already assigned to the only server.\<close>

definition demo_node :: node where
  "demo_node = \<lparr>Name = ''n'', Annotations = Some [(NodeAnnotation, ''a'')], ResourceVersion = 1\<rparr>"

definition demo_sys :: lb_sys where
  "demo_sys = \<lparr>api = \<lparr>revision = 1, nodes = [''n'' \<mapsto> demo_node]\<rparr>, ipMap = [(''a'', 1)],
     cache = [''n'' \<mapsto> demo_node], seen = {demo_node}, pend = Map.empty, answers = []\<rparr>"

text \<open>An unpublish request for the node that is about to run.\<close>

definition demo_removing :: lb_sys where
  "demo_removing = demo_sys\<lparr>pend := (pend demo_sys)(0 \<mapsto> PRemove demo_node)\<rparr>"

text \<open>After an unpublish request has removed the assignment, with the informer not yet told.\<close>

definition demo_removed :: lb_sys where
  "demo_removed = demo_sys\<lparr>
     api := stored (api demo_sys) (unannotate demo_node) 2, ipMap := [(''a'', 0)],
     seen := {demo_node} \<union> ran (nodes (stored (api demo_sys) (unannotate demo_node) 2))\<rparr>"

text \<open>A publish request that read the cache before the informer was told.\<close>

definition demo_answered :: lb_sys where
  "demo_answered = demo_removed\<lparr>answers := [(1, Return ''a'')],
     seen := seen demo_removed \<union> ran (nodes (api demo_removed))\<rparr>"

lemma demo_init: "lb_init [''a''] demo_sys"
proof -
  have "distinct [demo_node] \<and> set [demo_node] = ran (nodes (api demo_sys)) \<and>
      resyncIPMap (Inr [demo_node]) [''a''] = Return (ipMap demo_sys)"
    by (simp add: demo_sys_def demo_node_def resyncIPMap_def resync_node_def initIPMap_def
        assigned_ip_def ip_known_def ip_add_def ip_count_def)
  then show ?thesis
    unfolding lb_init_def
    by (auto simp: demo_sys_def demo_node_def intro!: exI [of _ "[demo_node]"])
qed

lemma demo_reachable: "lb_reachable [''a''] demo_sys"
  by (rule lb_reachable.start [OF demo_init])

lemma demo_assigned: "assigned_ip demo_node = Some ''a''"
  by (simp add: demo_node_def assigned_ip_def)

lemma Name_demo_node [simp]: "Name demo_node = ''n''"
  by (simp add: demo_node_def)

lemma demo_removing_reachable: "lb_reachable [''a''] demo_removing"
proof (rule lb_reachable.step [OF demo_reachable])
  show "lb_step demo_sys demo_removing"
    unfolding demo_removing_def
    by (rule lb_step.get_remove [where k = "''n''"]) (simp_all add: demo_sys_def)
qed

lemma demo_remove_run:
  "remove_locked cas_update demo_node ''a'' (ipMap demo_removing) (api demo_removing)
     = (Return (), [(''a'', 0)], stored (api demo_sys) (unannotate demo_node) 2)"
  by (simp add: remove_locked_def demo_removing_def demo_sys_def ip_known_def cas_update_def
      ip_add_def ip_count_def demo_node_def numeral_2_eq_2)

lemma demo_removing_step: "lb_step demo_removing demo_removed"
proof -
  let ?t = "demo_removing\<lparr>pend := (pend demo_removing)(0 := None), ipMap := [(''a'', 0)],
      api := stored (api demo_sys) (unannotate demo_node) 2,
      seen := seen demo_removing \<union> ran (nodes (stored (api demo_sys) (unannotate demo_node) 2))\<rparr>"
  note demo_remove_run
  then have "lb_step demo_removing ?t"
    by (intro lb_step.run_remove [OF _ optimistic_cas_update demo_assigned])
      (simp_all add: demo_removing_def)
  moreover have "?t = demo_removed"
    by (simp add: demo_removed_def demo_removing_def demo_sys_def)
  ultimately show ?thesis by (simp only:)
qed

lemma demo_removed_reachable: "lb_reachable [''a''] demo_removed"
  by (rule lb_reachable.step [OF demo_removing_reachable demo_removing_step])

lemma demo_answered_reachable: "lb_reachable [''a''] demo_answered"
proof -
  let ?s = "demo_removed\<lparr>pend := (pend demo_removed)(1 \<mapsto> PAssign demo_node)\<rparr>"
  let ?t = "?s\<lparr>pend := (pend ?s)(1 := None), ipMap := ipMap demo_removed, api := api demo_removed,
      seen := seen ?s \<union> ran (nodes (api demo_removed)), answers := answers ?s @ [(1, Return ''a'')]\<rparr>"
  have get: "lb_step demo_removed ?s"
    by (rule lb_step.get_assign [where k = "''n''"]) (simp_all add: demo_removed_def demo_sys_def)
  have "assign_locked cas_update in_order demo_node (ipMap ?s) (api ?s)
      = (Return ''a'', ipMap demo_removed, api demo_removed)"
    by (simp add: assign_locked_def demo_assigned ip_known_def demo_removed_def)
  then have "lb_step ?s ?t"
    by (intro lb_step.run_assign [OF _ optimistic_cas_update range_ok_in_order]) simp_all
  moreover have "?t = demo_answered"
    by (simp add: demo_answered_def demo_removed_def demo_sys_def)
  ultimately have "lb_step ?s demo_answered" by (simp only:)
  then show ?thesis by (rule lb_reachable.step [OF lb_reachable.step [OF demo_removed_reachable get]])
qed

section \<open>Properties\<close>





text \<open>Every answered publish request gets an IP of the configured list or an error; with a
  non-empty list the controller never indexes an empty slice.\<close>

lemma lb_answers_configured:
  assumes "lb_reachable ipList s" and "ipList \<noteq> []" and "(i, r) \<in> set (answers s)"
  shows "case r of Return ip \<Rightarrow> ip \<in> set ipList | Fail e \<Rightarrow> True | Panics msg \<Rightarrow> False"
  by (rule lb_reachable_answers [OF assms])

text \<open>A call that is not interleaved with others is two steps of the system: reading the
  cache and then running the rest have together the result and the effect of
  \<open>AssignIPToNode\<close>.\<close>

lemma AssignIPToNode_two_steps:
  assumes "AssignIPToNode (cache_lister s) upd ord k volumeID (ipMap s) (api s) = (r, m', a')"
    and "cache s k = Some n" and "pend s i = None" and "optimistic upd" and "range_ok ord"
  shows "\<exists>s1 s2. lb_step s s1 \<and> lb_step s1 s2 \<and> ipMap s2 = m' \<and> api s2 = a' \<and>
    answers s2 = answers s @ [(i, r)] \<and> cache s2 = cache s \<and> pend s2 = pend s"
proof -
  let ?s1 = "s\<lparr>pend := (pend s)(i \<mapsto> PAssign n)\<rparr>"
  let ?s2 = "?s1\<lparr>pend := (pend ?s1)(i := None), ipMap := m', api := a',
      seen := seen ?s1 \<union> ran (nodes a'), answers := answers ?s1 @ [(i, r)]\<rparr>"
  have "assign_locked upd ord n (ipMap s) (api s) = (r, m', a')"
    using assms(1,2) by (simp add: AssignIPToNode_def cache_lister_def)
  then have "lb_step ?s1 ?s2"
    by (intro lb_step.run_assign [OF _ assms(4,5)]) simp_all
  moreover have "lb_step s ?s1" by (rule lb_step.get_assign [OF assms(3,2)])
  moreover have "(pend s)(i := None) = pend s" using assms(3) by auto
  ultimately show ?thesis by (intro exI [of _ ?s1] exI [of _ ?s2]) simp
qed

text \<open>A publish request that acts on the current node object leaves the node recorded under
  the IP it returns.\<close>

lemma fresh_assign_recorded:
  assumes "lb_reachable ipList s" and "pend s i = Some (PAssign n)"
    and "nodes (api s) (Name n) = Some n" and "optimistic upd" and "range_ok ord"
    and "assign_locked upd ord n (ipMap s) (api s) = (Return ip, m', a')"
  shows "Name n \<in> assigned_nodes a' ip"
proof -
  have "snapshot_ok (api s) n"
    using lb_inv_pend [OF _ assms(2)] lb_reachable_inv [OF assms(1)] by auto
  from assign_locked_cases [OF assms(6,4,5) this] show ?thesis
  proof
    assume same: "m' = ipMap s \<and> a' = api s"
    have "assigned_ip n = Some ip"
    proof (rule ccontr)
      assume "assigned_ip n \<noteq> Some ip"
      then have "m' = ip_add 1 ip (ipMap s)"
        using assms(6) by (auto simp: assign_locked_def assign_new_pick
            split: option.splits prod.splits if_splits)
      then have "ip_count m' ip \<noteq> ip_count (ipMap s) ip" by simp
      then show False using same by simp
    qed
    then show ?thesis using same assms(3) by (simp add: assigned_nodes_current)
  next
    assume "\<exists>j v. nodes (api s) (Name n) = Some n \<and> revision (api s) < v \<and>
       ip_known (ipMap s) j \<and> (\<forall>j. assigned_ip n = Some j \<longrightarrow> \<not> ip_known (ipMap s) j) \<and>
       m' = ip_add 1 j (ipMap s) \<and> a' = stored (api s) (annotate n j) v \<and> Return ip = Return j"
    then show ?thesis by (auto simp: assigned_nodes_stored)
  qed
qed


end
