(* ===== verification/LBSpec.thy ===== *)
theory LBSpec
  imports LBConcurrent
begin

text \<open>
  What the load balancer promises, without maps, caches, versions and mutexes: an assignment of
  servers to nodes, where a node that has none may be given one of least load and a node that has
  one may lose it.  The concurrent system of \<open>LBConcurrent\<close> refines this specification, and a
  publish request can always be brought to success.
\<close>

section \<open>Simulation\<close>

locale simulation =
  fixes cinit :: "'c \<Rightarrow> bool" and cstep :: "'c \<Rightarrow> 'c \<Rightarrow> bool" and creach :: "'c \<Rightarrow> bool"
    and ainit :: "'a \<Rightarrow> bool" and astep :: "'a \<Rightarrow> 'a \<Rightarrow> bool"
    and abs :: "'c \<Rightarrow> 'a"
  assumes creach_induct: "creach s \<Longrightarrow> (\<And>s. cinit s \<Longrightarrow> P s) \<Longrightarrow>
      (\<And>s t. creach s \<Longrightarrow> P s \<Longrightarrow> cstep s t \<Longrightarrow> P t) \<Longrightarrow> P s"
    and sim_init: "cinit s \<Longrightarrow> ainit (abs s)"
    and sim_step: "creach s \<Longrightarrow> cstep s t \<Longrightarrow> astep\<^sup>*\<^sup>* (abs s) (abs t)"
begin

lemma sim_reachable: "creach s \<Longrightarrow> \<exists>a. ainit a \<and> astep\<^sup>*\<^sup>* a (abs s)"
  by (erule creach_induct) (use sim_init in blast, meson rtranclp_trans sim_step)

text \<open>Properties of the specification carry over.\<close>

lemma transfer:
  assumes "creach s" and "\<And>a. ainit a \<Longrightarrow> I a" and "\<And>a b. I a \<Longrightarrow> astep a b \<Longrightarrow> I b"
  shows "I (abs s)"
proof -
  obtain a where "ainit a" and "astep\<^sup>*\<^sup>* a (abs s)" using sim_reachable [OF assms(1)] by blast
  from this(2) show ?thesis by (induction rule: rtranclp_induct) (use \<open>ainit a\<close> assms(2,3) in auto)
qed

end

section \<open>The specification\<close>

type_synonym assignment = "string \<Rightarrow> string option"

definition node_load :: "assignment \<Rightarrow> string \<Rightarrow> nat" where
  "node_load A ip = card {k. A k = Some ip}"

inductive spec_step :: "string set \<Rightarrow> assignment \<Rightarrow> assignment \<Rightarrow> bool" for ips where
  assign: "A k = None \<Longrightarrow> ip \<in> ips \<Longrightarrow> \<forall>j\<in>ips. node_load A ip \<le> node_load A j \<Longrightarrow>
     spec_step ips A (A(k \<mapsto> ip))"
| release: "A k = Some ip \<Longrightarrow> spec_step ips A (A(k := None))"

definition spec_init :: "string set \<Rightarrow> assignment \<Rightarrow> bool" where
  "spec_init ips A \<longleftrightarrow> finite (dom A) \<and> ran A \<subseteq> ips"

text \<open>The assignment the API server has on record, restricted to the configured servers.\<close>

definition recorded :: "string set \<Rightarrow> api_state \<Rightarrow> assignment" where
  "recorded ips a k =
     (case nodes a k of
        None \<Rightarrow> None
      | Some n \<Rightarrow>
          (case assigned_ip n of None \<Rightarrow> None | Some ip \<Rightarrow> if ip \<in> ips then Some ip else None))"

section \<open>Lemmas\<close>

lemma recorded_eq_Some:
  "recorded ips a k = Some ip \<longleftrightarrow> ip \<in> ips \<and> k \<in> assigned_nodes a ip"
  by (auto simp: recorded_def assigned_nodes_def split: option.splits if_splits)

lemma node_load_recorded: "ip \<in> ips \<Longrightarrow> node_load (recorded ips a) ip = card (assigned_nodes a ip)"
  by (simp add: node_load_def recorded_eq_Some)

lemma recorded_cong:
  assumes "\<And>ip. ip \<in> ips \<Longrightarrow> assigned_nodes a ip = assigned_nodes a' ip"
  shows "recorded ips a = recorded ips a'"
proof
  fix k
  have "recorded ips a k = Some ip \<longleftrightarrow> recorded ips a' k = Some ip" for ip
    using assms by (auto simp: recorded_eq_Some)
  then show "recorded ips a k = recorded ips a' k" by (metis not_None_eq)
qed

lemma recorded_stored:
  "recorded ips (stored a n r) = (recorded ips a)(Name n :=
     (case assigned_ip n of None \<Rightarrow> None | Some ip \<Rightarrow> if ip \<in> ips then Some ip else None))"
  by (auto simp: recorded_def stored_def fun_eq_iff split: option.splits)

lemma recorded_current:
  "nodes a (Name n) = Some n \<Longrightarrow> recorded ips a (Name n) =
     (case assigned_ip n of None \<Rightarrow> None | Some ip \<Rightarrow> if ip \<in> ips then Some ip else None)"
  by (simp add: recorded_def)

lemma run_assign_refines:
  assumes "lb_reachable ipList s" and "snapshot_ok (api s) n" and "optimistic upd" and "range_ok ord"
    and "assign_locked upd ord n (ipMap s) (api s) = (r, m', a')"
  shows "a' = api s \<or> spec_step (set ipList) (recorded (set ipList) (api s)) (recorded (set ipList) a')"
  using assign_locked_cases [OF assms(5,3,4,2)]
proof
  let ?A = "recorded (set ipList)"
  assume "\<exists>ip v. nodes (api s) (Name n) = Some n \<and> revision (api s) < v \<and> ip_known (ipMap s) ip \<and>
       (\<forall>j. assigned_ip n = Some j \<longrightarrow> \<not> ip_known (ipMap s) j) \<and>
       m' = ip_add 1 ip (ipMap s) \<and> a' = stored (api s) (annotate n ip) v \<and> r = Return ip"
  then obtain ip v where cur: "nodes (api s) (Name n) = Some n"
    and known: "ip_known (ipMap s) ip" and free: "\<forall>j. assigned_ip n = Some j \<longrightarrow> \<not> ip_known (ipMap s) j"
    and m': "m' = ip_add 1 ip (ipMap s)" and a': "a' = stored (api s) (annotate n ip) v"
    and r: "r = Return ip" by blast
  have ips: "ip_known (ipMap s) j \<longleftrightarrow> j \<in> set ipList" for j
    using lb_reachable_inv [OF assms(1)] by blast
  have "m' \<noteq> ipMap s"
  proof
    assume "m' = ipMap s"
    then have "ip_count (ip_add 1 ip (ipMap s)) ip = ip_count (ipMap s) ip" using m' by simp
    then show False by simp
  qed
  then have pick: "pick_ip ord (ipMap s) = Some ip"
    using assign_locked_map [OF assms(5)] r by auto
  have "node_load (?A (api s)) ip \<le> node_load (?A (api s)) j" if "j \<in> set ipList" for j
    using lb.pick_least [OF assms(4) pick, of j] that known ips lb_reachable_count [OF assms(1)]
    by (simp add: node_load_recorded known_ips_iff ip_count_def)
  moreover have "?A (api s) (Name n) = None"
    using free ips by (auto simp: recorded_current [OF cur] split: option.splits)
  ultimately have "spec_step (set ipList) (?A (api s)) ((?A (api s))(Name n \<mapsto> ip))"
    using known ips by (intro spec_step.assign) auto
  then show ?thesis using known ips by (simp add: a' recorded_stored)
qed simp

lemma run_remove_refines:
  assumes "lb_reachable ipList s" and "snapshot_ok (api s) n" and "optimistic upd"
    and "assigned_ip n = Some ip" and "remove_locked upd n ip (ipMap s) (api s) = (r, m', a')"
  shows "a' = api s \<or> spec_step (set ipList) (recorded (set ipList) (api s)) (recorded (set ipList) a')"
  using remove_locked_cases [OF assms(5,3,2)]
proof
  let ?A = "recorded (set ipList)"
  assume "\<exists>v. nodes (api s) (Name n) = Some n \<and> revision (api s) < v \<and> ip_known (ipMap s) ip \<and>
       m' = ip_add (- 1) ip (ipMap s) \<and> a' = stored (api s) (unannotate n) v"
  then obtain v where cur: "nodes (api s) (Name n) = Some n" and known: "ip_known (ipMap s) ip"
    and a': "a' = stored (api s) (unannotate n) v" by blast
  have "?A (api s) (Name n) = Some ip"
    using known lb_reachable_inv [OF assms(1)] assms(4) by (simp add: recorded_current [OF cur])
  from spec_step.release [where A = "?A (api s)", OF this] show ?thesis by (simp add: a' recorded_stored)
qed simp

lemma lb_step_refines:
  assumes "lb_reachable ipList s" and "lb_step s t"
  shows "recorded (set ipList) (api t) = recorded (set ipList) (api s) \<or>
    spec_step (set ipList) (recorded (set ipList) (api s)) (recorded (set ipList) (api t))"
proof -
  have inv: "lb_inv s" using lb_reachable_inv [OF assms(1)] by blast
  from assms(2) show ?thesis
  proof cases
    case (run_assign i n upd ord r m' a')
    have "snapshot_ok (api s) n" using lb_inv_pend [OF inv run_assign(2)] by simp
    from run_assign_refines [OF assms(1) this run_assign(3,4,5)] show ?thesis
      by (auto simp: run_assign(1))
  next
    case (run_remove i n upd ip r m' a')
    have "snapshot_ok (api s) n" using lb_inv_pend [OF inv run_remove(2)] by simp
    from run_remove_refines [OF assms(1) this run_remove(3,4,5)] show ?thesis
      by (auto simp: run_remove(1))
  next
    case (external a')
    have "api_ok (api s)" using inv by (simp add: lb_inv_def)
    from external_change_inv(3) [OF external(2) this] have
      "recorded (set ipList) a' = recorded (set ipList) (api s)" by (intro recorded_cong) simp
    then show ?thesis by (simp add: external(1))
  qed simp_all
qed

lemma spec_init_recorded:
  assumes "api_ok a"
  shows "spec_init ips (recorded ips a)"
proof -
  have "dom (recorded ips a) \<subseteq> dom (nodes a)" by (auto simp: recorded_def split: option.splits)
  then have "finite (dom (recorded ips a))"
    using assms by (auto simp: api_ok_def intro: finite_subset)
  then show ?thesis by (auto simp: spec_init_def ran_def recorded_eq_Some)
qed

interpretation lbs: simulation "lb_init ipList" lb_step "lb_reachable ipList"
  "spec_init (set ipList)" "spec_step (set ipList)" "\<lambda>s. recorded (set ipList) (api s)"
  for ipList
proof (unfold_locales, goal_cases)
  case (1 s P)
  from 1(1) show ?case by (induction rule: lb_reachable.induct) (use 1(2,3) in auto)
next
  case (2 s)
  then show ?case using lb_init_inv(1) spec_init_recorded by (auto simp: lb_inv_def)
next
  case (3 s t)
  then show ?case using lb_step_refines by fastforce
qed

text \<open>The informer can always deliver the current objects.\<close>

lemma lb_reachable_seen: "lb_reachable ipList s \<Longrightarrow> ran (nodes (api s)) \<subseteq> seen s"
proof (induction rule: lb_reachable.induct)
  case (step s t)
  from step.hyps(2) step.IH show ?case by cases auto
qed (simp add: lb_init_def)

text \<open>A request that acts on the current object of a node, with an API server that accepts it.\<close>

lemma assign_locked_fresh:
  assumes "nodes a (Name n) = Some n" and "m \<noteq> []"
  shows "\<exists>ip m' a'. assign_locked cas_update in_order n m a = (Return ip, m', a') \<and>
    ip_known m ip \<and> Name n \<in> assigned_nodes a' ip"
proof (cases "\<exists>ip. assigned_ip n = Some ip \<and> ip_known m ip")
  case True
  then show ?thesis using assigned_nodes_current [OF assms(1)] by (auto simp: assign_locked_def)
next
  case False
  obtain ip where pick: "pick_ip in_order m = Some ip"
    using lb.pick_None [OF range_ok_in_order, of m] assms(2) by (auto simp: known_ips_def)
  then have "ip_known m ip" using lb.pick_in [OF range_ok_in_order] by (simp add: known_ips_iff)
  moreover have "assign_locked cas_update in_order n m a =
      (Return ip, ip_add 1 ip m, stored a (annotate n ip) (revision a + 1))"
    using False pick assms(1)
    by (auto simp: assign_locked_def assign_new_pick cas_update_def split: option.splits)
  ultimately show ?thesis by (simp add: assigned_nodes_stored)
qed

text \<open>The unpublish request of the sample system changes the assignment on record.\<close>

lemma demo_removing_changes:
  "recorded (set [''a'']) (api demo_removed) \<noteq> recorded (set [''a'']) (api demo_removing)"
proof -
  have "recorded (set [''a'']) (api demo_removing) ''n'' = Some ''a''"
    by (simp add: recorded_def demo_removing_def demo_sys_def demo_assigned)
  moreover have "recorded (set [''a'']) (api demo_removed) ''n'' = None"
    by (simp add: recorded_def demo_removed_def demo_sys_def stored_def assigned_ip_def unannotate_def
        demo_node_def)
  ultimately show ?thesis by (auto dest: fun_cong [of _ _ "''n''"])
qed

section \<open>Properties\<close>



text \<open>C13. A publish request can always be brought to success: from every reachable state, however
  stale the cache and whatever requests are under way, there is a way for a new request for an existing
  node to be answered with a configured IP under which the node is then on record: the informer
  delivers the current object, the request reads it, and the API server accepts the update.\<close>

theorem publish_can_succeed:
  assumes "lb_reachable ipList s" and "ipList \<noteq> []" and "nodes (api s) k = Some n"
    and "pend s i = None"
  shows "\<exists>t ip. lb_step\<^sup>*\<^sup>* s t \<and> ip \<in> set ipList \<and> answers t = answers s @ [(i, Return ip)] \<and>
    k \<in> assigned_nodes (api t) ip"
proof -
  have inv: "lb_inv s" "ip_known (ipMap s) ip \<longleftrightarrow> ip \<in> set ipList" for ip
    using lb_reachable_inv [OF assms(1)] by blast+
  have k: "Name n = k" using api_okD(1) [OF _ assms(3)] inv(1) by (simp add: lb_inv_def)
  have "ipMap s \<noteq> []" using inv(2) assms(2) by (force simp: ip_known_def)
  with assms(3) k obtain ip m' a' where
    run: "assign_locked cas_update in_order n (ipMap s) (api s) = (Return ip, m', a')"
    and ip: "ip_known (ipMap s) ip" "k \<in> assigned_nodes a' ip"
    using assign_locked_fresh [of "api s" n "ipMap s"] by blast
  let ?s1 = "s\<lparr>cache := (cache s)(Name n \<mapsto> n)\<rparr>"
  let ?s2 = "?s1\<lparr>pend := (pend ?s1)(i \<mapsto> PAssign n)\<rparr>"
  let ?s3 = "?s2\<lparr>pend := (pend ?s2)(i := None), ipMap := m', api := a',
    seen := seen ?s2 \<union> ran (nodes a'), answers := answers ?s2 @ [(i, Return ip)]\<rparr>"
  have "n \<in> seen s" using lb_reachable_seen [OF assms(1)] assms(3) by (auto simp: ran_def)
  then have "lb_step s ?s1" by (rule lb_step.informer)
  moreover have "lb_step ?s1 ?s2" by (rule lb_step.get_assign [where k = k]) (simp_all add: assms(4) k)
  moreover have "assign_locked cas_update in_order n (ipMap ?s2) (api ?s2) = (Return ip, m', a')"
    using run by simp
  then have "lb_step ?s2 ?s3"
    by (intro lb_step.run_assign [OF _ optimistic_cas_update range_ok_in_order]) simp_all
  ultimately have "lb_step\<^sup>*\<^sup>* s ?s3" by (meson converse_rtranclp_into_rtranclp rtranclp.rtrancl_refl)
  then show ?thesis using ip inv(2) by (intro exI [of _ ?s3] exI [of _ ip]) simp
qed

theorem publish_can_succeed_witness:
  "\<exists>t ip. lb_step\<^sup>*\<^sup>* demo_removed t \<and> ip \<in> set [''a''] \<and>
    answers t = answers demo_removed @ [(7, Return ip)] \<and> ''n'' \<in> assigned_nodes (api t) ip"
  by (rule publish_can_succeed [OF demo_removed_reachable])
    (simp_all add: demo_removed_def demo_sys_def stored_def)

end
