(* ===== verification/LBDeletion.thy ===== *)
theory LBDeletion
  imports LBConcurrent
begin

text \<open>
  The load balancer in a cluster whose nodes go away.  \<open>LBConcurrent\<close> lets no other client delete a
  node that carries the driver's annotation; here any node may be deleted at any time, as an
  autoscaler does.  \<open>RemoveIPFromNode\<close> then finds no node and returns without touching the map, so
  the counts drift.  The drift is exactly the number of annotated nodes that were deleted.
\<close>

section \<open>Deletions\<close>

definition delete_node :: "string \<Rightarrow> lb_sys \<Rightarrow> lb_sys" where
  "delete_node k s = s\<lparr>api := (api s)\<lparr>nodes := (nodes (api s))(k := None)\<rparr>\<rparr>"

text \<open>Reachability with deletions; \<open>lost ip\<close> is the number of nodes deleted with annotation \<open>ip\<close>.\<close>

inductive del_reachable :: "string list \<Rightarrow> (string \<Rightarrow> nat) \<Rightarrow> lb_sys \<Rightarrow> bool" for ipList where
  start: "lb_init ipList s \<Longrightarrow> del_reachable ipList (\<lambda>_. 0) s"
| step: "del_reachable ipList lost s \<Longrightarrow> lb_step s t \<Longrightarrow> del_reachable ipList lost t"
| deleted: "del_reachable ipList lost s \<Longrightarrow> nodes (api s) k = Some n \<Longrightarrow> assigned_ip n = Some ip \<Longrightarrow>
     del_reachable ipList (lost(ip := lost ip + 1)) (delete_node k s)"

section \<open>Lemmas\<close>

lemma assigned_nodes_delete:
  "assigned_nodes (api (delete_node k s)) ip = assigned_nodes (api s) ip - {k}"
  by (auto simp: assigned_nodes_def delete_node_def)

lemma api_ok_delete: "api_ok (api s) \<Longrightarrow> api_ok (api (delete_node k s))"
  by (auto simp: api_ok_def delete_node_def)

lemma snapshot_ok_delete: "snapshot_ok (api s) n \<Longrightarrow> snapshot_ok (api (delete_node k s)) n"
  by (auto simp: snapshot_ok_def delete_node_def)

lemma delete_node_frame [simp]:
  "ipMap (delete_node k s) = ipMap s" "cache (delete_node k s) = cache s"
  "seen (delete_node k s) = seen s" "pend (delete_node k s) = pend s"
  by (simp_all add: delete_node_def)

lemma counts_off_delete:
  assumes "counts_off lost (ipMap s) (api s)" and "api_ok (api s)"
    and "nodes (api s) k = Some n" and "assigned_ip n = Some ip"
  shows "counts_off (lost(ip := lost ip + 1)) (ipMap s) (api (delete_node k s))"
proof -
  have mem: "k \<in> assigned_nodes (api s) j \<longleftrightarrow> j = ip" for j
    using assms(3,4) by (auto simp: assigned_nodes_def)
  have "card (assigned_nodes (api s) ip) = Suc (card (assigned_nodes (api s) ip - {k}))"
    by (rule card.remove) (simp_all add: mem assms(2))
  then show ?thesis
    using assms(1) mem by (auto simp: counts_off_def assigned_nodes_delete)
qed

lemma lb_inv_off_delete:
  assumes "lb_inv_off lost s" and "nodes (api s) k = Some n" and "assigned_ip n = Some ip"
  shows "lb_inv_off (lost(ip := lost ip + 1)) (delete_node k s)"
  using assms counts_off_delete [of lost s k n ip]
  by (auto simp: lb_inv_off_def api_ok_delete snapshot_ok_delete)

lemma del_reachable_inv:
  "del_reachable ipList lost s \<Longrightarrow>
     lb_inv_off lost s \<and> (\<forall>ip. ip_known (ipMap s) ip \<longleftrightarrow> ip \<in> set ipList)"
proof (induction rule: del_reachable.induct)
  case (deleted lost s k n ip)
  then show ?case using lb_inv_off_delete [of lost s k n ip] by (simp add: fun_upd_def)
qed (auto simp: lb_init_inv lb_step_known intro: lb_step_inv)

lemma del_reachable_count:
  assumes "del_reachable ipList lost s" and "ip \<in> set ipList"
  shows "map_of (ipMap s) ip = Some (int (card (assigned_nodes (api s) ip)) + int (lost ip))"
proof -
  obtain c where "map_of (ipMap s) ip = Some c"
    using del_reachable_inv [OF assms(1)] assms(2) by (auto simp: ip_known_def)
  with del_reachable_inv [OF assms(1)] show ?thesis by (auto simp: lb_inv_off_def counts_off_def)
qed

section \<open>A concrete run\<close>

text \<open>The sample node is deleted and the informer has been told.\<close>

definition demo_deleted :: lb_sys where
  "demo_deleted = (delete_node ''n'' demo_sys)\<lparr>cache := (cache demo_sys)(''n'' := None)\<rparr>"

lemma demo_deleted_reachable: "del_reachable [''a''] ((\<lambda>_. 0)(''a'' := 1)) demo_deleted"
proof -
  have "del_reachable [''a''] ((\<lambda>_. 0)(''a'' := 0 + 1)) (delete_node ''n'' demo_sys)"
    by (rule del_reachable.deleted [OF del_reachable.start [OF demo_init] _ demo_assigned])
      (simp add: demo_sys_def)
  then show ?thesis
    using del_reachable.step lb_step.informer_delete [of "delete_node ''n'' demo_sys" "''n''"]
    by (simp add: demo_deleted_def)
qed

section \<open>Properties\<close>



end
