(* ===== verification/LBRestart.thy ===== *)
theory LBRestart
  imports LBDeletion
begin

text \<open>
  The controller process may die at any moment, also between the update of a node object and the
  change of the in-memory map, and be started again, possibly with another list of IPs.  The
  annotations at the API server are what survives; \<open>NewLBController\<close> rebuilds the map from them.
\<close>

section \<open>Crashes\<close>

text \<open>The API server as a crash leaves it: no request was past its update, or one was, and its change
  of the map is lost.\<close>

inductive crash_state :: "lb_sys \<Rightarrow> api_state \<Rightarrow> bool" where
  idle: "crash_state s (api s)"
| assigning: "pend s i = Some (PAssign n) \<Longrightarrow> optimistic upd \<Longrightarrow> range_ok ord \<Longrightarrow>
     assign_locked upd ord n (ipMap s) (api s) = (r, m', a') \<Longrightarrow> crash_state s a'"
| removing: "pend s i = Some (PRemove n) \<Longrightarrow> optimistic upd \<Longrightarrow> assigned_ip n = Some ip \<Longrightarrow>
     remove_locked upd n ip (ipMap s) (api s) = (r, m', a') \<Longrightarrow> crash_state s a'"

text \<open>A new controller process that finds the API server in state \<open>a\<close>.\<close>

definition restarted :: "string list \<Rightarrow> api_state \<Rightarrow> lb_sys \<Rightarrow> bool" where
  "restarted ipList a t \<longleftrightarrow> lb_init ipList t \<and> api t = a"

section \<open>Lemmas\<close>

lemma crash_state_cases:
  assumes "crash_state s a" and "lb_inv_off lost s"
  shows "a = api s \<or>
    (\<exists>n ip v. nodes (api s) (Name n) = Some n \<and> revision (api s) < v \<and> ip_known (ipMap s) ip \<and>
       (a = stored (api s) (annotate n ip) v \<and> (\<forall>j. assigned_ip n = Some j \<longrightarrow> \<not> ip_known (ipMap s) j) \<or>
        a = stored (api s) (unannotate n) v \<and> assigned_ip n = Some ip))"
  using assms(1)
proof cases
  case (assigning i n upd ord r m')
  have "snapshot_ok (api s) n" using lb_inv_pend [OF assms(2) assigning(1)] by simp
  from assign_locked_cases [OF assigning(4,2,3) this] show ?thesis by blast
next
  case (removing i n upd ip r m')
  have "snapshot_ok (api s) n" using lb_inv_pend [OF assms(2) removing(1)] by simp
  from remove_locked_cases [OF removing(4,2) this] removing(3) show ?thesis by blast
qed simp

lemma crash_state_ok:
  assumes "crash_state s a" and "lb_inv_off lost s"
  shows "api_ok a"
  using crash_state_cases [OF assms] assms(2) by (auto simp: lb_inv_off_def intro: api_ok_stored)

text \<open>At most one node changes hands in the crash.\<close>

lemma assigned_nodes_annotate:
  "assigned_nodes (stored a (annotate n ip) v) j =
     (if ip = j then insert (Name n) (assigned_nodes a j) else assigned_nodes a j - {Name n})"
  "assigned_nodes (stored a (unannotate n) v) j = assigned_nodes a j - {Name n}"
  by (simp_all add: assigned_nodes_stored)

lemma card_diff_single:
  "finite A \<Longrightarrow> \<bar>int (card (A - {x})) - int (card A)\<bar> \<le> 1"
  "finite A \<Longrightarrow> \<bar>int (card (insert x A)) - int (card A)\<bar> \<le> 1"
  by (auto simp: card_insert_if card_Diff_singleton_if of_nat_diff card_gt_0_iff Suc_leI)

lemma crash_state_card:
  assumes "crash_state s a" and "lb_inv_off lost s"
  shows "\<bar>int (card (assigned_nodes a ip)) - int (card (assigned_nodes (api s) ip))\<bar> \<le> 1"
proof -
  have fin: "finite (assigned_nodes (api s) ip)" using assms(2) by (simp add: lb_inv_off_def)
  from crash_state_cases [OF assms] show ?thesis
    using card_diff_single [OF fin] by (auto simp: assigned_nodes_annotate)
qed

lemma restarted_exists:
  assumes "api_ok a"
  shows "\<exists>t. restarted ipList a t"
proof -
  have "finite (ran (nodes a))" using assms by (auto simp: api_ok_def intro: finite_ran)
  then obtain ns where ns: "distinct ns" "set ns = ran (nodes a)"
    using finite_distinct_list by metis
  obtain m where m: "resyncIPMap (Inr ns) ipList = Return m" by (simp add: resyncIPMap_def)
  have "lb_init ipList \<lparr>api = a, ipMap = m, cache = nodes a, seen = ran (nodes a),
      pend = Map.empty, answers = []\<rparr>"
    using assms ns m by (auto simp: lb_init_def api_ok_def)
  then show ?thesis unfolding restarted_def by (metis lb_sys.select_convs(1))
qed

lemma restarted_count:
  assumes "restarted ipList a t" and "ip \<in> set ipList"
  shows "map_of (ipMap t) ip = Some (int (card (assigned_nodes a ip)))"
  using lb_reachable_count [OF lb_reachable.start, of ipList t ip] assms by (simp add: restarted_def)

lemma restarted_keeps:
  assumes "restarted ipList a t" and "nodes a k = Some n" and "assigned_ip n = Some ip"
    and "ip \<in> set ipList"
  shows "AssignIPToNode (cache_lister t) upd ord k volumeID (ipMap t) a = (Return ip, ipMap t, a)"
proof -
  have "cache t k = Some n" using assms(1,2) by (auto simp: restarted_def lb_init_def)
  moreover have "ip_known (ipMap t) ip"
    using restarted_count [OF assms(1,4)] by (simp add: ip_known_def)
  ultimately show ?thesis
    using assms(3) by (simp add: AssignIPToNode_def cache_lister_def assign_locked_def)
qed

section \<open>A concrete crash\<close>

text \<open>The sample unpublish request dies after its update and before its decrement.\<close>

lemma demo_crash: "crash_state demo_removing (api demo_removed)"
proof (rule crash_state.removing [OF _ optimistic_cas_update demo_assigned])
  show "pend demo_removing 0 = Some (PRemove demo_node)" by (simp add: demo_removing_def)
  show "remove_locked cas_update demo_node ''a'' (ipMap demo_removing) (api demo_removing)
      = (Return (), [(''a'', 0)], api demo_removed)"
    by (simp add: demo_removed_def demo_remove_run)
qed

lemma lb_reachable_del: "lb_reachable ipList s \<Longrightarrow> del_reachable ipList (\<lambda>_. 0) s"
  by (induction rule: lb_reachable.induct) (auto intro: del_reachable.intros)

section \<open>Properties\<close>



end
