(* ===== verification/LBProgress.thy ===== *)
theory LBProgress
  imports LBRestart
begin

text \<open>
  Progress of the load balancer.  Requests under way can always finish, in any order, and their number
  bounds the steps this takes.  And what depends on the informer: when it stops, a request that keeps
  reading an outdated node object is refused for ever.
\<close>

section \<open>Steps\<close>

text \<open>The steps of \<open>lb_step\<close> that finish a request.\<close>

inductive finish_step :: "lb_sys \<Rightarrow> lb_sys \<Rightarrow> bool" where
  finish_assign: "pend s i = Some (PAssign n) \<Longrightarrow> optimistic upd \<Longrightarrow> range_ok ord \<Longrightarrow>
     assign_locked upd ord n (ipMap s) (api s) = (r, m', a') \<Longrightarrow>
     finish_step s (s\<lparr>pend := (pend s)(i := None), ipMap := m', api := a',
                  seen := seen s \<union> ran (nodes a'), answers := answers s @ [(i, r)]\<rparr>)"
| finish_remove: "pend s i = Some (PRemove n) \<Longrightarrow> optimistic upd \<Longrightarrow> assigned_ip n = Some ip \<Longrightarrow>
     remove_locked upd n ip (ipMap s) (api s) = (r, m', a') \<Longrightarrow>
     finish_step s (s\<lparr>pend := (pend s)(i := None), ipMap := m', api := a',
                  seen := seen s \<union> ran (nodes a')\<rparr>)"
| finish_skip: "pend s i = Some (PRemove n) \<Longrightarrow> assigned_ip n = None \<Longrightarrow>
     finish_step s (s\<lparr>pend := (pend s)(i := None)\<rparr>)"

text \<open>The steps of the system while the informer is stopped: the cache stays as it is.\<close>

definition frozen_step :: "lb_sys \<Rightarrow> lb_sys \<Rightarrow> bool" where
  "frozen_step s t \<longleftrightarrow> lb_step s t \<and> cache t = cache s"

section \<open>Lemmas: requests finish\<close>

lemma finish_step_lb_step: "finish_step s t \<Longrightarrow> lb_step s t"
  by (induction rule: finish_step.induct) (auto intro: lb_step.intros)

lemma finish_step_pend:
  "finish_step s t \<Longrightarrow> \<exists>i. pend s i \<noteq> None \<and> pend t = (pend s)(i := None)"
  by (induction rule: finish_step.induct) auto

lemma finish_step_card:
  assumes "finish_step s t" and "finite (dom (pend s))"
  shows "finite (dom (pend t)) \<and> Suc (card (dom (pend t))) = card (dom (pend s))"
proof -
  obtain i where "pend s i \<noteq> None" "pend t = (pend s)(i := None)"
    using finish_step_pend [OF assms(1)] by blast
  then show ?thesis using assms(2) card.remove [of "dom (pend s)" i] by (simp add: domIff)
qed

lemma finish_steps_card:
  assumes "(finish_step ^^ n) s t" and "finite (dom (pend s))"
  shows "n + card (dom (pend t)) = card (dom (pend s))"
  using assms
proof (induction n arbitrary: s)
  case (Suc n)
  obtain u where "finish_step s u" "(finish_step ^^ n) u t"
    using relpowp_Suc_D2 [OF Suc.prems(1)] by blast
  with Suc.IH [of u] finish_step_card [of s u] Suc.prems(2) show ?case by simp
qed simp

lemma finish_step_enabled:
  assumes "pend s i = Some p"
  shows "\<exists>t. finish_step s t"
proof (cases p)
  case (PAssign n)
  obtain r m' a' where "assign_locked cas_update in_order n (ipMap s) (api s) = (r, m', a')"
    by (metis prod_cases3)
  with assms PAssign show ?thesis
    by (meson finish_step.finish_assign optimistic_cas_update range_ok_in_order)
next
  case (PRemove n)
  show ?thesis
  proof (cases "assigned_ip n")
    case None
    with assms PRemove show ?thesis by (meson finish_step.finish_skip)
  next
    case (Some ip)
    obtain r m' a' where "remove_locked cas_update n ip (ipMap s) (api s) = (r, m', a')"
      by (metis prod_cases3)
    with assms PRemove Some show ?thesis
      by (meson finish_step.finish_remove optimistic_cas_update)
  qed
qed

lemma lb_step_finite: "lb_step s t \<Longrightarrow> finite (dom (pend s)) \<Longrightarrow> finite (dom (pend t))"
  by (induction rule: lb_step.induct) auto

lemma del_reachable_finite: "del_reachable ipList lost s \<Longrightarrow> finite (dom (pend s))"
  by (induction rule: del_reachable.induct) (auto simp: lb_init_def intro: lb_step_finite)

section \<open>Lemmas: outdated objects\<close>

text \<open>Resource versions only grow, so an object that has been replaced never becomes current again.\<close>

lemma outdated_stored:
  "nodes a (Name n) \<noteq> Some n \<Longrightarrow> ResourceVersion n \<le> revision a \<Longrightarrow> revision a < v \<Longrightarrow>
   nodes (stored a x v) (Name n) \<noteq> Some n \<and> ResourceVersion n \<le> revision (stored a x v)"
  by (auto simp: stored_def)

lemma outdated_stays:
  assumes "lb_step s t" and "lb_inv_off lost s" and "ResourceVersion n \<le> revision (api s)"
    and "nodes (api s) (Name n) \<noteq> Some n"
  shows "nodes (api t) (Name n) \<noteq> Some n \<and> ResourceVersion n \<le> revision (api t)"
  using assms(1)
proof cases
  case (run_assign i x upd ord r m' a')
  have "snapshot_ok (api s) x" using lb_inv_pend [OF assms(2) run_assign(2)] by simp
  from assign_locked_cases [OF run_assign(5,3,4) this] show ?thesis
    using outdated_stored [OF assms(4,3)] assms(3,4) by (auto simp: run_assign(1))
next
  case (run_remove i x upd ip r m' a')
  have "snapshot_ok (api s) x" using lb_inv_pend [OF assms(2) run_remove(2)] by simp
  from remove_locked_cases [OF run_remove(5,3) this] show ?thesis
    using outdated_stored [OF assms(4,3)] assms(3,4) by (auto simp: run_remove(1))
next
  case (external a')
  then show ?thesis
    using assms(3,4) by (fastforce simp: external_change_def split: option.splits dest: spec [of _ "Name n"])
qed (use assms(3,4) in auto)

lemma outdated_refused:
  assumes "nodes a (Name n) \<noteq> Some n" and "snapshot_ok a n" and "optimistic upd" and "range_ok ord"
    and "m \<noteq> []" and "\<And>ip. assigned_ip n = Some ip \<Longrightarrow> \<not> ip_known m ip"
  shows "\<exists>e. assign_locked upd ord n m a = (Fail e, m, a)"
proof -
  obtain r m' a' where run: "assign_locked upd ord n m a = (r, m', a')" by (metis prod_cases3)
  then have same: "m' = m" "a' = a"
    using assign_locked_cases [OF run assms(3,4,2)] assms(1) by auto
  have "\<not> is_return r"
  proof
    assume "is_return r"
    then obtain ip where "upd (annotate n ip) a = (None, a')"
      using run assms(6)
      by (auto simp: assign_locked_def assign_new_pick split: option.splits if_splits prod.splits)
    from accepted_is_current [OF assms(3) this assms(2)] assms(1) show False by auto
  qed
  moreover have "\<nexists>msg. r = Panics msg" using assign_locked_answer [OF run assms(4,5)] by auto
  ultimately show ?thesis using run same by (cases r) auto
qed

lemma frozen_run:
  assumes "frozen_step\<^sup>*\<^sup>* s t" and "del_reachable ipList lost s"
    and "ResourceVersion n \<le> revision (api s)" and "nodes (api s) (Name n) \<noteq> Some n"
  shows "del_reachable ipList lost t \<and> cache t = cache s \<and> nodes (api t) (Name n) \<noteq> Some n"
proof -
  have "del_reachable ipList lost t \<and> cache t = cache s \<and> nodes (api t) (Name n) \<noteq> Some n \<and>
      ResourceVersion n \<le> revision (api t)"
    using assms(1)
  proof (induction rule: rtranclp_induct)
    case (step t u)
    then have "lb_step t u" "cache u = cache s" by (auto simp: frozen_step_def)
    with step.IH outdated_stays [of t u lost n] del_reachable_inv [of ipList lost t] show ?case
      by (auto intro: del_reachable.step)
  qed (use assms in auto)
  then show ?thesis by simp
qed

section \<open>A concrete run\<close>

text \<open>A node without annotation is published; the cache still holds the object without it.\<close>

definition bare_node :: node where
  "bare_node = \<lparr>Name = ''n'', Annotations = None, ResourceVersion = 1\<rparr>"

definition bare_sys :: lb_sys where
  "bare_sys = \<lparr>api = \<lparr>revision = 1, nodes = [''n'' \<mapsto> bare_node]\<rparr>, ipMap = [(''a'', 0)],
     cache = [''n'' \<mapsto> bare_node], seen = {bare_node}, pend = Map.empty, answers = []\<rparr>"

definition bare_published :: lb_sys where
  "bare_published = bare_sys\<lparr>api := stored (api bare_sys) (annotate bare_node ''a'') 2,
     ipMap := [(''a'', 1)], answers := [(0, Return ''a'')],
     seen := seen bare_sys \<union> ran (nodes (stored (api bare_sys) (annotate bare_node ''a'') 2))\<rparr>"

lemma bare_init: "lb_init [''a''] bare_sys"
proof -
  have "resyncIPMap (Inr [bare_node]) [''a''] = Return (ipMap bare_sys)"
    by (simp add: bare_sys_def bare_node_def resyncIPMap_def resync_node_def initIPMap_def
        assigned_ip_def)
  then show ?thesis
    unfolding lb_init_def by (auto simp: bare_sys_def bare_node_def intro!: exI [of _ "[bare_node]"])
qed

lemma bare_published_reachable: "lb_reachable [''a''] bare_published"
proof -
  let ?s = "bare_sys\<lparr>pend := (pend bare_sys)(0 \<mapsto> PAssign bare_node)\<rparr>"
  let ?a = "stored (api bare_sys) (annotate bare_node ''a'') 2"
  let ?t = "?s\<lparr>pend := (pend ?s)(0 := None), ipMap := [(''a'', 1)], api := ?a,
      seen := seen ?s \<union> ran (nodes ?a), answers := answers ?s @ [(0, Return ''a'')]\<rparr>"
  have get: "lb_step bare_sys ?s"
    by (rule lb_step.get_assign [where k = "''n''"]) (simp_all add: bare_sys_def)
  have "assign_locked cas_update in_order bare_node (ipMap ?s) (api ?s) = (Return ''a'', [(''a'', 1)], ?a)"
    by (simp add: assign_locked_def assign_new_def sorted_ips_def bare_sys_def bare_node_def
        assigned_ip_def annotate_def cas_update_def ip_add_def ip_count_def numeral_2_eq_2)
  then have "lb_step ?s ?t"
    by (intro lb_step.run_assign [OF _ optimistic_cas_update range_ok_in_order]) simp_all
  moreover have "?t = bare_published" by (simp add: bare_published_def bare_sys_def)
  ultimately have "lb_step ?s bare_published" by (simp only:)
  from lb_reachable.step [OF lb_reachable.step [OF lb_reachable.start [OF bare_init] get] this]
  show ?thesis .
qed

section \<open>Properties\<close>



text \<open>C36. A stopped informer makes a node unpublishable: once the cached object of a node is outdated
  and carries no usable IP, then however the system runs on without the informer, every later publish
  request for that node reads the same object and is refused, and nothing is assigned or counted.\<close>

theorem frozen_informer_refuses:
  assumes "del_reachable ipList lost s" and "ipList \<noteq> []" and "cache s k = Some n"
    and "nodes (api s) (Name n) \<noteq> Some n" and "\<And>ip. assigned_ip n = Some ip \<Longrightarrow> ip \<notin> set ipList"
    and "frozen_step\<^sup>*\<^sup>* s t" and "optimistic upd" and "range_ok ord"
  shows "\<exists>e. AssignIPToNode (cache_lister t) upd ord k volumeID (ipMap t) (api t) =
    (Fail e, ipMap t, api t)"
proof -
  have ok: "snapshot_ok (api s) n"
    using del_reachable_inv [OF assms(1)] assms(3) by (auto simp: lb_inv_off_def)
  then have t: "del_reachable ipList lost t" "cache t = cache s" "nodes (api t) (Name n) \<noteq> Some n"
    using frozen_run [OF assms(6,1) _ assms(4)] by (auto simp: snapshot_ok_def)
  have inv: "lb_inv_off lost t" and known: "ip_known (ipMap t) ip \<longleftrightarrow> ip \<in> set ipList" for ip
    using del_reachable_inv [OF t(1)] by auto
  have "snapshot_ok (api t) n" using inv t(2) assms(3) by (auto simp: lb_inv_off_def)
  moreover have "ipMap t \<noteq> []" using known assms(2) by (force simp: ip_known_def)
  ultimately obtain e where "assign_locked upd ord n (ipMap t) (api t) = (Fail e, ipMap t, api t)"
    using outdated_refused [OF t(3) _ assms(7,8)] known assms(5) by blast
  then show ?thesis
    using t(2) assms(3) by (simp add: AssignIPToNode_def cache_lister_def)
qed

theorem frozen_informer_refuses_witness:
  "''n'' \<in> assigned_nodes (api bare_published) ''a'' \<and>
   (\<exists>e. AssignIPToNode (cache_lister bare_published) cas_update in_order ''n'' ''v'' (ipMap bare_published)
     (api bare_published) = (Fail e, ipMap bare_published, api bare_published))"
proof
  show "''n'' \<in> assigned_nodes (api bare_published) ''a''"
    by (simp add: bare_published_def bare_node_def assigned_nodes_stored)
  show "\<exists>e. AssignIPToNode (cache_lister bare_published) cas_update in_order ''n'' ''v''
      (ipMap bare_published) (api bare_published) = (Fail e, ipMap bare_published, api bare_published)"
  proof (rule frozen_informer_refuses [OF lb_reachable_del [OF bare_published_reachable]])
    show "cache bare_published ''n'' = Some bare_node" by (simp add: bare_published_def bare_sys_def)
    show "nodes (api bare_published) (Name bare_node) \<noteq> Some bare_node"
      by (simp add: bare_published_def stored_def bare_node_def annotate_def)
    show "ip \<notin> set [''a'']" if "assigned_ip bare_node = Some ip" for ip
      using that by (simp add: bare_node_def assigned_ip_def)
  qed simp_all
qed

end
