(* ===== verification/FakeLB.thy ===== *)
theory FakeLB
  imports LBBalance
begin

text \<open>
  The test fixtures of \<open>pkg/lbcontroller/fake.go\<close>, and the tables of \<open>lbcontroller_test.go\<close> run on
  the model: the definitions of \<open>LBController\<close> give the results that the repository's own tests
  expect of the code.
\<close>

section \<open>Fixtures\<close>

record TestNode =
  t_Name :: string
  t_AssignedIP :: string

definition NewNode :: "string \<Rightarrow> string \<Rightarrow> node" where
  "NewNode name assignedIP =
     \<lparr>Name = name,
      Annotations = (if assignedIP \<noteq> '''' then Some [(NodeAnnotation, assignedIP)] else None),
      ResourceVersion = 0\<rparr>"

definition NewNodePool :: "TestNode list \<Rightarrow> node list" where
  "NewNodePool fakeNodes =
     fold (\<lambda>fn nodePool. nodePool @ [NewNode (t_Name fn) (t_AssignedIP fn)]) fakeNodes []"

text \<open>The controller is its map and its lister; the lister finds what was last added to the informer's
  store under a name.\<close>

definition NewFakeLBController :: "ipmap \<Rightarrow> node list \<Rightarrow> ipmap \<times> lister" where
  "NewFakeLBController m nodes =
     (m, \<lambda>name. case map_of (fold (\<lambda>n store. AList.update (Name n) n store) nodes []) name of
            None \<Rightarrow> Inl ApiNotFound
          | Some n \<Rightarrow> Inr n)"

section \<open>The tables of the tests\<close>

definition assign_test :: "ipmap \<Rightarrow> TestNode list \<Rightarrow> string \<Rightarrow> string outcome \<times> ipmap" where
  "assign_test m fakeNodes nodeName =
     (case NewFakeLBController m (NewNodePool fakeNodes) of (m, get) \<Rightarrow>
        (case AssignIPToNode get (\<lambda>n a. (None, a)) in_order nodeName ''vol-1'' m () of
           (r, m', _) \<Rightarrow> (r, m')))"

definition remove_test :: "ipmap \<Rightarrow> TestNode list \<Rightarrow> string \<Rightarrow> unit outcome \<times> ipmap" where
  "remove_test m fakeNodes nodeName =
     (case NewFakeLBController m (NewNodePool fakeNodes) of (m, get) \<Rightarrow>
        (case RemoveIPFromNode get (\<lambda>n a. (None, a)) nodeName ''vol-1'' m () of
           (r, m', _) \<Rightarrow> (r, m')))"

definition three_ips :: "int \<Rightarrow> int \<Rightarrow> int \<Rightarrow> ipmap" where
  "three_ips a b c = [(''127.0.0.1'', a), (''127.0.0.2'', b), (''127.0.0.3'', c)]"

definition pool_with :: "string \<Rightarrow> TestNode list" where
  "pool_with ip =
     [\<lparr>t_Name = ''node-1'', t_AssignedIP = ip\<rparr>,
      \<lparr>t_Name = ''node-2'', t_AssignedIP = ''127.0.0.1''\<rparr>,
      \<lparr>t_Name = ''node-3'', t_AssignedIP = ''127.0.0.3''\<rparr>]"

lemma NewNodePool_eq: "NewNodePool ns = map (\<lambda>fn. NewNode (t_Name fn) (t_AssignedIP fn)) ns"
proof -
  have "fold (\<lambda>fn nodePool. nodePool @ [NewNode (t_Name fn) (t_AssignedIP fn)]) ns acc
      = acc @ map (\<lambda>fn. NewNode (t_Name fn) (t_AssignedIP fn)) ns" for acc
    by (induction ns arbitrary: acc) simp_all
  then show ?thesis by (simp add: NewNodePool_def)
qed

lemma assigned_NewNode [simp]: "assigned_ip (NewNode name ip) = (if ip = '''' then None else Some ip)"
  by (simp add: NewNode_def assigned_ip_def)

lemma TestAssignIPToNode:
  "assign_test (three_ips 1 1 1) (pool_with ''127.0.0.2'') ''node-1'' = (Return ''127.0.0.2'', three_ips 1 1 1)"
  "assign_test (three_ips 1 0 1) (pool_with ''192.168.1.1'') ''node-1'' = (Return ''127.0.0.2'', three_ips 1 1 1)"
  "assign_test (three_ips 1 0 1) (pool_with '''') ''node-1'' = (Return ''127.0.0.2'', three_ips 1 1 1)"
  by code_simp+

lemma TestRemoveIPFromNode:
  "remove_test [(''127.0.0.1'', 1)] [] ''node-1'' = (Return (), [(''127.0.0.1'', 1)])"
  "remove_test (three_ips 1 0 1) (pool_with '''') ''node-1'' = (Return (), three_ips 1 0 1)"
  "remove_test (three_ips 1 0 1) (pool_with ''192.168.1.1'') ''node-1'' = (Return (), three_ips 1 0 1)"
  "remove_test (three_ips 1 1 1) (pool_with ''127.0.0.2'') ''node-1'' = (Return (), three_ips 1 0 1)"
  by code_simp+

text \<open>The cases of \<open>TestResyncIPMap\<close> are instances of one equation: on a pool of test nodes the
  rebuilt map counts the test nodes by their IP.\<close>

lemma TestResyncIPMap:
  assumes "resyncIPMap (Inr (NewNodePool ns)) ipList = Return m" and "ip \<in> set ipList" and "ip \<noteq> ''''"
  shows "map_of m ip = Some (int (length (filter (\<lambda>fn. t_AssignedIP fn = ip) ns)))"
proof -
  have ip: "(assigned_ip (NewNode (t_Name fn) (t_AssignedIP fn)) = Some ip) = (t_AssignedIP fn = ip)" for fn
    using assms(3) by auto
  show ?thesis
    using assms(1,2)
    by (auto simp: resyncIPMap_def map_of_resync NewNodePool_eq filter_map comp_def ip
        simp del: assigned_NewNode)
qed

end
