(* ===== verification/GoStrings.thy ===== *)
theory GoStrings
  imports Prelude "HOL-Library.Sublist"
begin

text \<open>
  The functions of Go's \<open>strings\<close>, \<open>strconv\<close> and \<open>path/filepath\<close> packages the driver uses.  A Go
  string is a sequence of bytes, here a \<open>char list\<close>.  The case mappings are those of ASCII; letters
  outside ASCII are left as they are.  Separators and cut sets are single characters, as in every
  call of the driver.
\<close>

section \<open>Package strings\<close>

definition upper_letter :: "char \<Rightarrow> bool" where
  "upper_letter c \<longleftrightarrow> 65 \<le> (of_char c :: int) \<and> (of_char c :: int) \<le> 90"

definition lower_char :: "char \<Rightarrow> char" where
  "lower_char c = (if upper_letter c then char_of ((of_char c :: int) + 32) else c)"

definition ToLower :: "string \<Rightarrow> string" where
  "ToLower s = map lower_char s"

definition EqualFold :: "string \<Rightarrow> string \<Rightarrow> bool" where
  "EqualFold s t \<longleftrightarrow> ToLower s = ToLower t"

definition HasPrefix :: "string \<Rightarrow> string \<Rightarrow> bool" where
  "HasPrefix s p \<longleftrightarrow> prefix p s"

fun Contains :: "string \<Rightarrow> string \<Rightarrow> bool" where
  "Contains [] sub = (sub = [])"
| "Contains (c # s) sub = (prefix sub (c # s) \<or> Contains s sub)"

definition TrimRight :: "string \<Rightarrow> char \<Rightarrow> string" where
  "TrimRight s c = rev (dropWhile (\<lambda>x. x = c) (rev s))"

definition TrimLeft :: "string \<Rightarrow> char \<Rightarrow> string" where
  "TrimLeft s c = dropWhile (\<lambda>x. x = c) s"

definition Trim :: "string \<Rightarrow> char \<Rightarrow> string" where
  "Trim s c = TrimRight (TrimLeft s c) c"

definition space_char :: "char \<Rightarrow> bool" where
  "space_char c \<longleftrightarrow> c \<in> {CHR 0x09, CHR 0x0A, CHR 0x0B, CHR 0x0C, CHR 0x0D, CHR 0x20}"

definition TrimSpace :: "string \<Rightarrow> string" where
  "TrimSpace s = rev (dropWhile space_char (rev (dropWhile space_char s)))"

fun Split :: "string \<Rightarrow> char \<Rightarrow> string list" where
  "Split [] sep = [[]]"
| "Split (c # s) sep =
     (if c = sep then [] # Split s sep
      else (case Split s sep of [] \<Rightarrow> [[c]] | w # ws \<Rightarrow> (c # w) # ws))"

fun Join :: "string list \<Rightarrow> string \<Rightarrow> string" where
  "Join [] sep = []"
| "Join [w] sep = w"
| "Join (w # v # ws) sep = w @ sep @ Join (v # ws) sep"

definition TrimSuffix :: "string \<Rightarrow> string \<Rightarrow> string" where
  "TrimSuffix s t = (if suffix t s then take (length s - length t) s else s)"

text \<open>\<open>strings.Fields\<close>: the maximal runs of characters that are not white space.\<close>

definition Fields :: "string \<Rightarrow> string list" where
  "Fields s = filter (\<lambda>f. f \<noteq> '''') (Split (map (\<lambda>c. if space_char c then CHR '' '' else c) s) (CHR '' ''))"

text \<open>A word that \<open>Fields\<close> keeps as it is.\<close>

definition field_ok :: "string \<Rightarrow> bool" where
  "field_ok s \<longleftrightarrow> s \<noteq> '''' \<and> \<not> list_ex space_char s"

text \<open>\<open>SplitN(s, sep, 2)\<close> for a non-empty separator: at the first occurrence, if there is one.\<close>

fun SplitN2 :: "string \<Rightarrow> string \<Rightarrow> string list" where
  "SplitN2 [] sep = [[]]"
| "SplitN2 (c # s) sep =
     (if prefix sep (c # s) then [[], drop (length sep) (c # s)]
      else (case SplitN2 s sep of [] \<Rightarrow> [[c]] | w # ws \<Rightarrow> (c # w) # ws))"

text \<open>\<open>ReplaceAll(s, old, new)\<close>: non-overlapping occurrences from left to right; an empty \<open>old\<close>
  matches before each character and at the end.\<close>

function ReplaceAll :: "string \<Rightarrow> string \<Rightarrow> string \<Rightarrow> string" where
  "ReplaceAll s old new =
     (if old = [] then concat (map (\<lambda>c. new @ [c]) s) @ new
      else case s of
        [] \<Rightarrow> []
      | c # t \<Rightarrow>
          if prefix old s then new @ ReplaceAll (drop (length old) s) old new
          else c # ReplaceAll t old new)"
  by pat_completeness auto
termination
  by (relation "measure (\<lambda>(s, old, new). length s)") auto

declare ReplaceAll.simps [simp del]

section \<open>Package strconv\<close>

definition digit_value :: "char \<Rightarrow> int option" where
  "digit_value c =
     (let n = of_char c; l = of_char (lower_char c) in
      if 48 \<le> n \<and> n \<le> 57 then Some (n - 48)
      else if 97 \<le> l \<and> l \<le> 122 then Some (l - 97 + 10)
      else None)"

fun parse_digits :: "int \<Rightarrow> int \<Rightarrow> string \<Rightarrow> int \<Rightarrow> int option" where
  "parse_digits base maxVal [] n = Some n"
| "parse_digits base maxVal (c # s) n =
     (case digit_value c of
        None \<Rightarrow> None
      | Some d \<Rightarrow>
          if base \<le> d then None
          else if maxVal < n * base + d then None
          else parse_digits base maxVal s (n * base + d))"

text \<open>\<open>ParseUint(s, base, bitSize)\<close> for an explicit base, \<open>None\<close> for a syntax or range error.
  Bit size 0 is that of \<open>int\<close>, 64.\<close>

definition bit_size :: "nat \<Rightarrow> nat" where
  "bit_size b = (if b = 0 then 64 else b)"

definition ParseUint :: "string \<Rightarrow> int \<Rightarrow> nat \<Rightarrow> int option" where
  "ParseUint s base bitSize =
     (if s = [] then None else parse_digits base (2 ^ bit_size bitSize - 1) s 0)"

definition ParseInt :: "string \<Rightarrow> int \<Rightarrow> nat \<Rightarrow> int option" where
  "ParseInt s base bitSize =
     (case s of
        [] \<Rightarrow> None
      | c # t \<Rightarrow>
          let neg = (c = CHR ''-''); u = (if c = CHR ''+'' \<or> neg then t else s);
              cutoff = 2 ^ (bit_size bitSize - 1)
          in (case ParseUint u base bitSize of
                None \<Rightarrow> None
              | Some un \<Rightarrow>
                  if \<not> neg \<and> cutoff \<le> un then None
                  else if neg \<and> cutoff < un then None
                  else Some (if neg then - un else un)))"

text \<open>The decimal form \<open>%d\<close> prints.\<close>

definition digit_char :: "int \<Rightarrow> char" where
  "digit_char d = char_of (48 + d)"

function show_digits :: "int \<Rightarrow> string" where
  "show_digits n =
     (if n < 10 then [digit_char n] else show_digits (n div 10) @ [digit_char (n mod 10)])"
  by pat_completeness auto
termination
  by (relation "measure nat") auto

declare show_digits.simps [simp del]

definition show_int :: "int \<Rightarrow> string" where
  "show_int i = (if i < 0 then CHR ''-'' # show_digits (- i) else show_digits i)"

section \<open>Package filepath\<close>

text \<open>\<open>Clean\<close> scans the path elements and keeps a stack of those output so far, innermost first.\<close>

fun clean_elems :: "bool \<Rightarrow> string list \<Rightarrow> string list \<Rightarrow> string list" where
  "clean_elems rooted out [] = rev out"
| "clean_elems rooted out (e # es) =
     (if e = [] \<or> e = ''.'' then clean_elems rooted out es
      else if e = ''..'' then
        (case out of
           [] \<Rightarrow> if rooted then clean_elems rooted [] es else clean_elems rooted [''..''] es
         | prev # below \<Rightarrow>
             if prev = ''..'' then clean_elems rooted (''..'' # out) es
             else clean_elems rooted below es)
      else clean_elems rooted (e # out) es)"

definition is_rooted :: "string \<Rightarrow> bool" where
  "is_rooted p \<longleftrightarrow> prefix ''/'' p"

definition Clean :: "string \<Rightarrow> string" where
  "Clean p =
     (if p = [] then ''.''
      else let body = Join (clean_elems (is_rooted p) [] (Split p (CHR ''/''))) ''/''
           in if is_rooted p then CHR ''/'' # body
              else if body = [] then ''.'' else body)"

text \<open>The elements of a path after cleaning.\<close>

definition path_elems :: "string \<Rightarrow> string list" where
  "path_elems p = clean_elems (is_rooted p) [] (Split p (CHR ''/''))"

text \<open>\<open>filepath.Join\<close>: empty arguments at the front are dropped, the rest is joined and cleaned.\<close>

definition FJoin :: "string list \<Rightarrow> string" where
  "FJoin elem =
     (case dropWhile (\<lambda>e. e = []) elem of
        [] \<Rightarrow> []
      | es \<Rightarrow> Clean (Join es ''/''))"

definition Dir :: "string \<Rightarrow> string" where
  "Dir p = Clean (rev (dropWhile (\<lambda>c. c \<noteq> CHR ''/'') (rev p)))"

section \<open>Lemmas: case mapping\<close>

lemma ToLower_Nil [simp]:
  "ToLower [] = []" "ToLower s = [] \<longleftrightarrow> s = []" "[] = ToLower s \<longleftrightarrow> s = []"
  by (simp_all add: ToLower_def)

lemma lower_char_idem [simp]: "lower_char (lower_char c) = lower_char c"
  by (auto simp: lower_char_def upper_letter_def)

lemma ToLower_idem [simp]: "ToLower (ToLower s) = ToLower s"
  by (simp add: ToLower_def)

lemma EqualFold_refl [simp]: "EqualFold s s"
  by (simp add: EqualFold_def)

lemma EqualFold_sym: "EqualFold s t \<longleftrightarrow> EqualFold t s"
  by (auto simp: EqualFold_def)

lemma EqualFold_trans: "EqualFold s t \<Longrightarrow> EqualFold t u \<Longrightarrow> EqualFold s u"
  by (simp add: EqualFold_def)

section \<open>Lemmas: splitting and joining\<close>

lemma Split_nonempty [simp]: "Split s c \<noteq> []"
  by (induction s) (auto split: list.splits)

lemma Split_no_sep: "c \<notin> set s \<Longrightarrow> Split s c = [s]"
  by (induction s) auto

lemma Split_append_sep: "Split (s @ c # t) c = Split s c @ Split t c"
  by (induction s) (auto split: list.splits)

lemma Split_append:
  "c \<notin> set xs \<Longrightarrow> Split (xs @ s) c = (xs @ hd (Split s c)) # tl (Split s c)"
  by (induction xs) auto

lemma Split_parts: "\<forall>w\<in>set (Split s c). c \<notin> set w"
  by (induction s) (auto split: list.splits)

lemma Split_Join:
  "ws \<noteq> [] \<Longrightarrow> \<forall>w\<in>set ws. c \<notin> set w \<Longrightarrow> Split (Join ws [c]) c = ws"
  by (induction ws "[c]" rule: Join.induct) (auto simp: Split_no_sep Split_append_sep)

lemma Join_Cons: "ws \<noteq> [] \<Longrightarrow> Join (w # ws) sep = w @ sep @ Join ws sep"
  by (cases ws) auto

lemma Join_Split: "Join (Split s c) [c] = s"
proof (induction s)
  case (Cons x s)
  show ?case
  proof (cases "x = c")
    case True
    then show ?thesis using Cons by (simp add: Join_Cons)
  next
    case False
    obtain w ws where "Split s c = w # ws" by (meson Split_nonempty list.exhaust)
    then show ?thesis using False Cons by (cases ws) auto
  qed
qed simp

lemma Join_eq_Nil: "Join ws sep = [] \<Longrightarrow> ws = [] \<or> ws = [[]] \<or> sep = []"
  by (induction ws sep rule: Join.induct) auto

lemma set_Join: "set (Join ws sep) \<subseteq> \<Union> (set ` set ws) \<union> set sep"
  by (induction ws sep rule: Join.induct) auto

section \<open>Lemmas: trimming\<close>

lemma set_Trim: "set (Trim s c) \<subseteq> set s"
  by (auto simp: Trim_def TrimRight_def TrimLeft_def dest!: set_dropWhileD)

lemma TrimRight_no_suffix: "s = [] \<or> last s \<noteq> c \<Longrightarrow> TrimRight s c = s"
  by (cases s rule: rev_cases) (auto simp: TrimRight_def)

lemma Trim_id: "s = [] \<or> hd s \<noteq> c \<and> last s \<noteq> c \<Longrightarrow> Trim s c = s"
  by (cases s) (auto simp: Trim_def TrimLeft_def TrimRight_no_suffix)

lemma last_TrimRight: "TrimRight s c \<noteq> [] \<Longrightarrow> last (TrimRight s c) \<noteq> c"
  by (induction s rule: rev_induct) (auto simp: TrimRight_def)

lemma hd_TrimRight: "TrimRight s c \<noteq> [] \<Longrightarrow> hd (TrimRight s c) = hd s"
  by (induction s rule: rev_induct) (auto simp: TrimRight_def hd_append split: if_splits)

lemma Trim_ends:
  assumes "Trim s c \<noteq> []"
  shows "hd (Trim s c) \<noteq> c" and "last (Trim s c) \<noteq> c"
proof -
  show "last (Trim s c) \<noteq> c" using assms unfolding Trim_def by (rule last_TrimRight)
  have "TrimLeft s c \<noteq> []" using assms by (auto simp: Trim_def TrimRight_def)
  then have "hd (TrimLeft s c) \<noteq> c" 
    using hd_dropWhile [of "\<lambda>x. x = c" s] by (simp add: TrimLeft_def)
  then show "hd (Trim s c) \<noteq> c" using assms by (simp add: Trim_def hd_TrimRight)
qed

lemma Trim_idem [simp]: "Trim (Trim s c) c = Trim s c"
  using Trim_ends by (cases "Trim s c = []") (auto intro: Trim_id)

section \<open>Lemmas: numbers\<close>

lemma parse_digits_bounds:
  assumes "parse_digits base maxVal s n = Some v" and "0 < base" and "0 \<le> n" and "n \<le> maxVal"
  shows "0 \<le> v \<and> v \<le> maxVal"
  using assms
proof (induction s arbitrary: n)
  case Nil
  then show ?case by simp
next
  case (Cons c s)
  then obtain d where d: "digit_value c = Some d" "d < base" "n * base + d \<le> maxVal"
    "parse_digits base maxVal s (n * base + d) = Some v"
    by (auto split: option.splits if_splits)
  have "0 \<le> d" using d(1) by (auto simp: digit_value_def Let_def split: if_splits)
  then show ?case using Cons.IH [OF d(4)] Cons.prems d(3) by simp
qed

lemma ParseUint_bounds:
  assumes "ParseUint s base bits = Some v" and "0 < base"
  shows "0 \<le> v \<and> v < 2 ^ bit_size bits"
  using assms parse_digits_bounds [of base "2 ^ bit_size bits - 1" s 0 v]
  by (auto simp: ParseUint_def split: if_splits)

lemma ParseInt_bounds:
  assumes "ParseInt s base bits = Some v" and "0 < base"
  shows "- (2 ^ (bit_size bits - 1)) \<le> v \<and> v < 2 ^ (bit_size bits - 1)"
proof -
  obtain u neg un where u: "ParseUint u base bits = Some un"
    and v: "\<not> neg \<and> un < 2 ^ (bit_size bits - 1) \<and> v = un \<or>
      neg \<and> un \<le> 2 ^ (bit_size bits - 1) \<and> v = - un"
    using assms(1) by (auto simp: ParseInt_def Let_def not_le not_less
        split: list.splits option.splits if_splits)
  have "0 \<le> un" using ParseUint_bounds [OF u assms(2)] by simp
  moreover have "0 < (2::int) ^ (bit_size bits - 1)" by simp
  ultimately show ?thesis using v by linarith
qed

section \<open>Lemmas: paths\<close>

definition plain_elem :: "string \<Rightarrow> bool" where
  "plain_elem e \<longleftrightarrow> e \<noteq> [] \<and> e \<noteq> ''.'' \<and> e \<noteq> ''..''"

text \<open>The shape of a cleaned path: ordinary elements, after leading \<open>..\<close> if not rooted.\<close>

definition is_clean :: "bool \<Rightarrow> string list \<Rightarrow> bool" where
  "is_clean rooted es \<longleftrightarrow>
     (\<exists>n ns. es = replicate n ''..'' @ ns \<and> (rooted \<longrightarrow> n = 0) \<and> (\<forall>e\<in>set ns. plain_elem e))"

lemma clean_elems_append:
  "clean_elems r out (es @ fs) = clean_elems r (rev (clean_elems r out es)) fs"
  by (induction r out es rule: clean_elems.induct) (auto split: list.splits)

lemma clean_elems_no_dotdot:
  "''..'' \<notin> set es \<Longrightarrow> clean_elems r out es = rev out @ filter plain_elem es"
  by (induction es arbitrary: out) (auto simp: plain_elem_def)

lemma clean_elems_nonempty_only:
  "clean_elems r out (filter (\<lambda>e. e \<noteq> []) es) = clean_elems r out es"
  by (induction r out es rule: clean_elems.induct) (auto split: list.splits)

lemma is_clean_snoc: "is_clean r es \<Longrightarrow> plain_elem e \<Longrightarrow> is_clean r (es @ [e])"
  unfolding is_clean_def
proof (elim exE conjE)
  fix n ns
  assume "es = replicate n ''..'' @ ns" "r \<longrightarrow> n = 0" "\<forall>e\<in>set ns. plain_elem e" "plain_elem e"
  then show "\<exists>n ns. es @ [e] = replicate n ''..'' @ ns \<and> (r \<longrightarrow> n = 0) \<and> (\<forall>e\<in>set ns. plain_elem e)"
    by (intro exI [of _ n] exI [of _ "ns @ [e]"]) auto
qed

lemma is_clean_dotdot_last:
  assumes "is_clean r (es @ [''..''])"
  shows "is_clean r (es @ [''..'', ''..''])"
proof -
  obtain n ns where n: "es @ [''..''] = replicate n ''..'' @ ns" "r \<longrightarrow> n = 0" "\<forall>e\<in>set ns. plain_elem e"
    using assms by (auto simp: is_clean_def)
  have "ns = []"
  proof (rule ccontr)
    assume "ns \<noteq> []"
    then have "last ns = ''..''" using n(1) by (metis last_appendR last_snoc)
    then show False using n(3) \<open>ns \<noteq> []\<close> last_in_set by (fastforce simp: plain_elem_def)
  qed
  then have es: "es @ [''..''] = replicate n ''..''" and "\<not> r" using n by (auto simp: Cons_eq_append_conv)
  have "es @ [''..'', ''..''] = replicate (Suc n) ''..''"
    using es by (metis append.assoc append_Cons append_Nil replicate_Suc replicate_append_same)
  then show ?thesis using \<open>\<not> r\<close> unfolding is_clean_def by (metis append_Nil2 empty_iff list.set(1))
qed

lemma is_clean_pop:
  assumes "is_clean r (es @ [e])" and "e \<noteq> ''..''"
  shows "is_clean r es"
proof -
  obtain n ns where n: "es @ [e] = replicate n ''..'' @ ns" "r \<longrightarrow> n = 0" "\<forall>e\<in>set ns. plain_elem e"
    using assms by (auto simp: is_clean_def)
  have "ns \<noteq> []" using n(1) assms(2)
    by (metis append_Nil2 in_set_conv_decomp in_set_replicate)
  then have "es = replicate n ''..'' @ butlast ns" using n(1) by (metis butlast_append butlast_snoc)
  then show ?thesis using n(2,3) unfolding is_clean_def by (metis in_set_butlastD)
qed

lemma is_clean_clean_elems: "is_clean r (rev out) \<Longrightarrow> is_clean r (clean_elems r out es)"
proof (induction r out es rule: clean_elems.induct)
  case (1 r out)
  then show ?case by simp
next
  case (2 r out e es)
  consider "e = [] \<or> e = ''.''" | "e = ''..''" | "plain_elem e" by (auto simp: plain_elem_def)
  then show ?case
  proof cases
    case 2
    have single: "is_clean False [''..'']"
      unfolding is_clean_def by (rule exI [of _ 1]) simp
    show ?thesis
    proof (cases out)
      case Nil
      then show ?thesis using 2 "2.IH" "2.prems" single by (cases r) auto
    next
      case (Cons prev below)
      then show ?thesis
        using 2 "2.IH" "2.prems" is_clean_dotdot_last [of r "rev below"] is_clean_pop [of r "rev below" prev]
        by (cases "prev = ''..''") auto
    qed
  qed (use "2.IH" "2.prems" is_clean_snoc in \<open>auto simp: plain_elem_def\<close>)
qed

lemma clean_elems_id:
  assumes "is_clean r es"
  shows "clean_elems r [] es = es"
proof -
  obtain n ns where n: "es = replicate n ''..'' @ ns" "r \<longrightarrow> n = 0" "\<forall>e\<in>set ns. plain_elem e"
    using assms by (auto simp: is_clean_def)
  have dots: "clean_elems False (replicate m ''..'') (replicate k ''..'') = replicate (m + k) ''..''"
    for m k
  proof (induction k arbitrary: m)
    case (Suc k)
    have "clean_elems False (replicate m ''..'') (replicate (Suc k) ''..'')
        = clean_elems False (replicate (Suc m) ''..'') (replicate k ''..'')"
      by (cases m) auto
    then show ?case using Suc.IH [of "Suc m"] by simp
  qed simp
  have first: "clean_elems r [] (replicate n ''..'') = replicate n ''..''"
    using n(2) dots [of 0 n] by (cases r) auto
  have "clean_elems r [] es = clean_elems r (rev (replicate n ''..'')) ns"
    unfolding n(1) clean_elems_append first by simp
  also have "\<dots> = replicate n ''..'' @ ns"
  proof -
    have "''..'' \<notin> set ns" "filter plain_elem ns = ns" using n(3) by (auto simp: plain_elem_def)
    then show ?thesis by (simp add: clean_elems_no_dotdot)
  qed
  finally show ?thesis using n(1) by simp
qed

lemma set_clean_elems: "set (clean_elems r out es) \<subseteq> set out \<union> set es"
  by (induction r out es rule: clean_elems.induct) (auto split: list.splits if_splits)

lemma path_elems_is_clean: "is_clean (is_rooted p) (path_elems p)"
  unfolding path_elems_def by (rule is_clean_clean_elems) (simp add: is_clean_def)

lemma path_elems_no_slash: "\<forall>e\<in>set (path_elems p). CHR ''/'' \<notin> set e"
  unfolding path_elems_def using set_clean_elems Split_parts by fastforce

lemma path_elems_nonempty: "[] \<notin> set (path_elems p)"
proof -
  obtain n ns where "path_elems p = replicate n ''..'' @ ns" "\<forall>e\<in>set ns. plain_elem e"
    using path_elems_is_clean [of p] by (auto simp: is_clean_def)
  then show ?thesis by (auto simp: plain_elem_def)
qed

lemma Clean_eq:
  "p \<noteq> [] \<Longrightarrow> Clean p =
     (if is_rooted p then CHR ''/'' # Join (path_elems p) ''/''
      else if path_elems p = [] then ''.'' else Join (path_elems p) ''/'')"
  using Join_eq_Nil [of "path_elems p" "''/''"] path_elems_nonempty [of p]
  by (auto simp: Clean_def Let_def simp flip: path_elems_def)

lemma is_rooted_Cons [simp]: "is_rooted (c # s) \<longleftrightarrow> c = CHR ''/''" "\<not> is_rooted []"
  by (auto simp: is_rooted_def)

lemma is_rooted_append: "a \<noteq> [] \<Longrightarrow> is_rooted (a @ b) \<longleftrightarrow> is_rooted a"
  by (cases a) auto

lemma Join_not_rooted:
  assumes "es \<noteq> []" and "\<forall>e\<in>set es. e \<noteq> [] \<and> CHR ''/'' \<notin> set e"
  shows "\<not> is_rooted (Join es ''/'')"
proof -
  obtain e fs where es: "es = e # fs" "e \<noteq> []" "CHR ''/'' \<notin> set e"
    using assms by (cases es) auto
  have "\<not> is_rooted e" using es by (cases e) auto
  then show ?thesis using es by (cases fs) (auto simp: is_rooted_append)
qed

text \<open>Cleaning twice is cleaning once.\<close>

lemma path_elems_Clean:
  assumes "p \<noteq> []"
  shows "path_elems (Clean p) = path_elems p" and "is_rooted (Clean p) = is_rooted p"
proof -
  let ?es = "path_elems p"
  have clean: "clean_elems (is_rooted p) [] ?es = ?es"
    by (rule clean_elems_id [OF path_elems_is_clean])
  have split: "?es \<noteq> [] \<Longrightarrow> Split (Join ?es ''/'') (CHR ''/'') = ?es"
    using Split_Join path_elems_no_slash by blast
  have nr: "?es \<noteq> [] \<Longrightarrow> \<not> is_rooted (Join ?es ''/'')"
    using Join_not_rooted path_elems_no_slash path_elems_nonempty by metis
  show rooted: "is_rooted (Clean p) = is_rooted p"
    using nr by (simp add: Clean_eq [OF assms])
  have "clean_elems (is_rooted p) [] (Split (Clean p) (CHR ''/'')) = ?es"
  proof (cases "?es = []")
    case True
    then show ?thesis by (simp add: Clean_eq [OF assms])
  next
    case False
    then show ?thesis using split clean by (cases "is_rooted p") (simp_all add: Clean_eq [OF assms])
  qed
  then show "path_elems (Clean p) = ?es" using rooted by (simp add: path_elems_def [of "Clean p"])
qed

lemma Clean_nonempty: "Clean p \<noteq> []"
proof (cases "p = []")
  case False
  show ?thesis using Join_eq_Nil [of "path_elems p" "''/''"] path_elems_nonempty [of p]
    by (auto simp: Clean_eq [OF False])
qed (simp add: Clean_def)

subsection \<open>Joining a directory and a relative path\<close>

lemma FJoin_2: "a \<noteq> [] \<Longrightarrow> FJoin [a, b] = Clean (a @ CHR ''/'' # b)"
  by (simp add: FJoin_def)

lemma FJoin_2_nonempty: "a \<noteq> [] \<Longrightarrow> FJoin [a, b] \<noteq> []"
  by (simp add: FJoin_2 Clean_nonempty)

lemma path_elems_join:
  assumes "a \<noteq> []"
  shows "path_elems (FJoin [a, b]) =
    clean_elems (is_rooted a) (rev (path_elems a)) (Split b (CHR ''/''))"
proof -
  have "path_elems (FJoin [a, b]) = path_elems (a @ CHR ''/'' # b)"
    by (simp add: FJoin_2 [OF assms] path_elems_Clean)
  also have "\<dots> = clean_elems (is_rooted a) (rev (path_elems a)) (Split b (CHR ''/''))"
    by (simp add: path_elems_def is_rooted_append [OF assms] Split_append_sep clean_elems_append)
  finally show ?thesis .
qed

lemma is_rooted_join: "a \<noteq> [] \<Longrightarrow> is_rooted (FJoin [a, b]) = is_rooted a"
  by (simp add: FJoin_2 path_elems_Clean(2) is_rooted_append)

text \<open>A relative path without \<open>..\<close> stays below the directory it is joined to.\<close>

lemma path_elems_join_contained:
  assumes "a \<noteq> []" and "''..'' \<notin> set (Split b (CHR ''/''))"
  shows "path_elems (FJoin [a, b]) = path_elems a @ filter plain_elem (Split b (CHR ''/''))"
  by (simp add: path_elems_join [OF assms(1)] clean_elems_no_dotdot [OF assms(2)])

text \<open>Slashes at the ends of the relative path do not matter.\<close>

lemma nonempty_Split_TrimLeft:
  "filter (\<lambda>e. e \<noteq> []) (Split (TrimLeft s c) c) = filter (\<lambda>e. e \<noteq> []) (Split s c)"
  by (induction s) (auto simp: TrimLeft_def)

lemma nonempty_Split_TrimRight:
  "filter (\<lambda>e. e \<noteq> []) (Split (TrimRight s c) c) = filter (\<lambda>e. e \<noteq> []) (Split s c)"
proof (induction s rule: rev_induct)
  case (snoc x s)
  show ?case
  proof (cases "x = c")
    case True
    then show ?thesis using snoc Split_append_sep [of s c "[]"] by (simp add: TrimRight_def)
  qed (simp add: TrimRight_def)
qed (simp add: TrimRight_def)

lemma FJoin_Trim: "a \<noteq> [] \<Longrightarrow> FJoin [a, Trim b (CHR ''/'')] = FJoin [a, b]"
proof -
  assume a: "a \<noteq> []"
  have "filter (\<lambda>e. e \<noteq> []) (Split (Trim b (CHR ''/'')) (CHR ''/''))
      = filter (\<lambda>e. e \<noteq> []) (Split b (CHR ''/''))"
    by (simp add: Trim_def nonempty_Split_TrimLeft nonempty_Split_TrimRight)
  then have "path_elems (FJoin [a, Trim b (CHR ''/'')]) = path_elems (FJoin [a, b])"
    unfolding path_elems_join [OF a] by (metis clean_elems_nonempty_only)
  then have "path_elems (a @ CHR ''/'' # Trim b (CHR ''/'')) = path_elems (a @ CHR ''/'' # b)"
    by (simp add: FJoin_2 [OF a] path_elems_Clean(1))
  then show ?thesis by (simp add: FJoin_2 [OF a] Clean_eq is_rooted_append [OF a])
qed

section \<open>Lemmas: decimal numbers and fields\<close>

lemma digit_char_facts:
  assumes "0 \<le> d" and "d < 10"
  shows "digit_value (digit_char d) = Some d" and "\<not> space_char (digit_char d)"
    and "digit_char d \<notin> {CHR ''+'', CHR ''-''}"
proof -
  have "list_all (\<lambda>d. digit_value (digit_char d) = Some d \<and> \<not> space_char (digit_char d) \<and>
      digit_char d \<notin> {CHR ''+'', CHR ''-''}) [0..9]" by code_simp
  then show "digit_value (digit_char d) = Some d" "\<not> space_char (digit_char d)"
    "digit_char d \<notin> {CHR ''+'', CHR ''-''}"
    using assms by (auto simp: list_all_iff simp del: insert_iff)
qed

lemma parse_digits_snoc:
  "parse_digits b M (s @ [c]) n = Option.bind (parse_digits b M s n) (parse_digits b M [c])"
  by (induction b M s n rule: parse_digits.induct) (auto split: option.splits)

lemma parse_show_digits:
  "0 \<le> n \<Longrightarrow> n \<le> M \<Longrightarrow> parse_digits 10 M (show_digits n) 0 = Some n"
proof (induction n rule: show_digits.induct)
  case (1 n)
  show ?case
  proof (cases "n < 10")
    case True
    then show ?thesis using 1 digit_char_facts(1) [of n] by (simp add: show_digits.simps [of n])
  next
    case False
    then have "n div 10 \<le> M" using 1 by linarith
    then have "parse_digits 10 M (show_digits (n div 10)) 0 = Some (n div 10)" using False 1 by simp
    then show ?thesis
      using False 1 digit_char_facts(1) [of "n mod 10"] by (simp add: show_digits.simps [of n] parse_digits_snoc)
  qed
qed

lemma show_digits_field: "0 \<le> n \<Longrightarrow> field_ok (show_digits n) \<and> hd (show_digits n) \<notin> {CHR ''+'', CHR ''-''}"
proof (induction n rule: show_digits.induct)
  case (1 n)
  have d: "\<not> space_char (digit_char (n mod 10))" "digit_char (n mod 10) \<notin> {CHR ''+'', CHR ''-''}"
    using digit_char_facts [of "n mod 10"] by simp_all
  show ?case
  proof (cases "n < 10")
    case True
    then show ?thesis using d 1 by (simp add: show_digits.simps [of n] field_ok_def)
  next
    case False
    then show ?thesis using d(1) 1 by (simp add: show_digits.simps [of n] field_ok_def)
  qed
qed

lemma ParseInt_show_int:
  assumes "0 \<le> n" and "n < 2 ^ 63"
  shows "ParseInt (show_int n) 10 0 = Some n"
proof -
  obtain c t where s: "show_digits n = c # t" "c \<noteq> CHR ''+''" "c \<noteq> CHR ''-''"
    using show_digits_field [OF assms(1)] by (cases "show_digits n") (auto simp: field_ok_def)
  have "parse_digits 10 (2 ^ 64 - 1) (c # t) 0 = Some n"
    using parse_show_digits [OF assms(1), of "2 ^ 64 - 1"] assms(2) s(1) by simp
  then show ?thesis using assms s
    by (simp add: show_int_def ParseInt_def ParseUint_def bit_size_def Let_def del: parse_digits.simps)
qed

lemma Fields_Join:
  assumes "fs \<noteq> []" and "list_all field_ok fs"
  shows "Fields (Join fs '' '') = fs"
proof -
  let ?f = "\<lambda>c. if space_char c then CHR '' '' else c"
  have "map ?f (Join fs '' '') = Join fs '' ''"
    using assms(2) by (induction fs "'' ''" rule: Join.induct)
      (auto simp: field_ok_def list_ex_iff space_char_def map_idI)
  moreover have "Split (Join fs '' '') (CHR '' '') = fs"
    using assms by (intro Split_Join) (auto simp: list_all_iff field_ok_def list_ex_iff space_char_def)
  ultimately show ?thesis using assms(2) by (simp add: Fields_def filter_id_conv list_all_iff field_ok_def)
qed

lemma show_int_field: "0 \<le> n \<Longrightarrow> field_ok (show_int n)"
  using show_digits_field by (simp add: show_int_def)

end
