(* ===== verification/Utils.thy ===== *)
theory Utils
  imports GoStrings
begin

text \<open>
  The constants of \<open>pkg/nfs/nfs.go\<close> and \<open>pkg/nfs/utils.go\<close> and the helper functions over
  strings and maps: the on-delete policy, endpoint parsing, case-insensitive map access and the
  substitution of PV and PVC metadata in a subdirectory template.
\<close>

section \<open>Constants\<close>

definition separator :: char where "separator = CHR ''#''"

definition delete_policy :: string where "delete_policy = ''delete''"
definition retain :: string where "retain = ''retain''"
definition archive :: string where "archive = ''archive''"

definition paramServer :: string where "paramServer = ''server''"
definition paramShare :: string where "paramShare = ''share''"
definition paramSubDir :: string where "paramSubDir = ''subdir''"
definition paramOnDelete :: string where "paramOnDelete = ''ondelete''"
definition mountOptionsField :: string where "mountOptionsField = ''mountoptions''"
definition mountPermissionsField :: string where "mountPermissionsField = ''mountpermissions''"
definition pvcNameKey :: string where "pvcNameKey = ''csi.storage.k8s.io/pvc/name''"
definition pvcNamespaceKey :: string where "pvcNamespaceKey = ''csi.storage.k8s.io/pvc/namespace''"
definition pvNameKey :: string where "pvNameKey = ''csi.storage.k8s.io/pv/name''"
definition pvcNameMetadata :: string where "pvcNameMetadata = ''${pvc.metadata.name}''"
definition pvcNamespaceMetadata :: string where
  "pvcNamespaceMetadata = ''${pvc.metadata.namespace}''"
definition pvNameMetadata :: string where "pvNameMetadata = ''${pv.metadata.name}''"

lemmas param_defs =
  paramServer_def paramShare_def paramSubDir_def paramOnDelete_def mountOptionsField_def
  mountPermissionsField_def pvcNameKey_def pvcNamespaceKey_def pvNameKey_def

section \<open>On-delete policy, endpoints, log levels\<close>

definition supportedOnDeleteValues :: "string list" where
  "supportedOnDeleteValues = [[], delete_policy, retain, archive]"

fun validate_loop :: "string list \<Rightarrow> string \<Rightarrow> unit outcome" where
  "validate_loop [] onDelete =
     Fail (Errorf ''invalid value %s for OnDelete, supported values are %v'')"
| "validate_loop (v # vs) onDelete =
     (if EqualFold v onDelete then Return () else validate_loop vs onDelete)"

definition validateOnDeleteValue :: "string \<Rightarrow> unit outcome" where
  "validateOnDeleteValue onDelete = validate_loop supportedOnDeleteValues onDelete"

definition ParseEndpoint :: "string \<Rightarrow> (string \<times> string) outcome" where
  "ParseEndpoint ep =
     (if HasPrefix (ToLower ep) ''unix://'' \<or> HasPrefix (ToLower ep) ''tcp://'' then
        (case SplitN2 ep ''://'' of
           s0 # s1 # _ \<Rightarrow>
             if s1 \<noteq> [] then Return (s0, s1) else Fail (Errorf ''Invalid endpoint: %v'')
         | _ \<Rightarrow> Panics ''index out of range [1] with length 1'')
      else Fail (Errorf ''Invalid endpoint: %v''))"

definition getLogLevel :: "string \<Rightarrow> int" where
  "getLogLevel method =
     (if method = ''/csi.v1.Identity/Probe'' \<or>
         method = ''/csi.v1.Node/NodeGetCapabilities'' \<or>
         method = ''/csi.v1.Node/NodeGetVolumeStats'' then 8 else 2)"

section \<open>Maps with case-insensitive keys\<close>

text \<open>\<open>logGRPC\<close> passes the handler's answer on and logs; what it logs is the level of each line.\<close>

datatype log_line = GrpcCall int | GrpcRequest int | GrpcResponse int | GrpcError

definition logGRPC ::
  "string \<Rightarrow> ('w \<Rightarrow> 'a outcome \<times> 'w) \<Rightarrow> 'w \<Rightarrow> ('a outcome \<times> 'w) \<times> log_line list" where
  "logGRPC fullMethod handler w =
     (let level = getLogLevel fullMethod in
      case handler w of (r, w') \<Rightarrow>
        ((r, w'),
         [GrpcCall level, GrpcRequest level] @
         (case r of Return _ \<Rightarrow> [GrpcResponse level] | Fail _ \<Rightarrow> [GrpcError] | Panics _ \<Rightarrow> [])))"

text \<open>\<open>netutil.IsIPv6String\<close> is a parameter.\<close>

definition getServerFromSource :: "(string \<Rightarrow> bool) \<Rightarrow> string \<Rightarrow> string" where
  "getServerFromSource isIPv6 server = (if isIPv6 server then ''['' @ server @ '']'' else server)"

text \<open>\<open>getMountOptions\<close>: the value of the first key visited that is \<open>mountoptions\<close> in any case.\<close>

fun mount_options_loop :: "gomap \<Rightarrow> string" where
  "mount_options_loop [] = []"
| "mount_options_loop ((k, v) # rest) =
     (if ToLower k = mountOptionsField then v else mount_options_loop rest)"

definition getMountOptions :: "visit \<Rightarrow> gomap \<Rightarrow> string" where
  "getMountOptions ord context = mount_options_loop (range_over ord context)"

text \<open>\<open>setKeyValueInMap\<close>: overwrite the first key visited that matches in any case, else add the
  key.  On the nil map (\<open>None\<close>) it does nothing.\<close>

fun matching_key :: "gomap \<Rightarrow> string \<Rightarrow> string option" where
  "matching_key [] key = None"
| "matching_key ((k, v) # rest) key = (if EqualFold k key then Some k else matching_key rest key)"

definition setKeyValueInMap ::
  "visit \<Rightarrow> gomap option \<Rightarrow> string \<Rightarrow> string \<Rightarrow> gomap option" where
  "setKeyValueInMap ord m key val =
     (case m of
        None \<Rightarrow> None
      | Some m \<Rightarrow>
          (case matching_key (range_over ord m) key of
             Some k \<Rightarrow> Some (AList.update k val m)
           | None \<Rightarrow> Some (AList.update key val m)))"

section \<open>Metadata substitution\<close>

text \<open>\<open>replaceWithMap\<close>: the replacements of the map, one after the other in visiting order.\<close>

definition replace_step :: "string \<times> string \<Rightarrow> string \<Rightarrow> string" where
  "replace_step kv str =
     (case kv of (k, v) \<Rightarrow> if k \<noteq> [] then ReplaceAll str k v else str)"

definition replaceWithMap :: "visit \<Rightarrow> string \<Rightarrow> gomap \<Rightarrow> string" where
  "replaceWithMap ord str m = fold replace_step (range_over ord m) str"

text \<open>A template as a sequence of literal text and placeholders, its text, and the text with all
  placeholders of a map filled in at once.\<close>

datatype piece = Lit string | Var string

primrec piece_text :: "piece \<Rightarrow> string" where
  "piece_text (Lit s) = s"
| "piece_text (Var k) = k"

definition template_text :: "piece list \<Rightarrow> string" where
  "template_text ps = concat (map piece_text ps)"

primrec fill :: "(string \<rightharpoonup> string) \<Rightarrow> piece \<Rightarrow> piece" where
  "fill m (Lit s) = Lit s"
| "fill m (Var k) = (case m k of None \<Rightarrow> Var k | Some v \<Rightarrow> Lit v)"

definition placeholder :: "string \<Rightarrow> bool" where
  "placeholder k \<longleftrightarrow>
     (case k of [] \<Rightarrow> False
      | c # b \<Rightarrow> c = CHR ''$'' \<and> CHR ''$'' \<notin> set b \<and> b \<noteq> [] \<and> last b = CHR ''}'' \<and>
          CHR ''}'' \<notin> set (butlast b))"

primrec wf_piece :: "piece \<Rightarrow> bool" where
  "wf_piece (Lit s) = (CHR ''$'' \<notin> set s)"
| "wf_piece (Var k) = placeholder k"

section \<open>Lemmas: substitution\<close>

lemma ReplaceAll_Nil [simp]: "k \<noteq> [] \<Longrightarrow> ReplaceAll [] k v = []"
  by (simp add: ReplaceAll.simps)

lemma ReplaceAll_miss:
  "k \<noteq> [] \<Longrightarrow> \<not> prefix k (c # s) \<Longrightarrow> ReplaceAll (c # s) k v = c # ReplaceAll s k v"
  by (simp add: ReplaceAll.simps [of "c # s"])

lemma ReplaceAll_skip:
  assumes "c \<noteq> CHR ''$''" and "placeholder k"
  shows "ReplaceAll (c # s) k v = c # ReplaceAll s k v"
proof -
  have "k \<noteq> []" "\<not> prefix k (c # s)"
    using assms by (auto simp: placeholder_def prefix_Cons split: list.splits)
  then show ?thesis by (rule ReplaceAll_miss)
qed

lemma ReplaceAll_literal:
  "CHR ''$'' \<notin> set l \<Longrightarrow> placeholder k \<Longrightarrow> ReplaceAll (l @ s) k v = l @ ReplaceAll s k v"
  by (induction l) (auto simp: ReplaceAll_skip)

lemma ReplaceAll_hit: "k \<noteq> [] \<Longrightarrow> ReplaceAll (k @ s) k v = v @ ReplaceAll s k v"
  by (cases k) (simp_all add: ReplaceAll.simps [of "k @ s"] ReplaceAll.simps [of "_ # _ @ s"])

text \<open>Placeholders end at their first closing brace, so none is a proper prefix of another.\<close>

lemma brace_end_unique:
  assumes "xs @ [c] @ rest = ys @ [c] @ rest'" and "c \<notin> set xs" and "c \<notin> set ys"
  shows "xs = ys"
  using assms
proof (induction xs arbitrary: ys)
  case Nil
  then show ?case by (cases ys) auto
next
  case (Cons x xs)
  then show ?case by (cases ys) auto
qed

lemma placeholder_decomp:
  assumes "placeholder k"
  obtains b where "k = CHR ''$'' # b @ [CHR ''}'']" "CHR ''$'' \<notin> set b" "CHR ''}'' \<notin> set b"
proof -
  obtain b where "k = CHR ''$'' # b" "b \<noteq> []" "CHR ''$'' \<notin> set b" "last b = CHR ''}''"
    "CHR ''}'' \<notin> set (butlast b)"
    using assms by (auto simp: placeholder_def split: list.splits)
  then show thesis using that [of "butlast b"]
    by (metis append_butlast_last_id in_set_butlastD)
qed

lemma placeholder_prefix:
  assumes "placeholder k" and "placeholder j" and "prefix k (j @ s)"
  shows "k = j"
proof -
  obtain a where a: "k = CHR ''$'' # a @ [CHR ''}'']" "CHR ''}'' \<notin> set a"
    using assms(1) placeholder_decomp by metis
  obtain b where b: "j = CHR ''$'' # b @ [CHR ''}'']" "CHR ''}'' \<notin> set b"
    using assms(2) placeholder_decomp by metis
  obtain t where "j @ s = k @ t" using assms(3) by (auto simp: prefix_def)
  then have "b @ [CHR ''}''] @ s = a @ [CHR ''}''] @ t" using a b by simp
  then show ?thesis using brace_end_unique a b by metis
qed

lemma ReplaceAll_other:
  assumes "placeholder k" and "placeholder j" and "k \<noteq> j"
  shows "ReplaceAll (j @ s) k v = j @ ReplaceAll s k v"
proof -
  obtain b where j: "j = CHR ''$'' # b @ [CHR ''}'']" "CHR ''$'' \<notin> set b"
    using assms(2) placeholder_decomp by metis
  have "\<not> prefix k (j @ s)" using placeholder_prefix assms by blast
  moreover have "k \<noteq> []" using assms(1) by (auto simp: placeholder_def)
  ultimately have "ReplaceAll (j @ s) k v = CHR ''$'' # ReplaceAll ((b @ [CHR ''}'']) @ s) k v"
    using j by (simp add: ReplaceAll_miss)
  also have "\<dots> = j @ ReplaceAll s k v"
    using ReplaceAll_literal [of "b @ [CHR ''}'']" k s v] j assms(1) by simp
  finally show ?thesis .
qed

lemma ReplaceAll_template:
  assumes "\<forall>p\<in>set ps. wf_piece p" and "placeholder k"
  shows "ReplaceAll (template_text ps) k v = template_text (map (fill [k \<mapsto> v]) ps)"
proof -
  have "k \<noteq> []" using assms(2) by (auto simp: placeholder_def)
  then show ?thesis
    using assms(1)
  proof (induction ps)
    case Nil
    then show ?case by (simp add: template_text_def)
  next
    case (Cons p ps)
    then show ?case
      using ReplaceAll_literal [OF _ assms(2)] ReplaceAll_hit ReplaceAll_other [OF assms(2)]
      by (cases p) (auto simp: template_text_def)
  qed
qed

lemma wf_fill:
  "wf_piece p \<Longrightarrow> CHR ''$'' \<notin> set v \<Longrightarrow> wf_piece (fill [k \<mapsto> v] p)"
  by (cases p) auto

lemma fill_fill: "k \<notin> dom m \<Longrightarrow> fill m (fill [k \<mapsto> v] p) = fill (m(k \<mapsto> v)) p"
  by (cases p) (auto split: option.splits)

lemma fold_replace_template:
  assumes "\<forall>p\<in>set ps. wf_piece p" and "distinct (map fst m)"
    and "\<forall>(k, v)\<in>set m. placeholder k \<and> CHR ''$'' \<notin> set v"
  shows "fold replace_step m (template_text ps) = template_text (map (fill (map_of m)) ps)"
  using assms
proof (induction m arbitrary: ps)
  case Nil
  have "fill Map.empty p = p" for p by (cases p) auto
  then show ?case by simp
next
  case (Cons kv m)
  obtain k v where kv: "kv = (k, v)" by force
  have ph: "placeholder k" "k \<noteq> []" and v: "CHR ''$'' \<notin> set v" and new: "k \<notin> dom (map_of m)"
    using Cons.prems(2,3) kv by (auto simp: placeholder_def dom_map_of_conv_image_fst)
  have "fold replace_step (kv # m) (template_text ps)
      = fold replace_step m (template_text (map (fill [k \<mapsto> v]) ps))"
    using ReplaceAll_template [OF Cons.prems(1) ph(1)] kv ph(2) by (simp add: replace_step_def)
  also have "\<dots> = template_text (map (fill (map_of m)) (map (fill [k \<mapsto> v]) ps))"
    using Cons.prems v by (intro Cons.IH) (auto intro: wf_fill)
  also have "\<dots> = template_text (map (fill (map_of (kv # m))) ps)"
    using new kv by (simp add: fill_fill comp_def)
  finally show ?case .
qed

section \<open>Lemmas: endpoints and map access\<close>

lemma SplitN2_first:
  assumes "sep \<noteq> []" and "\<And>i. i < length p \<Longrightarrow> \<not> prefix sep (drop i p @ sep @ a)"
  shows "SplitN2 (p @ sep @ a) sep = [p, a]"
  using assms
proof (induction p)
  case Nil
  then show ?case by (cases sep) auto
next
  case (Cons c p)
  have "\<not> prefix sep (c # p @ sep @ a)" using Cons.prems(2) [of 0] by simp
  moreover have "SplitN2 (p @ sep @ a) sep = [p, a]"
    using Cons.prems(2) [of "Suc i" for i] by (intro Cons.IH Cons.prems(1)) auto
  ultimately show ?case by simp
qed

lemma colon_free_no_prefix:
  assumes "CHR '':'' \<notin> set p" and "i < length p"
  shows "\<not> prefix ''://'' (drop i p @ s)"
proof -
  obtain c t where "drop i p = c # t" "c \<in> set p"
    using assms(2) by (metis Cons_nth_drop_Suc nth_mem)
  then show ?thesis using assms(1) by auto
qed

lemma matching_key_Some: "matching_key m key = Some k \<Longrightarrow> EqualFold k key \<and> k \<in> fst ` set m"
  by (induction m key rule: matching_key.induct) (auto split: if_splits)

lemma matching_key_None: "matching_key m key = None \<longleftrightarrow> (\<forall>k\<in>fst ` set m. \<not> EqualFold k key)"
  by (induction m key rule: matching_key.induct) auto

section \<open>Properties\<close>

text \<open>\<open>replaceWithMap\<close> computes the simultaneous substitution, whatever order the map is
  visited in: for a template made of literal text without a dollar sign and of placeholders, and
  replacement values without a dollar sign, the result is the template with every placeholder
  that the map knows replaced by its value and all others kept.\<close>

lemma replaceWithMap_template:
  assumes "range_ok ord" and "\<forall>p\<in>set ps. wf_piece p" and "distinct (map fst m)"
    and "\<forall>(k, v)\<in>set m. placeholder k \<and> CHR ''$'' \<notin> set v"
  shows "replaceWithMap ord (template_text ps) m = template_text (map (fill (map_of m)) ps)"
  using fold_replace_template [of ps "range_over ord m"] assms
  by (simp add: replaceWithMap_def)

text \<open>Outside such templates the result can depend on the visiting order: a template that
  nests one placeholder inside the text of another is expanded differently by the two orders, with
  a PVC name that Kubernetes accepts.\<close>

lemma replaceWithMap_order_matters:
  "replaceWithMap in_order ''${p${pvc.metadata.name}}''
     [(pvcNameMetadata, ''v.metadata.name''), (pvNameMetadata, ''pv-1'')] = ''pv-1'' \<and>
   replaceWithMap backwards ''${p${pvc.metadata.name}}''
     [(pvcNameMetadata, ''v.metadata.name''), (pvNameMetadata, ''pv-1'')] = ''${pv.metadata.name}''"
  by code_simp

text \<open>The on-delete values accepted are exactly the empty string, \<open>delete\<close>, \<open>retain\<close> and
  \<open>archive\<close> in any letter case; everything else is rejected with an error.\<close>

lemma validateOnDeleteValue_iff:
  "validateOnDeleteValue onDelete =
     (if ToLower onDelete \<in> {[], ''delete'', ''retain'', ''archive''} then Return ()
      else Fail (Errorf ''invalid value %s for OnDelete, supported values are %v''))"
proof -
  have lower: "ToLower ''delete'' = ''delete''" "ToLower ''retain'' = ''retain''"
    "ToLower ''archive'' = ''archive''"
    by code_simp+
  show ?thesis
    by (auto simp: validateOnDeleteValue_def supportedOnDeleteValues_def EqualFold_def
        delete_policy_def retain_def archive_def lower)
qed

text \<open>An endpoint made of a scheme \<open>unix\<close> or \<open>tcp\<close> in any letter case, \<open>://\<close> and a
  non-empty address parses back into scheme and address; with an empty address it is rejected.\<close>

lemma ParseEndpoint_roundtrip:
  assumes "ToLower proto \<in> {''unix'', ''tcp''}"
  shows "ParseEndpoint (proto @ ''://'' @ addr) =
    (if addr \<noteq> [] then Return (proto, addr) else Fail (Errorf ''Invalid endpoint: %v''))"
proof -
  have "lower_char (CHR '':'') = CHR '':''" "lower_char (CHR ''/'') = CHR ''/''" by code_simp+
  then have "ToLower (proto @ ''://'' @ addr) = ToLower proto @ ''://'' @ ToLower addr"
    and "CHR '':'' \<in> set proto \<Longrightarrow> CHR '':'' \<in> set (ToLower proto)"
    by (auto simp: ToLower_def image_iff) (metis)
  moreover from this assms have "CHR '':'' \<notin> set proto" by auto
  then have "SplitN2 (proto @ ''://'' @ addr) ''://'' = [proto, addr]"
    by (intro SplitN2_first colon_free_no_prefix) simp_all
  ultimately show ?thesis using assms by (auto simp: ParseEndpoint_def HasPrefix_def)
qed

end
