(* ===== verification/VolumeLocks.thy ===== *)
theory VolumeLocks
  imports Prelude
begin

text \<open>
  \<open>VolumeLocks\<close> of \<open>pkg/nfs/utils.go\<close>: a set of keys guarded by a mutex, with a non-blocking
  acquire.  The lock-table interface the handlers rely on is a locale; the exclusion of concurrent
  handlers is proved once from it and holds for the set-based implementation by interpretation.
\<close>

section \<open>The implementation\<close>

type_synonym locks = "string set"

definition NewVolumeLocks :: locks where
  "NewVolumeLocks = {}"

definition TryAcquire :: "string \<Rightarrow> locks \<Rightarrow> bool \<times> locks" where
  "TryAcquire volumeID l = (if volumeID \<in> l then (False, l) else (True, insert volumeID l))"

definition Release :: "string \<Rightarrow> locks \<Rightarrow> locks" where
  "Release volumeID l = l - {volumeID}"

text \<open>The keys the handlers lock: \<open>"%s/%s"\<close> of node and volume in the controller server,
  \<open>"%s-%s"\<close> of volume and target path in the node server.\<close>

definition controllerLockKey :: "string \<Rightarrow> string \<Rightarrow> string" where
  "controllerLockKey nodeID volumeID = nodeID @ ''/'' @ volumeID"

definition nodeLockKey :: "string \<Rightarrow> string \<Rightarrow> string" where
  "nodeLockKey volumeID targetPath = volumeID @ ''-'' @ targetPath"

section \<open>Concurrent handlers\<close>

text \<open>Handlers running concurrently over one lock table: \<open>inside i\<close> is the key handler \<open>i\<close> holds
  between its \<open>TryAcquire\<close> and its deferred \<open>Release\<close>; \<open>refused\<close> records the handlers that were
  turned away, with the key they asked for.\<close>

record 'l lock_sys =
  table :: 'l
  inside :: "nat \<Rightarrow> string option"
  refused :: "(nat \<times> string) list"

inductive lock_step ::
  "(string \<Rightarrow> 'l \<Rightarrow> bool \<times> 'l) \<Rightarrow> (string \<Rightarrow> 'l \<Rightarrow> 'l) \<Rightarrow> 'l lock_sys \<Rightarrow> 'l lock_sys \<Rightarrow> bool"
  for acquire release where
  enter: "inside s i = None \<Longrightarrow> acquire k (table s) = (True, l) \<Longrightarrow>
     lock_step acquire release s (s\<lparr>table := l, inside := (inside s)(i \<mapsto> k)\<rparr>)"
| refuse: "inside s i = None \<Longrightarrow> acquire k (table s) = (False, l) \<Longrightarrow>
     lock_step acquire release s (s\<lparr>table := l, refused := (i, k) # refused s\<rparr>)"
| leave: "inside s i = Some k \<Longrightarrow>
     lock_step acquire release s (s\<lparr>table := release k (table s), inside := (inside s)(i := None)\<rparr>)"

inductive lock_reachable ::
  "(string \<Rightarrow> 'l \<Rightarrow> bool \<times> 'l) \<Rightarrow> (string \<Rightarrow> 'l \<Rightarrow> 'l) \<Rightarrow> 'l \<Rightarrow> 'l lock_sys \<Rightarrow> bool"
  for acquire release new where
  start: "lock_reachable acquire release new \<lparr>table = new, inside = Map.empty, refused = []\<rparr>"
| step: "lock_reachable acquire release new s \<Longrightarrow> lock_step acquire release s t \<Longrightarrow>
     lock_reachable acquire release new t"

section \<open>The lock-table contract\<close>

locale lock_table =
  fixes new :: 'l
    and acquire :: "string \<Rightarrow> 'l \<Rightarrow> bool \<times> 'l"
    and release :: "string \<Rightarrow> 'l \<Rightarrow> 'l"
    and held :: "'l \<Rightarrow> string set"
  assumes held_new: "held new = {}"
    and acquire_free: "k \<notin> held l \<Longrightarrow> \<exists>l'. acquire k l = (True, l') \<and> held l' = insert k (held l)"
    and acquire_held: "k \<in> held l \<Longrightarrow> acquire k l = (False, l)"
    and held_release: "held (release k l) = held l - {k}"
begin

lemma acquire_True: "acquire k l = (True, l') \<Longrightarrow> k \<notin> held l \<and> held l' = insert k (held l)"
  using acquire_free acquire_held by (metis Pair_inject)

lemma acquire_False: "acquire k l = (False, l') \<Longrightarrow> k \<in> held l \<and> l' = l"
  using acquire_free acquire_held by (metis Pair_inject)

text \<open>A handler that acquires a free key and releases it leaves the table as it was.\<close>

lemma bracket: "acquire k l = (True, l') \<Longrightarrow> held (release k l') = held l"
  using acquire_True by (auto simp: held_release)

lemma exclusion_inv:
  assumes "lock_reachable acquire release new s"
  shows "held (table s) = ran (inside s) \<and> inj_on (inside s) (dom (inside s))"
  using assms
proof (induction rule: lock_reachable.induct)
  case start
  then show ?case by (simp add: held_new)
next
  case (step s t)
  from step.hyps(2) show ?case
  proof cases
    case (enter i k l)
    then have "k \<notin> held (table s)" "held l = insert k (held (table s))"
      using acquire_True by auto
    moreover have "ran ((inside s)(i \<mapsto> k)) = insert k (ran (inside s))"
      using enter(2) by (simp add: ran_map_upd)
    moreover have "inj_on ((inside s)(i \<mapsto> k)) (dom ((inside s)(i \<mapsto> k)))"
      using step.IH \<open>k \<notin> held (table s)\<close> by (auto simp: inj_on_def ran_def)
    moreover have "table t = l" and "inside t = (inside s)(i \<mapsto> k)" by (simp_all add: enter(1))
    ultimately show ?thesis using step.IH by (simp only:)
  next
    case (refuse i k l)
    then have "l = table s" using acquire_False by blast
    then show ?thesis using refuse(1) step.IH by simp
  next
    case (leave i k)
    have "ran ((inside s)(i := None)) = ran (inside s) - {k}"
      using leave(2) step.IH by (simp add: ran_remove)
    moreover have "inj_on ((inside s)(i := None)) (dom ((inside s)(i := None)))"
      using step.IH by (auto simp: inj_on_def)
    moreover have "table t = release k (table s)" and "inside t = (inside s)(i := None)"
      by (simp_all add: leave(1))
    ultimately show ?thesis using step.IH by (simp only: held_release)
  qed
qed

lemma mutual_exclusion:
  assumes "lock_reachable acquire release new s" and "inside s i = Some k" and "inside s j = Some k"
  shows "i = j"
  using exclusion_inv [OF assms(1)] assms(2,3) by (auto simp: inj_on_def dom_def)

text \<open>A handler is refused exactly when another one is inside with the same key.\<close>

lemma refused_iff_busy:
  assumes "lock_reachable acquire release new s"
  shows "fst (acquire k (table s)) = False \<longleftrightarrow> (\<exists>j. inside s j = Some k)"
proof -
  have "fst (acquire k (table s)) = False \<longleftrightarrow> k \<in> held (table s)"
  proof (cases "k \<in> held (table s)")
    case True
    then show ?thesis by (simp add: acquire_held)
  next
    case False
    then obtain l where "acquire k (table s) = (True, l)" using acquire_free by blast
    then show ?thesis using False by simp
  qed
  then show ?thesis using exclusion_inv [OF assms] by (simp add: ran_def)
qed

lemma quiescent:
  assumes "lock_reachable acquire release new s" and "inside s = Map.empty"
  shows "held (table s) = {}"
  using exclusion_inv [OF assms(1)] assms(2) by simp

end

interpretation vl: lock_table NewVolumeLocks TryAcquire Release "\<lambda>l. l"
  by unfold_locales (auto simp: NewVolumeLocks_def TryAcquire_def Release_def)

section \<open>Facts for the handlers\<close>

lemma TryAcquire_simps [lock_simps]:
  "TryAcquire k l = (b, l') \<longleftrightarrow> b = (k \<notin> l) \<and> l' = insert k l"
  by (auto simp: TryAcquire_def)

lemma Release_insert [lock_simps]: "k \<notin> l \<Longrightarrow> Release k (insert k l) = l"
  by (auto simp: Release_def)

lemma append_sep_inject:
  assumes "xs @ c # ys = xs' @ c # ys'" and "c \<notin> set xs" and "c \<notin> set xs'"
  shows "xs = xs' \<and> ys = ys'"
  using assms
proof (induction xs arbitrary: xs')
  case Nil
  then show ?case by (cases xs') auto
next
  case (Cons x xs)
  then show ?case by (cases xs') auto
qed

section \<open>Properties\<close>

text \<open>C10. In every reachable state of concurrently running handlers, two handlers inside their
  critical sections hold different keys; a handler is turned away exactly when another one holds
  its key; and when no handler is inside, no key is held (no lock leaks).\<close>

theorem volume_locks_exclusion:
  assumes "lock_reachable TryAcquire Release NewVolumeLocks s"
  shows "(\<forall>i j k. inside s i = Some k \<and> inside s j = Some k \<longrightarrow> i = j) \<and>
    (\<forall>k. \<not> fst (TryAcquire k (table s)) \<longleftrightarrow> (\<exists>j. inside s j = Some k)) \<and>
    (inside s = Map.empty \<longrightarrow> table s = {})"
  using vl.mutual_exclusion [OF assms] vl.refused_iff_busy [OF assms] vl.quiescent [OF assms]
  by blast

theorem volume_locks_exclusion_witness:
  "\<exists>s :: locks lock_sys. inside s 0 = Some ''n/v'' \<and>
    (\<forall>i j k. inside s i = Some k \<and> inside s j = Some k \<longrightarrow> i = j) \<and>
    (\<forall>k. \<not> fst (TryAcquire k (table s)) \<longleftrightarrow> (\<exists>j. inside s j = Some k)) \<and>
    (inside s = Map.empty \<longrightarrow> table s = {})"
proof -
  let ?init = "\<lparr>table = NewVolumeLocks, inside = Map.empty, refused = []\<rparr>"
  let ?s = "?init\<lparr>table := {''n/v''}, inside := (inside ?init)(0 \<mapsto> ''n/v'')\<rparr>"
  have "lock_step TryAcquire Release ?init ?s"
    by (rule lock_step.enter) (simp_all add: TryAcquire_def NewVolumeLocks_def)
  note excl = volume_locks_exclusion [OF lock_reachable.step [OF lock_reachable.start this]]
  have "inside ?s 0 = Some ''n/v''" by simp
  from conjI [OF this excl] show ?thesis by (rule exI)
qed

text \<open>Node names contain no slash, so the controller's key determines the node and the volume, and
  requests for different pairs never contend.\<close>

lemma controllerLockKey_inject:
  assumes "CHR ''/'' \<notin> set nodeID" and "CHR ''/'' \<notin> set nodeID'"
  shows "controllerLockKey nodeID volumeID = controllerLockKey nodeID' volumeID' \<longleftrightarrow>
    nodeID = nodeID' \<and> volumeID = volumeID'"
  using append_sep_inject [OF _ assms] by (auto simp: controllerLockKey_def)

end
