(* ===== verification/OsModel.thy ===== *)
theory OsModel
  imports VolumeLocks GoStrings "HOL-Library.Word"
begin

text \<open>
  The world the servers run in.  The operating system, the mounter and the programs the driver
  executes are not part of the source; they are an argument of the handlers, a record with one
  function per kind of call.  Each takes the calls made before it, so that any behaviour, state
  changing or not, is an instance.  The world itself is the shared state of the driver (held
  locks, volume statistics cache, the load balancer's map and the API server) and the trace of
  the calls made so far.
\<close>

unbundle bit_operations_syntax

type_synonym mode = "32 word"

section \<open>Calls\<close>

datatype oscall =
    CIsLikelyNotMountPoint string
  | CIsMountPoint string
  | CPathExists string
  | CMkdirAll string mode
  | CMount string string string "string list"
  | CUnmount string
  | CUnmountWithForce string
  | CLstat string
  | CStat string
  | CChmod string mode
  | CRemove string
  | CRemoveAll string
  | CRename string string
  | CWalkDir string
  | CGetMetrics string
  | CExec "string list"
  | CNow

text \<open>What \<open>volume.NewMetricsStatFS(path).GetMetrics()\<close> returns, each quantity already converted
  by \<open>AsInt64\<close>, which fails (\<open>None\<close>) if it does not fit.\<close>

record metrics =
  m_available :: "int option"
  m_capacity :: "int option"
  m_used :: "int option"
  m_inodesFree :: "int option"
  m_inodes :: "int option"
  m_inodesUsed :: "int option"

text \<open>\<open>os_canSkip\<close> is \<open>CanSafelySkipMountPointCheck\<close>; \<open>os_walk\<close> gives the sequence of arguments
  (path, entry name, error) with which \<open>filepath.WalkDir\<close> calls its function as long as that
  returns nil.\<close>

record os =
  os_isLikelyNotMountPoint :: "oscall list \<Rightarrow> string \<Rightarrow> bool \<times> os_error option"
  os_isMountPoint :: "oscall list \<Rightarrow> string \<Rightarrow> os_error + bool"
  os_pathExists :: "oscall list \<Rightarrow> string \<Rightarrow> bool \<times> os_error option"
  os_mkdirAll :: "oscall list \<Rightarrow> string \<Rightarrow> mode \<Rightarrow> os_error option"
  os_mount :: "oscall list \<Rightarrow> string \<Rightarrow> string \<Rightarrow> string \<Rightarrow> string list \<Rightarrow> os_error option"
  os_unmount :: "oscall list \<Rightarrow> string \<Rightarrow> os_error option"
  os_unmountWithForce :: "oscall list \<Rightarrow> string \<Rightarrow> os_error option"
  os_canSkip :: bool
  os_lstat :: "oscall list \<Rightarrow> string \<Rightarrow> os_error + mode"
  os_stat :: "oscall list \<Rightarrow> string \<Rightarrow> os_error + int"
  os_chmod :: "oscall list \<Rightarrow> string \<Rightarrow> mode \<Rightarrow> os_error option"
  os_remove :: "oscall list \<Rightarrow> string \<Rightarrow> os_error option"
  os_removeAll :: "oscall list \<Rightarrow> string \<Rightarrow> os_error option"
  os_rename :: "oscall list \<Rightarrow> string \<Rightarrow> string \<Rightarrow> os_error option"
  os_walk :: "oscall list \<Rightarrow> string \<Rightarrow> (string \<times> string \<times> os_error option) list"
  os_getMetrics :: "oscall list \<Rightarrow> string \<Rightarrow> os_error + metrics"
  os_exec :: "oscall list \<Rightarrow> string list \<Rightarrow> os_error option \<times> string"
  os_now :: "oscall list \<Rightarrow> int"

section \<open>Volume statistics and their cache\<close>

datatype usage_unit = BYTES | INODES

record volume_usage =
  u_unit :: usage_unit
  u_available :: int
  u_total :: int
  u_used :: int

type_synonym stats_response = "volume_usage list"

text \<open>\<open>AzureCacheEntry\<close>; \<open>Data\<close> is \<open>None\<close> for nil.\<close>

record cache_entry =
  entry_data :: "stats_response option"
  entry_createdOn :: int

record timed_cache =
  cache_store :: "(string \<times> cache_entry) list"
  cache_ttl :: int

section \<open>The world\<close>

record 'api world =
  w_locks :: locks
  w_trace :: "oscall list"
  w_stats :: timed_cache
  w_ipMap :: "(string \<times> int) list"
  w_api :: 'api

text \<open>Making a call: its result depends on the calls before it, and it is appended to them.\<close>

definition syscall ::
  "oscall \<Rightarrow> (oscall list \<Rightarrow> 'a) \<Rightarrow> ('api, 'm) world_scheme \<Rightarrow> 'a \<times> ('api, 'm) world_scheme" where
  "syscall c f w = (f (w_trace w), w\<lparr>w_trace := w_trace w @ [c]\<rparr>)"

definition volumeOperationAlreadyExistsFmt :: string where
  "volumeOperationAlreadyExistsFmt = ''An operation with the given Volume ID %s already exists''"

text \<open>The locking prologue of the handlers, with the deferred release, which also runs when the
  body panics.\<close>

definition with_lock ::
  "string \<Rightarrow> ('api world \<Rightarrow> 'a outcome \<times> 'api world) \<Rightarrow> 'api world \<Rightarrow> 'a outcome \<times> 'api world"
  where
  "with_lock key body w =
     (case TryAcquire key (w_locks w) of (acquired, l) \<Rightarrow>
        let w0 = w\<lparr>w_locks := l\<rparr> in
        if \<not> acquired then (Fail (Status Aborted volumeOperationAlreadyExistsFmt), w0)
        else
          (case body w0 of (r, w') \<Rightarrow> (r, w'\<lparr>w_locks := Release key (w_locks w')\<rparr>)))"

text \<open>An operation that did nothing to the world but make calls, all of them allowed by \<open>P\<close>.\<close>

definition only_calls ::
  "(oscall \<Rightarrow> bool) \<Rightarrow> ('api, 'm) world_scheme \<Rightarrow> ('api, 'm) world_scheme \<Rightarrow> bool" where
  "only_calls P w w' \<longleftrightarrow> (\<exists>cs. w' = w\<lparr>w_trace := w_trace w @ cs\<rparr> \<and> (\<forall>c\<in>set cs. P c))"

section \<open>Lemmas\<close>

lemma syscall_eq [simp]:
  "syscall c f w = (r, w') \<longleftrightarrow> r = f (w_trace w) \<and> w' = w\<lparr>w_trace := w_trace w @ [c]\<rparr>"
  by (auto simp: syscall_def)

lemma syscall_locks [lock_simps]: "w_locks (snd (syscall c f w)) = w_locks w"
  by (simp add: syscall_def)

lemma only_calls_refl [simp, intro]: "only_calls P w w"
  unfolding only_calls_def by (rule exI [of _ "[]"]) simp

lemma only_calls_append [simp]:
  "only_calls P w (w\<lparr>w_trace := w_trace w @ cs\<rparr>) \<longleftrightarrow> (\<forall>c\<in>set cs. P c)"
proof
  assume "only_calls P w (w\<lparr>w_trace := w_trace w @ cs\<rparr>)"
  then obtain ds where "w\<lparr>w_trace := w_trace w @ cs\<rparr> = w\<lparr>w_trace := w_trace w @ ds\<rparr>"
    and *: "\<forall>c\<in>set ds. P c" by (auto simp: only_calls_def)
  then have "w_trace w @ cs = w_trace w @ ds" by (metis select_convs(2) surjective update_convs(2))
  with * show "\<forall>c\<in>set cs. P c" by simp
qed (auto simp: only_calls_def)

lemma only_calls_trans [trans]:
  assumes "only_calls P w w'" and "only_calls P w' w''"
  shows "only_calls P w w''"
proof -
  obtain cs ds where "w' = w\<lparr>w_trace := w_trace w @ cs\<rparr>" "\<forall>c\<in>set cs. P c"
    "w'' = w'\<lparr>w_trace := w_trace w' @ ds\<rparr>" "\<forall>c\<in>set ds. P c"
    using assms by (auto simp: only_calls_def)
  then show ?thesis unfolding only_calls_def by (intro exI [of _ "cs @ ds"]) auto
qed

lemma only_calls_first:
  assumes "only_calls P (w\<lparr>w_trace := w_trace w @ cs\<rparr>) w'" and "\<forall>c\<in>set cs. P c"
  shows "only_calls P w w'"
  by (rule only_calls_trans [of P w _ w', OF _ assms(1)]) (simp add: assms(2))

lemma only_calls_mono: "only_calls P w w' \<Longrightarrow> (\<And>c. P c \<Longrightarrow> Q c) \<Longrightarrow> only_calls Q w w'"
  unfolding only_calls_def by blast

lemma only_calls_syscall: "P c \<Longrightarrow> only_calls P w (snd (syscall c f w))"
  by (auto simp: syscall_def)

lemma only_calls_frame:
  assumes "only_calls P w w'"
  shows "w_locks w' = w_locks w" and "w_stats w' = w_stats w" and "w_ipMap w' = w_ipMap w"
    and "w_api w' = w_api w"
  using assms by (auto simp: only_calls_def)

text \<open>A handler under a lock leaves the set of held locks as it found it.\<close>

lemma with_lock_locks:
  assumes "with_lock key body w = (r, w')"
    and "\<And>w r w'. body w = (r, w') \<Longrightarrow> w_locks w' = w_locks w"
  shows "w_locks w' = w_locks w"
  using assms(1)
  by (auto simp: with_lock_def TryAcquire_def Release_def Let_def dest: assms(2)
      split: prod.splits if_splits)

lemma with_lock_only_calls:
  assumes "with_lock key body w = (r, w')"
    and "\<And>w r w'. body w = (r, w') \<Longrightarrow> only_calls P w w'"
  shows "only_calls P w w'"
proof (cases "key \<in> w_locks w")
  case True
  then show ?thesis using assms(1) by (simp add: with_lock_def TryAcquire_def)
next
  case False
  let ?w0 = "w\<lparr>w_locks := insert key (w_locks w)\<rparr>"
  obtain r1 w1 where b: "body ?w0 = (r1, w1)" by fastforce
  then obtain cs where w1: "w1 = ?w0\<lparr>w_trace := w_trace w @ cs\<rparr>" and cs: "\<forall>c\<in>set cs. P c"
    using assms(2) by (fastforce simp: only_calls_def)
  have "w' = w1\<lparr>w_locks := Release key (w_locks w1)\<rparr>"
    using False assms(1) b by (simp add: with_lock_def TryAcquire_def)
  also have "\<dots> = w\<lparr>w_trace := w_trace w @ cs\<rparr>" using False w1 by (simp add: Release_def)
  finally show ?thesis using cs by simp
qed

lemma with_lock_refused:
  "key \<in> w_locks w \<Longrightarrow>
   with_lock key body w = (Fail (Status Aborted volumeOperationAlreadyExistsFmt), w)"
  by (simp add: with_lock_def TryAcquire_def)

lemma with_lock_acquired:
  "key \<notin> w_locks w \<Longrightarrow> body (w\<lparr>w_locks := insert key (w_locks w)\<rparr>) = (r, w') \<Longrightarrow>
   with_lock key body w = (r, w'\<lparr>w_locks := w_locks w' - {key}\<rparr>)"
  by (simp add: with_lock_def TryAcquire_def Release_def)

lemma with_lock_cases:
  assumes "with_lock key body w = (r, w')"
  obtains (refused) "key \<in> w_locks w" "r = Fail (Status Aborted volumeOperationAlreadyExistsFmt)" "w' = w"
  | (run) w1 where "key \<notin> w_locks w" "body (w\<lparr>w_locks := insert key (w_locks w)\<rparr>) = (r, w1)"
      "w' = w1\<lparr>w_locks := w_locks w1 - {key}\<rparr>"
  using assms
  by (cases "key \<in> w_locks w")
    (auto simp: with_lock_def TryAcquire_def Release_def split: prod.splits)

end
