(* ===== verification/TimedCache.thy ===== *)
theory TimedCache
  imports OsModel
begin

text \<open>
  The timed cache of \<open>cloud-provider-azure\<close> (\<open>azure_cache.go\<close>, as vendored) that holds the volume
  statistics, with the getter \<open>NewDriver\<close> gives it.  The contract that \<open>NodeGetVolumeStats\<close>
  relies on is the locale \<open>stats_cache\<close>: what was set is served until the time to live is over,
  whatever reads and writes of other keys happen in between.
\<close>

section \<open>Operations\<close>

datatype read_type = CacheReadTypeDefault | CacheReadTypeUnsafe | CacheReadTypeForceRefresh

text \<open>\<open>NewTimedCache\<close> with a getter and not disabled.\<close>

definition NewTimedCache :: "int \<Rightarrow> timed_cache" where
  "NewTimedCache ttl = \<lparr>cache_store = [], cache_ttl = ttl\<rparr>"

text \<open>A missing entry is added with nil data and the zero time.\<close>

definition getInternal :: "string \<Rightarrow> timed_cache \<Rightarrow> cache_entry \<times> timed_cache" where
  "getInternal key c =
     (case map_of (cache_store c) key of
        Some entry \<Rightarrow> (entry, c)
      | None \<Rightarrow>
          (let newEntry = \<lparr>entry_data = None, entry_createdOn = 0\<rparr>
           in (newEntry, c\<lparr>cache_store := AList.update key newEntry (cache_store c)\<rparr>)))"

definition cache_refresh ::
  "os \<Rightarrow> (string \<Rightarrow> go_error + stats_response option) \<Rightarrow> string \<Rightarrow> 'api world
   \<Rightarrow> (go_error + stats_response option) \<times> 'api world" where
  "cache_refresh os getter key w =
     (case getter key of
        Inl e \<Rightarrow> (Inl e, w)
      | Inr d \<Rightarrow>
          (case syscall CNow (os_now os) w of (now, w1) \<Rightarrow>
             (Inr d, w1\<lparr>w_stats := (w_stats w1)\<lparr>cache_store :=
                AList.update key \<lparr>entry_data = d, entry_createdOn = now\<rparr> (cache_store (w_stats w1))\<rparr>\<rparr>)))"

definition cache_get ::
  "os \<Rightarrow> (string \<Rightarrow> go_error + stats_response option) \<Rightarrow> string \<Rightarrow> read_type \<Rightarrow> 'api world
   \<Rightarrow> (go_error + stats_response option) \<times> 'api world" where
  "cache_get os getter key crt w =
     (case getInternal key (w_stats w) of (entry, c) \<Rightarrow>
        let w0 = w\<lparr>w_stats := c\<rparr> in
        if entry_data entry \<noteq> None \<and> crt \<noteq> CacheReadTypeForceRefresh then
          if crt = CacheReadTypeUnsafe then (Inr (entry_data entry), w0)
          else
            (case syscall CNow (os_now os) w0 of (now, w1) \<Rightarrow>
               if now - entry_createdOn entry < cache_ttl c then (Inr (entry_data entry), w1)
               else cache_refresh os getter key w1)
        else cache_refresh os getter key w0)"

definition cache_set :: "os \<Rightarrow> string \<Rightarrow> stats_response \<Rightarrow> 'api world \<Rightarrow> 'api world" where
  "cache_set os key d w =
     (case syscall CNow (os_now os) w of (now, w1) \<Rightarrow>
        w1\<lparr>w_stats := (w_stats w1)\<lparr>cache_store :=
          AList.update key \<lparr>entry_data = Some d, entry_createdOn = now\<rparr>
            (cache_store (w_stats w1))\<rparr>\<rparr>)"

text \<open>\<open>Delete\<close> and \<open>Update\<close>, which the driver does not call.  The in-memory store never fails, so
  \<open>getInternal\<close> does not, and \<open>Update\<close> always changes the entry it finds or adds.\<close>

definition cache_delete :: "string \<Rightarrow> 'api world \<Rightarrow> 'api world" where
  "cache_delete key w =
     w\<lparr>w_stats := (w_stats w)\<lparr>cache_store := AList.delete key (cache_store (w_stats w))\<rparr>\<rparr>"

definition cache_update :: "os \<Rightarrow> string \<Rightarrow> stats_response \<Rightarrow> 'api world \<Rightarrow> 'api world" where
  "cache_update os key d w =
     (case getInternal key (w_stats w) of (entry, c) \<Rightarrow>
        (case syscall CNow (os_now os) (w\<lparr>w_stats := c\<rparr>) of (now, w1) \<Rightarrow>
           w1\<lparr>w_stats := (w_stats w1)\<lparr>cache_store :=
             AList.update key (entry\<lparr>entry_data := Some d, entry_createdOn := now\<rparr>)
               (cache_store (w_stats w1))\<rparr>\<rparr>))"

text \<open>The getter of the driver: it never has data.\<close>

definition volStatsGetter :: "string \<Rightarrow> go_error + stats_response option" where
  "volStatsGetter key = Inr None"

definition stats_get ::
  "os \<Rightarrow> string \<Rightarrow> 'api world \<Rightarrow> (go_error + stats_response option) \<times> 'api world" where
  "stats_get os key = cache_get os volStatsGetter key CacheReadTypeDefault"

text \<open>The abstract content of the cache: the data of a key and when it was stored.\<close>

definition stats_stored :: "'api world \<Rightarrow> string \<Rightarrow> (stats_response \<times> int) option" where
  "stats_stored w key =
     (case map_of (cache_store (w_stats w)) key of
        None \<Rightarrow> None
      | Some entry \<Rightarrow> map_option (\<lambda>d. (d, entry_createdOn entry)) (entry_data entry))"

text \<open>Uses of the cache between a write and a read.\<close>

datatype cache_use = Read string | Write string stats_response

section \<open>The contract\<close>

primrec run_uses ::
  "(string \<Rightarrow> 'w \<Rightarrow> 'r \<times> 'w) \<Rightarrow> (string \<Rightarrow> stats_response \<Rightarrow> 'w \<Rightarrow> 'w) \<Rightarrow> cache_use list
   \<Rightarrow> 'w \<Rightarrow> 'w" where
  "run_uses get put [] w = w"
| "run_uses get put (u # us) w =
     run_uses get put us (case u of Read k \<Rightarrow> snd (get k w) | Write k d \<Rightarrow> put k d w)"

locale stats_cache =
  fixes get :: "string \<Rightarrow> 'w \<Rightarrow> ('e + stats_response option) \<times> 'w"
    and put :: "string \<Rightarrow> stats_response \<Rightarrow> 'w \<Rightarrow> 'w"
    and now :: "'w \<Rightarrow> int"
    and stored :: "'w \<Rightarrow> string \<Rightarrow> (stats_response \<times> int) option"
    and ttl :: "'w \<Rightarrow> int"
  assumes stored_put: "stored (put k d w) = (stored w)(k \<mapsto> (d, now w))"
    and get_fresh: "stored w k = Some (d, t) \<Longrightarrow> now w - t < ttl w \<Longrightarrow>
      fst (get k w) = Inr (Some d) \<and> stored (snd (get k w)) = stored w"
    and get_stale: "stored w k = Some (d, t) \<Longrightarrow> ttl w \<le> now w - t \<Longrightarrow>
      fst (get k w) = Inr None"
    and get_none: "stored w k = None \<Longrightarrow> fst (get k w) = Inr None"
    and get_other: "k' \<noteq> k \<Longrightarrow> stored (snd (get k w)) k' = stored w k'"
    and ttl_get: "ttl (snd (get k w)) = ttl w"
    and ttl_put: "ttl (put k d w) = ttl w"
begin

text \<open>Data stays available as long as no clock reading on the way reaches its expiry and the key
  is not written again.\<close>

lemma stored_run:
  assumes "stored w k = Some (d, t)" and "\<And>d'. Write k d' \<notin> set us"
    and "\<And>n. n \<le> length us \<Longrightarrow> now (run_uses get put (take n us) w) - t < ttl w"
  shows "stored (run_uses get put us w) k = Some (d, t) \<and> ttl (run_uses get put us w) = ttl w"
  using assms
proof (induction us arbitrary: w)
  case (Cons u us)
  let ?w = "case u of Read k \<Rightarrow> snd (get k w) | Write k d \<Rightarrow> put k d w"
  have now0: "now w - t < ttl w" using Cons.prems(3) [of 0] by simp
  have ttl: "ttl ?w = ttl w" by (auto simp: ttl_get ttl_put split: cache_use.split)
  have kept: "stored ?w k = Some (d, t)"
  proof (cases u)
    case (Read k')
    then show ?thesis using get_fresh [OF Cons.prems(1) now0] get_other [of k k'] Cons.prems(1)
      by (cases "k' = k") auto
  next
    case (Write k' d')
    then have "k' \<noteq> k" using Cons.prems(2) by auto
    then show ?thesis using Write Cons.prems(1) by (simp add: stored_put)
  qed
  have "stored (run_uses get put us ?w) k = Some (d, t) \<and> ttl (run_uses get put us ?w) = ttl ?w"
  proof (rule Cons.IH [OF kept])
    show "\<And>d'. Write k d' \<notin> set us" using Cons.prems(2) by auto
    fix n assume "n \<le> length us"
    then show "now (run_uses get put (take n us) ?w) - t < ttl ?w"
      using Cons.prems(3) [of "Suc n"] by (simp only: ttl) simp
  qed
  then show ?case by (simp add: ttl)
qed simp

lemma served_until_expiry:
  assumes "\<And>d'. Write k d' \<notin> set us"
    and "\<And>n. n \<le> length us \<Longrightarrow>
      now (run_uses get put (take n us) (put k d w)) - now w < ttl w"
  shows "fst (get k (run_uses get put us (put k d w))) = Inr (Some d)"
proof -
  have "stored (put k d w) k = Some (d, now w)" by (simp add: stored_put)
  from stored_run [OF this assms(1)] assms(2)
  have "stored (run_uses get put us (put k d w)) k = Some (d, now w)"
    "ttl (run_uses get put us (put k d w)) = ttl w" by (auto simp: ttl_put)
  with assms(2) [of "length us"] show ?thesis by (simp add: get_fresh)
qed

lemma not_served_after_expiry:
  assumes "ttl w \<le> now (put k d w) - now w"
  shows "fst (get k (put k d w)) = Inr None"
  using get_stale [of "put k d w" k d "now w"] assms by (simp add: stored_put ttl_put)

end

section \<open>The driver's cache keeps the contract\<close>

lemmas cache_defs =
  stats_get_def cache_get_def cache_refresh_def getInternal_def volStatsGetter_def cache_set_def
  stats_stored_def syscall_def Let_def

lemma stats_stored_set:
  "stats_stored (cache_set os k d w) = (stats_stored w)(k \<mapsto> (d, os_now os (w_trace w)))"
  by (auto simp: cache_defs map_of_AList_update fun_eq_iff)

lemma stats_get_fresh:
  "stats_stored w k = Some (d, t) \<Longrightarrow> os_now os (w_trace w) - t < cache_ttl (w_stats w) \<Longrightarrow>
   stats_get os k w = (Inr (Some d), w\<lparr>w_trace := w_trace w @ [CNow]\<rparr>)"
  by (auto simp: cache_defs split: option.splits)

lemma stats_get_stale:
  "stats_stored w k = Some (d, t) \<Longrightarrow> cache_ttl (w_stats w) \<le> os_now os (w_trace w) - t \<Longrightarrow>
   fst (stats_get os k w) = Inr None"
  by (auto simp: cache_defs split: option.splits)

lemma stats_get_none: "stats_stored w k = None \<Longrightarrow> fst (stats_get os k w) = Inr None"
  by (auto simp: cache_defs split: option.splits)

lemma stats_get_other:
  "k' \<noteq> k \<Longrightarrow> stats_stored (snd (stats_get os k w)) k' = stats_stored w k'"
  by (auto simp: cache_defs map_of_AList_update split: option.splits)

lemma stats_get_ttl: "cache_ttl (w_stats (snd (stats_get os k w))) = cache_ttl (w_stats w)"
  by (auto simp: cache_defs split: option.splits)

lemma stats_set_ttl: "cache_ttl (w_stats (cache_set os k d w)) = cache_ttl (w_stats w)"
  by (auto simp: cache_defs)

interpretation sc: stats_cache "stats_get os" "cache_set os" "\<lambda>w. os_now os (w_trace w)"
  stats_stored "\<lambda>w. cache_ttl (w_stats w)" for os :: os
proof unfold_locales
  fix k d t and w :: "'a world"
  assume *: "stats_stored w k = Some (d, t)" "os_now os (w_trace w) - t < cache_ttl (w_stats w)"
  from stats_get_fresh [OF *]
  show "fst (stats_get os k w) = Inr (Some d) \<and>
      stats_stored (snd (stats_get os k w)) = stats_stored w"
    by (simp add: stats_stored_def fun_eq_iff)
qed (simp_all add: stats_stored_set stats_get_stale stats_get_none stats_get_other stats_get_ttl
      stats_set_ttl)

text \<open>\<open>Update\<close> keeps the same contract, and equals \<open>Set\<close>; a deleted key is absent.\<close>

lemma cache_update_eq_set: "cache_update os k d w = cache_set os k d w"
proof -
  have entry: "entry\<lparr>entry_data := Some d, entry_createdOn := t\<rparr> = \<lparr>entry_data = Some d, entry_createdOn = t\<rparr>"
    for entry :: cache_entry and t by simp
  show ?thesis
    by (auto simp: cache_update_def cache_set_def getInternal_def syscall_def Let_def entry
        split: option.splits)
qed

lemma cache_delete_stored: "stats_stored (cache_delete k w) = (stats_stored w)(k := None)"
  by (auto simp: cache_delete_def stats_stored_def AList.delete_conv' fun_eq_iff)

text \<open>A read never fails, and apart from the clock readings and the cache it leaves the world
  alone.\<close>

lemma stats_get_frame:
  "stats_get os k w = (r, w') \<Longrightarrow>
   (\<exists>d. r = Inr d) \<and> only_calls (\<lambda>c. c = CNow) w (w'\<lparr>w_stats := w_stats w\<rparr>)"
  by (auto simp: cache_defs split: option.splits if_splits)

lemma cache_set_frame:
  "only_calls (\<lambda>c. c = CNow) w ((cache_set os k d w)\<lparr>w_stats := w_stats w\<rparr>)"
  by (simp add: cache_defs)

end
