(* ===== verification/Driver.thy ===== *)
theory Driver
  imports Utils TimedCache
begin

text \<open>
  The driver object of \<open>pkg/nfs/nfs.go\<close> and how it is built.  The volume locks and the statistics
  cache, which the Go object points to, are part of the shared world; \<open>NewDriver\<close> returns their
  initial values beside the object.
\<close>

section \<open>Data\<close>

datatype controller_cap =
    CREATE_DELETE_VOLUME | PUBLISH_UNPUBLISH_VOLUME | PUBLISH_READONLY
  | SINGLE_NODE_MULTI_WRITER | CLONE_VOLUME | CREATE_DELETE_SNAPSHOT

datatype node_cap = GET_VOLUME_STATS | NODE_SINGLE_NODE_MULTI_WRITER | UNKNOWN

text \<open>The capability messages: each has an \<open>Rpc\<close> of one of the types above.\<close>

datatype ControllerServiceCapability = ControllerServiceCapability_Rpc controller_cap

datatype NodeServiceCapability = NodeServiceCapability_Rpc node_cap

text \<open>A node server is its driver and a mounter; all that the code asks of the mounter itself is
  whether it implements \<open>MounterForceUnmounter\<close>.  A controller server is its driver and a
  possibly nil load balancing controller.\<close>

record node_server =
  ns_forceUnmounter :: bool

record controller_server =
  cs_hasLB :: bool

record DriverOptions =
  o_NodeID :: string
  o_DriverName :: string
  o_Endpoint :: string
  o_MountPermissions :: "64 word"
  o_WorkingMountDir :: string
  o_DefaultOnDeletePolicy :: string
  o_VolStatsCacheExpireInMinutes :: "64 word"
  o_IPList :: "string list"
  o_RunControllerServer :: bool
  o_RunNodeServer :: bool

record driver =
  d_name :: string
  d_nodeID :: string
  d_version :: string
  d_endpoint :: string
  d_mountPermissions :: "64 word"
  d_workingMountDir :: string
  d_defaultOnDeletePolicy :: string
  d_ns :: "node_server option"
  d_cs :: "controller_server option"
  d_cscap :: "ControllerServiceCapability list"
  d_nscap :: "NodeServiceCapability list"
  d_volStatsCacheExpireInMinutes :: "64 word"
  d_ipList :: "string list"
  d_runControllerServer :: bool
  d_runNodeServer :: bool

section \<open>Construction\<close>

definition NewControllerServiceCapability :: "controller_cap \<Rightarrow> ControllerServiceCapability" where
  "NewControllerServiceCapability c = ControllerServiceCapability_Rpc c"

definition NewNodeServiceCapability :: "node_cap \<Rightarrow> NodeServiceCapability" where
  "NewNodeServiceCapability c = NodeServiceCapability_Rpc c"

text \<open>Both loops build the capability messages one by one.\<close>

definition AddControllerServiceCapabilities :: "controller_cap list \<Rightarrow> driver \<Rightarrow> driver" where
  "AddControllerServiceCapabilities cl n =
     n\<lparr>d_cscap := fold (\<lambda>c csc. csc @ [NewControllerServiceCapability c]) cl []\<rparr>"

definition AddNodeServiceCapabilities :: "node_cap list \<Rightarrow> driver \<Rightarrow> driver" where
  "AddNodeServiceCapabilities nl n =
     n\<lparr>d_nscap := fold (\<lambda>c nsc. nsc @ [NewNodeServiceCapability c]) nl []\<rparr>"

text \<open>\<open>time.Duration(m) * time.Minute\<close>: a product of 64-bit signed integers, which wraps.\<close>

definition minutes_to_duration :: "64 word \<Rightarrow> int" where
  "minutes_to_duration m = sint (m * 60000000000)"

definition statsCacheMinutes :: "64 word \<Rightarrow> 64 word" where
  "statsCacheMinutes m = (if sint m \<le> 0 then 10 else m)"

text \<open>The fields of \<open>Driver\<close> that the composite literal does not name have their zero value.\<close>

definition driver_fields :: "string \<Rightarrow> DriverOptions \<Rightarrow> driver" where
  "driver_fields driverVersion options =
     \<lparr>d_name = o_DriverName options,
      d_nodeID = o_NodeID options,
      d_version = driverVersion,
      d_endpoint = o_Endpoint options,
      d_mountPermissions = o_MountPermissions options,
      d_workingMountDir = o_WorkingMountDir options,
      d_defaultOnDeletePolicy = '''',
      d_ns = None,
      d_cs = None,
      d_cscap = [],
      d_nscap = [],
      d_volStatsCacheExpireInMinutes = o_VolStatsCacheExpireInMinutes options,
      d_ipList = o_IPList options,
      d_runControllerServer = o_RunControllerServer options,
      d_runNodeServer = o_RunNodeServer options\<rparr>"

definition NewDriver :: "string \<Rightarrow> DriverOptions \<Rightarrow> driver \<times> locks \<times> timed_cache" where
  "NewDriver driverVersion options =
     (let n = driver_fields driverVersion options;
          n = AddControllerServiceCapabilities
                [CREATE_DELETE_VOLUME, PUBLISH_UNPUBLISH_VOLUME, PUBLISH_READONLY,
                 SINGLE_NODE_MULTI_WRITER, CLONE_VOLUME, CREATE_DELETE_SNAPSHOT] n;
          n = AddNodeServiceCapabilities
                [GET_VOLUME_STATS, NODE_SINGLE_NODE_MULTI_WRITER, UNKNOWN] n
      in (n, NewVolumeLocks,
          NewTimedCache
            (minutes_to_duration (statsCacheMinutes (o_VolStatsCacheExpireInMinutes options)))))"

text \<open>The identity server is a pointer to the driver.\<close>

record IdentityServer =
  ids_Driver :: driver

definition NewDefaultIdentityServer :: "driver \<Rightarrow> IdentityServer" where
  "NewDefaultIdentityServer d = \<lparr>ids_Driver = d\<rparr>"

definition NewNodeServer :: "bool \<Rightarrow> node_server" where
  "NewNodeServer force = \<lparr>ns_forceUnmounter = force\<rparr>"

section \<open>Lemmas\<close>

lemma sint_minutes:
  assumes "0 \<le> m" and "m \<le> 153722867"
  shows "sint (of_int m * 60000000000 :: 64 word) = m * 60000000000"
proof -
  have "of_int m * 60000000000 = (of_int (m * 60000000000) :: 64 word)" by simp
  then show ?thesis
    using assms by (simp only: sint_sbintrunc' signed_take_bit_int_eq_self of_int_sint)
      (simp add: signed_of_int signed_take_bit_int_eq_self)
qed

lemma statsCacheMinutes_sint: "sint (statsCacheMinutes m) = (if sint m \<le> 0 then 10 else sint m)"
  by (simp add: statsCacheMinutes_def)

lemma NewDriver_cache:
  "snd (snd (NewDriver v options)) =
     NewTimedCache (minutes_to_duration (statsCacheMinutes (o_VolStatsCacheExpireInMinutes options)))"
  by (simp add: NewDriver_def Let_def)

section \<open>Properties\<close>

text \<open>The time to live of the statistics cache is the configured number of minutes, and ten
  minutes when that is zero or negative: up to 153722867 minutes, about 292 years, the product with
  the 60000000000 nanoseconds of a minute fits in 64 bits and does not wrap around.\<close>

lemma stats_cache_ttl:
  assumes "sint (o_VolStatsCacheExpireInMinutes options) \<le> 153722867"
  shows "cache_ttl (snd (snd (NewDriver version options))) =
    (if sint (o_VolStatsCacheExpireInMinutes options) \<le> 0 then 10
     else sint (o_VolStatsCacheExpireInMinutes options)) * 60000000000"
proof -
  let ?m = "statsCacheMinutes (o_VolStatsCacheExpireInMinutes options)"
  have "of_int (sint ?m) = ?m" by simp
  moreover have "0 \<le> sint ?m" "sint ?m \<le> 153722867" using assms by (auto simp: statsCacheMinutes_sint)
  ultimately have "sint (?m * 60000000000) = sint ?m * 60000000000"
    using sint_minutes [of "sint ?m"] by simp
  then show ?thesis
    by (simp add: NewDriver_cache NewTimedCache_def minutes_to_duration_def statsCacheMinutes_sint)
qed

end
