(* ===== verification/MountHelpers.thy ===== *)
theory MountHelpers
  imports OsModel
begin

text \<open>
  The mount clean-up of \<open>k8s.io/mount-utils\<close> (\<open>mount_helper_common.go\<close>, as vendored), which
  \<open>NodeUnpublishVolume\<close> relies on, and \<open>chmodIfPermissionMismatch\<close>, \<open>makeDir\<close> and
  \<open>IsCorruptedDir\<close> of the driver.  A function here returns an error (\<open>None\<close> for nil) and the
  world after it.
\<close>

section \<open>mount-utils\<close>

definition IsCorruptedMnt :: "os_error \<Rightarrow> bool" where
  "IsCorruptedMnt e \<longleftrightarrow> kind e = ECorrupted \<or> kind e = EAcces"

text \<open>\<open>IsNotMountPoint\<close> reports true together with the error when the check fails.\<close>

definition IsNotMountPoint ::
  "os \<Rightarrow> string \<Rightarrow> 'api world \<Rightarrow> (bool \<times> os_error option) \<times> 'api world" where
  "IsNotMountPoint os file w =
     (case syscall (CIsMountPoint file) (\<lambda>h. os_isMountPoint os h file) w of
        (Inl e, w') \<Rightarrow> ((True, Some e), w')
      | (Inr isMnt, w') \<Rightarrow> ((\<not> isMnt, None), w'))"

definition removePathIfNotMountPoint ::
  "os \<Rightarrow> string \<Rightarrow> bool \<Rightarrow> 'api world \<Rightarrow> (bool \<times> go_error option) \<times> 'api world" where
  "removePathIfNotMountPoint os mountPath extensive w =
     (case (if extensive then IsNotMountPoint os mountPath w
            else syscall (CIsLikelyNotMountPoint mountPath)
              (\<lambda>h. os_isLikelyNotMountPoint os h mountPath) w) of
        ((notMnt, Some e), w') \<Rightarrow>
          if IsNotExist e then ((True, None), w') else ((notMnt, Some (OsError e)), w')
      | ((notMnt, None), w') \<Rightarrow>
          if notMnt then
            (case syscall (CRemove mountPath) (\<lambda>h. os_remove os h mountPath) w' of
               (e, w'') \<Rightarrow> ((notMnt, map_option OsError e), w''))
          else ((notMnt, None), w'))"

definition removePath :: "os \<Rightarrow> string \<Rightarrow> 'api world \<Rightarrow> go_error option \<times> 'api world" where
  "removePath os mountPath w =
     (case syscall (CRemove mountPath) (\<lambda>h. os_remove os h mountPath) w of
        (Some e, w') \<Rightarrow> if IsNotExist e then (None, w') else (Some (OsError e), w')
      | (None, w') \<Rightarrow> (None, w'))"

text \<open>\<open>doCleanupMountPoint\<close> and the second half of \<open>CleanupMountWithForce\<close> differ only in the
  unmount they call.\<close>

definition cleanup_with ::
  "('api world \<Rightarrow> os_error option \<times> 'api world) \<Rightarrow> os \<Rightarrow> string \<Rightarrow> bool \<Rightarrow> bool \<Rightarrow> 'api world
   \<Rightarrow> go_error option \<times> 'api world" where
  "cleanup_with unmount os mountPath extensive corruptedMnt w =
     (if corruptedMnt \<or> os_canSkip os then
        (case unmount w of
           (Some e, w') \<Rightarrow> (Some (OsError e), w')
         | (None, w') \<Rightarrow> removePath os mountPath w')
      else
        (case removePathIfNotMountPoint os mountPath extensive w of
           ((notMnt, err), w1) \<Rightarrow>
             if err \<noteq> None \<or> notMnt then (err, w1)
             else
               (case unmount w1 of
                  (Some e, w2) \<Rightarrow> (Some (OsError e), w2)
                | (None, w2) \<Rightarrow>
                    (case removePathIfNotMountPoint os mountPath extensive w2 of
                       ((notMnt, err), w3) \<Rightarrow>
                         if notMnt then (err, w3)
                         else (Some (Errorf ''failed to cleanup mount point %v''), w3)))))"

definition unmount_call :: "os \<Rightarrow> string \<Rightarrow> 'api world \<Rightarrow> os_error option \<times> 'api world" where
  "unmount_call os mountPath = syscall (CUnmount mountPath) (\<lambda>h. os_unmount os h mountPath)"

definition unmount_force_call :: "os \<Rightarrow> string \<Rightarrow> 'api world \<Rightarrow> os_error option \<times> 'api world" where
  "unmount_force_call os mountPath =
     syscall (CUnmountWithForce mountPath) (\<lambda>h. os_unmountWithForce os h mountPath)"

definition doCleanupMountPoint ::
  "os \<Rightarrow> string \<Rightarrow> bool \<Rightarrow> bool \<Rightarrow> 'api world \<Rightarrow> go_error option \<times> 'api world" where
  "doCleanupMountPoint os mountPath = cleanup_with (unmount_call os mountPath) os mountPath"

definition CleanupMountPoint ::
  "os \<Rightarrow> string \<Rightarrow> bool \<Rightarrow> 'api world \<Rightarrow> go_error option \<times> 'api world" where
  "CleanupMountPoint os mountPath extensive w =
     (case syscall (CPathExists mountPath) (\<lambda>h. os_pathExists os h mountPath) w of
        ((pathExists, pathErr), w') \<Rightarrow>
          if \<not> pathExists \<and> pathErr = None then (None, w')
          else
            let corruptedMnt = (case pathErr of None \<Rightarrow> False | Some e \<Rightarrow> IsCorruptedMnt e) in
            if pathErr \<noteq> None \<and> \<not> corruptedMnt then (Some (Errorf ''Error checking path: %v''), w')
            else doCleanupMountPoint os mountPath extensive corruptedMnt w')"

definition CleanupMountWithForce ::
  "os \<Rightarrow> string \<Rightarrow> bool \<Rightarrow> 'api world \<Rightarrow> go_error option \<times> 'api world" where
  "CleanupMountWithForce os mountPath extensive w =
     (case syscall (CPathExists mountPath) (\<lambda>h. os_pathExists os h mountPath) w of
        ((pathExists, pathErr), w') \<Rightarrow>
          if \<not> pathExists \<and> pathErr = None then (None, w')
          else
            let corruptedMnt = (case pathErr of None \<Rightarrow> False | Some e \<Rightarrow> IsCorruptedMnt e) in
            if pathErr \<noteq> None \<and> \<not> corruptedMnt then (Some (Errorf ''Error checking path: %v''), w')
            else cleanup_with (unmount_force_call os mountPath) os mountPath extensive corruptedMnt w')"

section \<open>Driver helpers\<close>

definition ModePerm :: mode where
  "ModePerm = 0x1FF"

definition chmodIfPermissionMismatch ::
  "os \<Rightarrow> string \<Rightarrow> mode \<Rightarrow> 'api world \<Rightarrow> os_error option \<times> 'api world" where
  "chmodIfPermissionMismatch os targetPath mode w =
     (case syscall (CLstat targetPath) (\<lambda>h. os_lstat os h targetPath) w of
        (Inl e, w') \<Rightarrow> (Some e, w')
      | (Inr info, w') \<Rightarrow>
          if info AND ModePerm \<noteq> mode
          then syscall (CChmod targetPath mode) (\<lambda>h. os_chmod os h targetPath mode) w'
          else (None, w'))"

definition makeDir :: "os \<Rightarrow> string \<Rightarrow> 'api world \<Rightarrow> os_error option \<times> 'api world" where
  "makeDir os pathname w =
     (case syscall (CMkdirAll pathname 0x1ED) (\<lambda>h. os_mkdirAll os h pathname 0x1ED) w of
        (Some e, w') \<Rightarrow> if IsExist e then (None, w') else (Some e, w')
      | (None, w') \<Rightarrow> (None, w'))"

definition IsCorruptedDir :: "os \<Rightarrow> string \<Rightarrow> 'api world \<Rightarrow> bool \<times> 'api world" where
  "IsCorruptedDir os dir w =
     (case syscall (CPathExists dir) (\<lambda>h. os_pathExists os h dir) w of
        ((_, pathErr), w') \<Rightarrow>
          ((case pathErr of None \<Rightarrow> False | Some e \<Rightarrow> IsCorruptedMnt e), w'))"

section \<open>What the helpers touch\<close>

text \<open>The last call confirmed that the path is gone.\<close>

definition gone :: "os \<Rightarrow> string \<Rightarrow> 'api world \<Rightarrow> bool" where
  "gone os p w \<longleftrightarrow>
     (\<exists>h. w_trace w = h @ [CPathExists p] \<and> os_pathExists os h p = (False, None)) \<or>
     (\<exists>h e. w_trace w = h @ [CIsMountPoint p] \<and> os_isMountPoint os h p = Inl e \<and> IsNotExist e) \<or>
     (\<exists>h. w_trace w = h @ [CRemove p] \<and>
        (case os_remove os h p of None \<Rightarrow> True | Some e \<Rightarrow> IsNotExist e))"

text \<open>The calls on one path that the clean-up may make.\<close>

definition cleanup_call :: "string \<Rightarrow> oscall \<Rightarrow> bool" where
  "cleanup_call p c \<longleftrightarrow>
     c \<in> {CPathExists p, CIsMountPoint p, CIsLikelyNotMountPoint p, CRemove p, CUnmount p,
         CUnmountWithForce p}"

lemma removePathIfNotMountPoint_calls:
  "removePathIfNotMountPoint os p ext w = (r, w') \<Longrightarrow> only_calls (cleanup_call p) w w'"
  by (auto simp: removePathIfNotMountPoint_def IsNotMountPoint_def cleanup_call_def
      split: sum.splits prod.splits option.splits if_splits)

lemma removePath_calls: "removePath os p w = (r, w') \<Longrightarrow> only_calls (cleanup_call p) w w'"
  by (auto simp: removePath_def cleanup_call_def split: prod.splits option.splits if_splits)

lemma cleanup_with_calls:
  assumes "cleanup_with unmount os p ext corrupted w = (r, w')"
    and "\<And>w r w'. unmount w = (r, w') \<Longrightarrow> only_calls (cleanup_call p) w w'"
  shows "only_calls (cleanup_call p) w w'"
  using assms(1)
  by (auto simp: cleanup_with_def split: prod.splits option.splits if_splits
      dest!: assms(2) removePathIfNotMountPoint_calls removePath_calls intro: only_calls_trans)

lemma unmount_call_calls:
  "unmount_call os p w = (r, w') \<Longrightarrow> only_calls (cleanup_call p) w w'"
  "unmount_force_call os p w = (r, w') \<Longrightarrow> only_calls (cleanup_call p) w w'"
  by (auto simp: unmount_call_def unmount_force_call_def cleanup_call_def)

lemma CleanupMountPoint_calls:
  "CleanupMountPoint os p ext w = (r, w') \<Longrightarrow> only_calls (cleanup_call p) w w'"
  by (auto simp: CleanupMountPoint_def doCleanupMountPoint_def Let_def cleanup_call_def
      split: prod.splits if_splits
      dest!: cleanup_with_calls [OF _ unmount_call_calls(1)] intro: only_calls_first)

lemma CleanupMountWithForce_calls:
  "CleanupMountWithForce os p ext w = (r, w') \<Longrightarrow> only_calls (cleanup_call p) w w'"
  by (auto simp: CleanupMountWithForce_def Let_def cleanup_call_def
      split: prod.splits if_splits
      dest!: cleanup_with_calls [OF _ unmount_call_calls(2)] intro: only_calls_first)

lemma chmodIfPermissionMismatch_calls:
  "chmodIfPermissionMismatch os p m w = (r, w') \<Longrightarrow>
   only_calls (\<lambda>c. c = CLstat p \<or> c = CChmod p m) w w'"
  by (auto simp: chmodIfPermissionMismatch_def split: prod.splits sum.splits if_splits)

lemma removePathIfNotMountPoint_gone:
  "removePathIfNotMountPoint os p True w = ((True, None), w') \<Longrightarrow> gone os p w'"
  by (auto simp: removePathIfNotMountPoint_def IsNotMountPoint_def gone_def
      split: sum.splits prod.splits option.splits if_splits)

lemma removePath_gone: "removePath os p w = (None, w') \<Longrightarrow> gone os p w'"
  by (auto simp: removePath_def gone_def split: prod.splits option.splits if_splits)

lemma cleanup_with_gone:
  "cleanup_with unmount os p True corrupted w = (None, w') \<Longrightarrow> gone os p w'"
  by (auto simp: cleanup_with_def split: prod.splits option.splits if_splits
      dest: removePathIfNotMountPoint_gone removePath_gone)

lemma Cleanup_gone:
  "CleanupMountPoint os p True w = (None, w') \<Longrightarrow> gone os p w'"
  "CleanupMountWithForce os p True w = (None, w') \<Longrightarrow> gone os p w'"
  by (auto simp: CleanupMountPoint_def doCleanupMountPoint_def CleanupMountWithForce_def Let_def
      gone_def [of os p "w\<lparr>w_trace := w_trace w @ [CPathExists p]\<rparr>"]
      split: prod.splits if_splits dest: cleanup_with_gone)

end
