(* ===== verification/FakeMounter.thy ===== *)
theory FakeMounter
  imports OsModel
begin

text \<open>
  The mounter of \<open>pkg/nfs/fake_mounter.go\<close>, and a small operating system that tracks mounts and
  directories through the history of calls.  The witnesses of the handlers' properties run on it.
\<close>

section \<open>fakeMounter\<close>

definition fake_error :: "string \<Rightarrow> os_error" where
  "fake_error m = \<lparr>kind = EOther, text_of = m\<rparr>"

definition fake_Mount :: "string \<Rightarrow> string \<Rightarrow> os_error option" where
  "fake_Mount source target =
     (if Contains source ''error_mount'' then Some (fake_error ''fake Mount: source error'')
      else if Contains target ''error_mount'' then Some (fake_error ''fake Mount: target error'')
      else None)"

definition fake_MountSensitive :: "string \<Rightarrow> string \<Rightarrow> os_error option" where
  "fake_MountSensitive source target =
     (if Contains source ''error_mount_sens''
      then Some (fake_error ''fake MountSensitive: source error'')
      else if Contains target ''error_mount_sens''
      then Some (fake_error ''fake MountSensitive: target error'')
      else None)"

definition fake_IsLikelyNotMountPoint :: "string \<Rightarrow> bool \<times> os_error option" where
  "fake_IsLikelyNotMountPoint file =
     (if Contains file ''error_is_likely''
      then (False, Some (fake_error ''fake IsLikelyNotMountPoint: fake error''))
      else if Contains file ''false_is_likely'' then (False, None)
      else (True, None))"

text \<open>The mounter that \<open>NewFakeMounter\<close> returns dispatches to these methods, and to those of the
  embedded \<open>mount.FakeMounter\<close> for the rest of the interface.\<close>

record fakeMounter =
  fm_Mount :: "string \<Rightarrow> string \<Rightarrow> os_error option"
  fm_MountSensitive :: "string \<Rightarrow> string \<Rightarrow> os_error option"
  fm_IsLikelyNotMountPoint :: "string \<Rightarrow> bool \<times> os_error option"

definition NewFakeMounter :: "fakeMounter \<times> os_error option" where
  "NewFakeMounter =
     (\<lparr>fm_Mount = fake_Mount, fm_MountSensitive = fake_MountSensitive,
       fm_IsLikelyNotMountPoint = fake_IsLikelyNotMountPoint\<rparr>, None)"

section \<open>An operating system with a memory\<close>

fun now_mounted :: "string \<Rightarrow> bool \<Rightarrow> oscall list \<Rightarrow> bool" where
  "now_mounted p b [] = b"
| "now_mounted p b (CMount s t f opts # h) = now_mounted p (t = p \<or> b) h"
| "now_mounted p b (CUnmount q # h) = now_mounted p (q \<noteq> p \<and> b) h"
| "now_mounted p b (CUnmountWithForce q # h) = now_mounted p (q \<noteq> p \<and> b) h"
| "now_mounted p b (_ # h) = now_mounted p b h"

fun now_exists :: "string \<Rightarrow> bool \<Rightarrow> oscall list \<Rightarrow> bool" where
  "now_exists p b [] = b"
| "now_exists p b (CMkdirAll q m # h) = now_exists p (q = p \<or> b) h"
| "now_exists p b (CRemove q # h) = now_exists p (q \<noteq> p \<and> b) h"
| "now_exists p b (CRemoveAll q # h) = now_exists p (q \<noteq> p \<and> b) h"
| "now_exists p b (_ # h) = now_exists p b h"

definition no_entry :: os_error where
  "no_entry = \<lparr>kind = ENotExist, text_of = ''no such file or directory''\<rparr>"

text \<open>Nothing exists at first; every operation succeeds where it can; the clock counts calls; the
  executed programs print \<open>42\<close>; the mount fails as in \<open>fakeMounter\<close>.\<close>

definition sample_os :: os where
  "sample_os =
     \<lparr>os_isLikelyNotMountPoint = (\<lambda>h p. if now_exists p False h
        then (\<not> now_mounted p False h, None) else (True, Some no_entry)),
      os_isMountPoint = (\<lambda>h p. if now_exists p False h
        then Inr (now_mounted p False h) else Inl no_entry),
      os_pathExists = (\<lambda>h p. (now_exists p False h, None)),
      os_mkdirAll = (\<lambda>h p m. None),
      os_mount = (\<lambda>h s t f opts. fm_Mount (fst NewFakeMounter) s t),
      os_unmount = (\<lambda>h p. None),
      os_unmountWithForce = (\<lambda>h p. None),
      os_canSkip = False,
      os_lstat = (\<lambda>h p. if now_exists p False h then Inr 0x1ED else Inl no_entry),
      os_stat = (\<lambda>h p. if now_exists p False h then Inr 1 else Inl no_entry),
      os_chmod = (\<lambda>h p m. None),
      os_remove = (\<lambda>h p. if now_exists p False h then None else Some no_entry),
      os_removeAll = (\<lambda>h p. None),
      os_rename = (\<lambda>h p q. None),
      os_walk = (\<lambda>h p. []),
      os_getMetrics = (\<lambda>h p. Inr \<lparr>m_available = Some 70, m_capacity = Some 100, m_used = Some 30,
        m_inodesFree = Some 7, m_inodes = Some 10, m_inodesUsed = Some 3\<rparr>),
      os_exec = (\<lambda>h args. (None, ''42'')),
      os_now = (\<lambda>h. int (length h))\<rparr>"

definition sample_world :: "unit world" where
  "sample_world =
     \<lparr>w_locks = {}, w_trace = [], w_stats = \<lparr>cache_store = [], cache_ttl = 600\<rparr>,
      w_ipMap = [], w_api = ()\<rparr>"

end
