(* ===== verification/NodeServer.thy ===== *)
theory NodeServer
  imports Driver MountHelpers LBController FakeMounter
begin

text \<open>
  The node server of \<open>pkg/nfs/nodeserver.go\<close>: mounting and unmounting volumes under the volume
  locks, the read-ahead setting, and the cached volume statistics.  A handler takes the driver, the
  operating system and the request, and returns its outcome and the world after it.  The \<open>visit\<close>
  arguments are the orders in which the handler ranges over maps.
\<close>

section \<open>Requests\<close>

text \<open>A volume capability is its access type; \<open>NoAccess\<close> is an unset oneof.\<close>

datatype access_type = Block | MountVolume "string list" | NoAccess

primrec GetMountFlags :: "access_type \<Rightarrow> string list" where
  "GetMountFlags Block = []"
| "GetMountFlags (MountVolume flags) = flags"
| "GetMountFlags NoAccess = []"

record NodePublishVolumeRequest =
  np_VolumeId :: string
  np_TargetPath :: string
  np_VolumeCapability :: "access_type option"
  np_Readonly :: bool
  np_VolumeContext :: gomap
  np_PublishContext :: gomap

section \<open>Mount options\<close>

text \<open>The submatch of \<open>^read_ahead_kb=(.+)$\<close>; a dot does not match a line feed.\<close>

definition readAheadKBMatch :: "string \<Rightarrow> string option" where
  "readAheadKBMatch opt =
     (let p = ''read_ahead_kb=''; v = drop (length p) opt in
      if HasPrefix opt p \<and> v \<noteq> [] \<and> CHR 0x0A \<notin> set v then Some v else None)"

fun collectMountOptions :: "string list \<Rightarrow> string list" where
  "collectMountOptions [] = []"
| "collectMountOptions (opt # mntFlags) =
     (if readAheadKBMatch opt \<noteq> None then collectMountOptions mntFlags
      else opt # collectMountOptions mntFlags)"

fun extractReadAheadKBMountFlag :: "string list \<Rightarrow> go_error + int \<times> bool" where
  "extractReadAheadKBMountFlag [] = Inr (-1, False)"
| "extractReadAheadKBMountFlag (mountFlag # mountFlags) =
     (case readAheadKBMatch mountFlag of
        Some v \<Rightarrow>
          (case ParseInt v 10 0 of
             None \<Rightarrow> Inl (Errorf ''invalid read_ahead_kb mount flag %q: %v'')
           | Some n \<Rightarrow>
               if n < 0
               then Inl (Errorf ''invalid negative value for read_ahead_kb mount flag: %q'')
               else Inr (n, True))
      | None \<Rightarrow> extractReadAheadKBMountFlag mountFlags)"

definition bdi_path :: "string \<Rightarrow> string" where
  "bdi_path dev = ''/sys/class/bdi/'' @ dev @ ''/read_ahead_kb''"

definition updateReadAhead ::
  "os \<Rightarrow> string \<Rightarrow> int \<Rightarrow> 'api world \<Rightarrow> go_error option \<times> 'api world" where
  "updateReadAhead os targetMountPath readAheadKB w =
     (let exec = (\<lambda>args. syscall (CExec args) (\<lambda>h. os_exec os h args)) in
      case exec [''mountpoint'', ''-d'', targetMountPath] w of
        ((Some e, _), w1) \<Rightarrow> (Some (Status Internal (text_of e)), w1)
      | ((None, output), w1) \<Rightarrow>
          (let outputStr = TrimSpace output in
           case exec [''sh'', ''-c'',
               ''echo '' @ show_int readAheadKB @ '' > '' @ bdi_path outputStr] w1 of
             ((Some e, _), w2) \<Rightarrow> (Some (Status Internal (text_of e)), w2)
           | ((None, _), w2) \<Rightarrow>
               (case exec [''sh'', ''-c'', ''cat '' @ bdi_path outputStr] w2 of
                  ((Some e, _), w3) \<Rightarrow> (Some (Status Internal (text_of e)), w3)
                | ((None, op), w3) \<Rightarrow>
                    (case ParseInt (TrimSpace op) 10 0 of
                       None \<Rightarrow> (Some (Errorf ''invalid read_ahead_kb %v''), w3)
                     | Some updatedVal \<Rightarrow>
                         if updatedVal \<noteq> readAheadKB
                         then (Some (Errorf ''mismatch in read_ahead_kb, expected %d, got %d''), w3)
                         else (None, w3)))))"

section \<open>NodePublishVolume\<close>

text \<open>The local variables that the loop over the volume context assigns.\<close>

record publish_vars =
  pv_server :: string
  pv_baseDir :: string
  pv_subDir :: string
  pv_replace :: gomap
  pv_options :: "string list"
  pv_permissions :: "64 word"

definition context_step :: "string \<Rightarrow> string \<Rightarrow> publish_vars \<Rightarrow> go_error + publish_vars" where
  "context_step k v p =
     (let key = ToLower k in
      if key = paramServer then Inr (p\<lparr>pv_server := v\<rparr>)
      else if key = paramShare then Inr (p\<lparr>pv_baseDir := v\<rparr>)
      else if key = paramSubDir then Inr (p\<lparr>pv_subDir := v\<rparr>)
      else if key = pvcNamespaceKey
        then Inr (p\<lparr>pv_replace := AList.update pvcNamespaceMetadata v (pv_replace p)\<rparr>)
      else if key = pvcNameKey
        then Inr (p\<lparr>pv_replace := AList.update pvcNameMetadata v (pv_replace p)\<rparr>)
      else if key = pvNameKey
        then Inr (p\<lparr>pv_replace := AList.update pvNameMetadata v (pv_replace p)\<rparr>)
      else if key = mountOptionsField
        then Inr (if v \<noteq> '''' then p\<lparr>pv_options := pv_options p @ [v]\<rparr> else p)
      else if key = mountPermissionsField then
        (if v \<noteq> '''' then
           (case ParseUint v 8 32 of
              None \<Rightarrow> Inl (Status InvalidArgument ''invalid mountPermissions %s'')
            | Some n \<Rightarrow> Inr (p\<lparr>pv_permissions := of_int n\<rparr>))
         else Inr p)
      else Inr p)"

fun context_loop :: "gomap \<Rightarrow> publish_vars \<Rightarrow> go_error + publish_vars" where
  "context_loop [] p = Inr p"
| "context_loop ((k, v) # ctx) p =
     (case context_step k v p of Inl e \<Rightarrow> Inl e | Inr p' \<Rightarrow> context_loop ctx p')"

text \<open>\<open>GetMount().GetMountFlags()\<close>, with \<open>ro\<close> for a read-only publish.\<close>

definition publish_flags :: "access_type \<Rightarrow> bool \<Rightarrow> string list" where
  "publish_flags volCap ro = GetMountFlags volCap @ (if ro then [''ro''] else [])"

definition publish_source :: "visit \<Rightarrow> string \<Rightarrow> publish_vars \<Rightarrow> string" where
  "publish_source ord ip p =
     (let source = ip @ '':'' @ pv_baseDir p in
      if pv_subDir p \<noteq> ''''
      then TrimRight source CHR ''/'' @ ''/'' @ replaceWithMap ord (pv_subDir p) (pv_replace p)
      else source)"

text \<open>\<open>os.FileMode(mountPermissions)\<close>: a conversion from 64 to 32 bits.\<close>

definition FileMode :: "64 word \<Rightarrow> mode" where
  "FileMode p = ucast p"

text \<open>What follows the mount: permissions, then the read-ahead flag, which is parsed only here.\<close>

definition publish_mounted ::
  "os \<Rightarrow> string \<Rightarrow> publish_vars \<Rightarrow> 'api world \<Rightarrow> unit outcome \<times> 'api world" where
  "publish_mounted os targetPath p w =
     (case (if pv_permissions p > 0
            then chmodIfPermissionMismatch os targetPath (FileMode (pv_permissions p)) w
            else (None, w)) of
        (Some e, w1) \<Rightarrow> (Fail (Status Internal (text_of e)), w1)
      | (None, w1) \<Rightarrow>
          (case extractReadAheadKBMountFlag (pv_options p) of
             Inl e \<Rightarrow> (Fail (Status InvalidArgument (err_text e)), w1)
           | Inr (readAheadKB, shouldUpdateReadAhead) \<Rightarrow>
               if shouldUpdateReadAhead then
                 (case updateReadAhead os targetPath readAheadKB w1 of
                    (Some e, w2) \<Rightarrow> (Fail (Status Internal (err_text e)), w2)
                  | (None, w2) \<Rightarrow> (Return (), w2))
               else (Return (), w1)))"

definition mount_error :: "os_error \<Rightarrow> go_error" where
  "mount_error e =
     (if IsPermission e then Status PermissionDenied (text_of e)
      else if Contains (text_of e) ''invalid argument'' then Status InvalidArgument (text_of e)
      else Status Internal (text_of e))"

definition publish_mount ::
  "os \<Rightarrow> string \<Rightarrow> string \<Rightarrow> publish_vars \<Rightarrow> 'api world \<Rightarrow> unit outcome \<times> 'api world" where
  "publish_mount os source targetPath p w =
     (let opts = collectMountOptions (pv_options p) in
      case syscall (CMount source targetPath ''nfs'' opts)
             (\<lambda>h. os_mount os h source targetPath ''nfs'' opts) w of
        (Some e, w1) \<Rightarrow> (Fail (mount_error e), w1)
      | (None, w1) \<Rightarrow> publish_mounted os targetPath p w1)"

text \<open>The check of the target, which is created if it does not exist.\<close>

definition publish_target ::
  "os \<Rightarrow> string \<Rightarrow> string \<Rightarrow> publish_vars \<Rightarrow> 'api world \<Rightarrow> unit outcome \<times> 'api world" where
  "publish_target os source targetPath p w =
     (case syscall (CIsLikelyNotMountPoint targetPath)
             (\<lambda>h. os_isLikelyNotMountPoint os h targetPath) w of
        ((_, Some e), w1) \<Rightarrow>
          if IsNotExist e then
            (let m = FileMode (pv_permissions p) in
             case syscall (CMkdirAll targetPath m) (\<lambda>h. os_mkdirAll os h targetPath m) w1 of
               (Some e', w2) \<Rightarrow> (Fail (Status Internal (text_of e')), w2)
             | (None, w2) \<Rightarrow> publish_mount os source targetPath p w2)
          else (Fail (Status Internal (text_of e)), w1)
      | ((notMnt, None), w1) \<Rightarrow>
          if \<not> notMnt then (Return (), w1) else publish_mount os source targetPath p w1)"

text \<open>The variables after the loop over the volume context; \<open>GetVolumeContext\<close> is ranged over in
  the order \<open>ord\<close>.\<close>

definition publish_context ::
  "driver \<Rightarrow> visit \<Rightarrow> NodePublishVolumeRequest \<Rightarrow> access_type \<Rightarrow> go_error + publish_vars" where
  "publish_context d ord req volCap =
     context_loop (range_over ord (np_VolumeContext req))
       \<lparr>pv_server = '''', pv_baseDir = '''', pv_subDir = '''', pv_replace = [],
        pv_options = publish_flags volCap (np_Readonly req),
        pv_permissions = d_mountPermissions d\<rparr>"

definition publish_locked ::
  "driver \<Rightarrow> visit \<Rightarrow> visit \<Rightarrow> os \<Rightarrow> NodePublishVolumeRequest \<Rightarrow> access_type \<Rightarrow> 'api world
   \<Rightarrow> unit outcome \<times> 'api world" where
  "publish_locked d ord ord' os req volCap w =
     (case publish_context d ord req volCap of
        Inl e \<Rightarrow> (Fail e, w)
      | Inr p \<Rightarrow>
          if pv_baseDir p = ''''
          then (Fail (Status InvalidArgument ''%v is a required parameter''), w)
          else
            (case map_of (np_PublishContext req) NodeAnnotation of
               None \<Rightarrow>
                 (Fail (Status InvalidArgument
                    ''NFS server IP not found in PublishContext %v for volume %q''), w)
             | Some ip \<Rightarrow>
                 publish_target os (publish_source ord' ip p) (np_TargetPath req) p w))"

text \<open>The receiver \<open>ns\<close> may be the nil pointer, \<open>None\<close>: the driver keeps one when it is started
  without a node server.  The early checks do not touch it; reaching for its driver panics.\<close>

definition NodePublishVolume ::
  "node_server option \<Rightarrow> driver \<Rightarrow> visit \<Rightarrow> visit \<Rightarrow> os \<Rightarrow> NodePublishVolumeRequest \<Rightarrow> 'api world
   \<Rightarrow> unit outcome \<times> 'api world" where
  "NodePublishVolume ns d ord ord' os req w =
     (case np_VolumeCapability req of
        None \<Rightarrow> (Fail (Status InvalidArgument ''Volume capability missing in request''), w)
      | Some volCap \<Rightarrow>
          if np_VolumeId req = ''''
          then (Fail (Status InvalidArgument ''Volume ID missing in request''), w)
          else if np_TargetPath req = ''''
          then (Fail (Status InvalidArgument ''Target path not provided''), w)
          else if ns = None then (Panics nil_dereference, w)
          else with_lock (nodeLockKey (np_VolumeId req) (np_TargetPath req))
            (publish_locked d ord ord' os req volCap) w)"

section \<open>NodeUnpublishVolume\<close>

definition unpublish_locked ::
  "node_server \<Rightarrow> os \<Rightarrow> string \<Rightarrow> 'api world \<Rightarrow> unit outcome \<times> 'api world" where
  "unpublish_locked ns os targetPath w =
     (case (if ns_forceUnmounter ns then CleanupMountWithForce os targetPath True w
            else CleanupMountPoint os targetPath True w) of
        (Some e, w') \<Rightarrow> (Fail (Status Internal ''failed to unmount target %q: %v''), w')
      | (None, w') \<Rightarrow> (Return (), w'))"

definition NodeUnpublishVolume ::
  "node_server option \<Rightarrow> os \<Rightarrow> string \<Rightarrow> string \<Rightarrow> 'api world \<Rightarrow> unit outcome \<times> 'api world" where
  "NodeUnpublishVolume ns os volumeID targetPath w =
     (if volumeID = '''' then (Fail (Status InvalidArgument ''Volume ID missing in request''), w)
      else if targetPath = ''''
      then (Fail (Status InvalidArgument ''Target path missing in request''), w)
      else
        (case ns of
           None \<Rightarrow> (Panics nil_dereference, w)
         | Some ns' \<Rightarrow> with_lock (nodeLockKey volumeID targetPath) (unpublish_locked ns' os targetPath) w))"

section \<open>Statistics and information\<close>

definition NodeGetInfo :: "node_server option \<Rightarrow> driver \<Rightarrow> string outcome" where
  "NodeGetInfo ns d = (if ns = None then Panics nil_dereference else Return (d_nodeID d))"

definition NodeGetCapabilities ::
  "node_server option \<Rightarrow> driver \<Rightarrow> NodeServiceCapability list outcome" where
  "NodeGetCapabilities ns d = (if ns = None then Panics nil_dereference else Return (d_nscap d))"

definition quantity :: "int option \<Rightarrow> string \<Rightarrow> go_error + int" where
  "quantity q msg = (case q of None \<Rightarrow> Inl (Status Internal msg) | Some n \<Rightarrow> Inr n)"

text \<open>The conversions in the order of the code; the first that fails decides the error.\<close>

definition usage_of_metrics :: "metrics \<Rightarrow> go_error + stats_response" where
  "usage_of_metrics m =
     (case quantity (m_available m) ''failed to transform volume available size(%v)'' of
        Inl e \<Rightarrow> Inl e
      | Inr available \<Rightarrow>
     (case quantity (m_capacity m) ''failed to transform volume capacity size(%v)'' of
        Inl e \<Rightarrow> Inl e
      | Inr capacity \<Rightarrow>
     (case quantity (m_used m) ''failed to transform volume used size(%v)'' of
        Inl e \<Rightarrow> Inl e
      | Inr used \<Rightarrow>
     (case quantity (m_inodesFree m) ''failed to transform disk inodes free(%v)'' of
        Inl e \<Rightarrow> Inl e
      | Inr inodesFree \<Rightarrow>
     (case quantity (m_inodes m) ''failed to transform disk inodes(%v)'' of
        Inl e \<Rightarrow> Inl e
      | Inr inodes \<Rightarrow>
     (case quantity (m_inodesUsed m) ''failed to transform disk inodes used(%v)'' of
        Inl e \<Rightarrow> Inl e
      | Inr inodesUsed \<Rightarrow>
          Inr [\<lparr>u_unit = BYTES, u_available = available, u_total = capacity, u_used = used\<rparr>,
               \<lparr>u_unit = INODES, u_available = inodesFree, u_total = inodes,
                u_used = inodesUsed\<rparr>]))))))"

definition measure_stats ::
  "os \<Rightarrow> string \<Rightarrow> string \<Rightarrow> 'api world \<Rightarrow> stats_response outcome \<times> 'api world" where
  "measure_stats os volumeID volumePath w =
     (case syscall (CLstat volumePath) (\<lambda>h. os_lstat os h volumePath) w of
        (Inl e, w1) \<Rightarrow>
          if IsNotExist e then (Fail (Status NotFound ''path %s does not exist''), w1)
          else (Fail (Status Internal ''failed to stat file %s: %v''), w1)
      | (Inr _, w1) \<Rightarrow>
          (case syscall (CGetMetrics volumePath) (\<lambda>h. os_getMetrics os h volumePath) w1 of
             (Inl e, w2) \<Rightarrow> (Fail (Status Internal ''failed to get metrics: %v''), w2)
           | (Inr m, w2) \<Rightarrow>
               (case usage_of_metrics m of
                  Inl e \<Rightarrow> (Fail e, w2)
                | Inr resp \<Rightarrow> (Return resp, cache_set os volumeID resp w2))))"

definition NodeGetVolumeStats ::
  "node_server option \<Rightarrow> os \<Rightarrow> string \<Rightarrow> string \<Rightarrow> 'api world \<Rightarrow> stats_response outcome \<times> 'api world" where
  "NodeGetVolumeStats ns os volumeID volumePath w =
     (if volumeID = ''''
      then (Fail (Status InvalidArgument ''NodeGetVolumeStats volume ID was empty''), w)
      else if volumePath = ''''
      then (Fail (Status InvalidArgument ''NodeGetVolumeStats volume path was empty''), w)
      else if ns = None then (Panics nil_dereference, w)
      else
        (case stats_get os volumeID w of
           (Inl e, w1) \<Rightarrow> (Fail (Status Internal (err_text e)), w1)
         | (Inr (Some resp), w1) \<Rightarrow> (Return resp, w1)
         | (Inr None, w1) \<Rightarrow> measure_stats os volumeID volumePath w1))"

definition NodeUnstageVolume :: "unit outcome" where
  "NodeUnstageVolume = Fail (Status Unimplemented '''')"

definition NodeStageVolume :: "unit outcome" where
  "NodeStageVolume = Fail (Status Unimplemented '''')"

definition NodeExpandVolume :: "unit outcome" where
  "NodeExpandVolume = Fail (Status Unimplemented '''')"

section \<open>Vocabulary of the properties\<close>

text \<open>The commands that write and read the read-ahead value of a device.\<close>

definition read_ahead_command :: "string list \<Rightarrow> bool" where
  "read_ahead_command args \<longleftrightarrow>
     (\<exists>v dev. args = [''sh'', ''-c'', ''echo '' @ show_int v @ '' > '' @ bdi_path dev]) \<or>
     (\<exists>dev. args = [''sh'', ''-c'', ''cat '' @ bdi_path dev])"

text \<open>The calls a publish request may make: on its target path only, the mount from the server the
  publish context names, without the read-ahead flag.\<close>

fun publish_call :: "NodePublishVolumeRequest \<Rightarrow> oscall \<Rightarrow> bool" where
  "publish_call req (CIsLikelyNotMountPoint p) \<longleftrightarrow> p = np_TargetPath req"
| "publish_call req (CMkdirAll p m) \<longleftrightarrow> p = np_TargetPath req"
| "publish_call req (CMount source p fs opts) \<longleftrightarrow>
     p = np_TargetPath req \<and> fs = ''nfs'' \<and>
     (\<exists>ip. map_of (np_PublishContext req) NodeAnnotation = Some ip \<and> HasPrefix source (ip @ '':'')) \<and>
     list_all (\<lambda>opt. readAheadKBMatch opt = None) opts"
| "publish_call req (CLstat p) \<longleftrightarrow> p = np_TargetPath req"
| "publish_call req (CChmod p m) \<longleftrightarrow> p = np_TargetPath req"
| "publish_call req (CExec args) \<longleftrightarrow>
     args = [''mountpoint'', ''-d'', np_TargetPath req] \<or> read_ahead_command args"
| "publish_call req _ \<longleftrightarrow> False"

text \<open>Between two worlds a mount was made and succeeded.\<close>

definition mount_made ::
  "os \<Rightarrow> string \<Rightarrow> string \<Rightarrow> string list \<Rightarrow> 'api world \<Rightarrow> 'api world \<Rightarrow> bool" where
  "mount_made os source target opts w w' \<longleftrightarrow>
     (\<exists>h h'. w_trace w' = w_trace w @ h @ [CMount source target ''nfs'' opts] @ h' \<and>
       os_mount os (w_trace w @ h) source target ''nfs'' opts = None)"

text \<open>A driver and a request for the witnesses.\<close>

definition demo_options :: DriverOptions where
  "demo_options =
     \<lparr>o_NodeID = ''n1'', o_DriverName = ''nfs.csi.k8s.io'', o_Endpoint = ''unix://tmp/csi.sock'',
      o_MountPermissions = 0, o_WorkingMountDir = ''/tmp'', o_DefaultOnDeletePolicy = ''retain'',
      o_VolStatsCacheExpireInMinutes = 10, o_IPList = [''10.0.0.1''],
      o_RunControllerServer = True, o_RunNodeServer = True\<rparr>"

definition demo_driver :: driver where
  "demo_driver = fst (NewDriver ''v1'' demo_options)"

definition demo_ns :: "node_server option" where
  "demo_ns = Some (NewNodeServer True)"

definition demo_req :: "string list \<Rightarrow> NodePublishVolumeRequest" where
  "demo_req flags =
     \<lparr>np_VolumeId = ''vol'', np_TargetPath = ''/mnt'', np_VolumeCapability = Some (MountVolume flags),
      np_Readonly = True, np_VolumeContext = [(''share'', ''/vol1''), (''subDir'', ''a'')],
      np_PublishContext = [(NodeAnnotation, ''10.0.0.1'')]\<rparr>"

definition mounted_world :: "unit world" where
  "mounted_world = snd (NodePublishVolume demo_ns demo_driver in_order in_order sample_os (demo_req [])
     sample_world)"

section \<open>Lemmas\<close>

lemma read_ahead_commandI:
  "read_ahead_command [''sh'', ''-c'', ''echo '' @ show_int v @ '' > '' @ bdi_path dev]"
  "read_ahead_command [''sh'', ''-c'', ''cat '' @ bdi_path dev]"
  unfolding read_ahead_command_def by blast+

lemmas read_ahead_command_simps [simp] = read_ahead_commandI [simplified]

lemma collectMountOptions_eq: "collectMountOptions opts = filter (\<lambda>x. readAheadKBMatch x = None) opts"
  by (induction opts) auto

lemma list_all_collect: "list_all (\<lambda>x. readAheadKBMatch x = None) (collectMountOptions opts)"
  by (simp add: collectMountOptions_eq list_all_iff)

lemma updateReadAhead_calls:
  "updateReadAhead os (np_TargetPath req) kb w = (r, w') \<Longrightarrow> only_calls (publish_call req) w w'"
  by (auto simp: updateReadAhead_def Let_def split: prod.splits option.splits if_splits)

lemma publish_mounted_calls:
  assumes "publish_mounted os (np_TargetPath req) p w = (r, w')"
  shows "only_calls (publish_call req) w w'"
proof -
  have chmod: "only_calls (publish_call req) w w'"
    if "chmodIfPermissionMismatch os (np_TargetPath req) m w = (r, w')" for r m and w w' :: "'a world"
    using chmodIfPermissionMismatch_calls [OF that] by (rule only_calls_mono) auto
  show ?thesis
    using assms
    by (auto simp: publish_mounted_def split: prod.splits option.splits if_splits sum.splits
        dest!: chmod updateReadAhead_calls intro: only_calls_trans)
qed

lemma HasPrefix_TrimRight_colon:
  "HasPrefix (TrimRight (ip @ '':'' @ b) CHR ''/'' @ s) (ip @ '':'')"
proof -
  have "dropWhile (\<lambda>x. x = CHR ''/'') (rev b @ CHR '':'' # rev ip)
      = dropWhile (\<lambda>x. x = CHR ''/'') (rev b) @ CHR '':'' # rev ip"
    by (induction b rule: rev_induct) auto
  then show ?thesis by (simp add: HasPrefix_def TrimRight_def)
qed

lemma publish_source_prefix: "HasPrefix (publish_source ord ip p) (ip @ '':'')"
  using HasPrefix_TrimRight_colon [of ip "pv_baseDir p"]
  by (auto simp: publish_source_def Let_def HasPrefix_def)

lemma publish_mount_calls:
  assumes "map_of (np_PublishContext req) NodeAnnotation = Some ip"
    and "publish_mount os (publish_source ord ip p) (np_TargetPath req) p w = (r, w')"
  shows "only_calls (publish_call req) w w'"
  using assms publish_source_prefix [of ord ip p] list_all_collect [of "pv_options p"]
  by (auto simp: publish_mount_def Let_def split: prod.splits option.splits
      dest!: publish_mounted_calls intro: only_calls_first)

lemma publish_target_calls:
  assumes "map_of (np_PublishContext req) NodeAnnotation = Some ip"
    and "publish_target os (publish_source ord ip p) (np_TargetPath req) p w = (r, w')"
  shows "only_calls (publish_call req) w w'"
  using assms(2)
  by (auto simp: publish_target_def Let_def split: prod.splits option.splits if_splits
      dest!: publish_mount_calls [OF assms(1)]) (erule only_calls_first, simp)+

lemma publish_locked_calls:
  "publish_locked d ord ord' os req volCap w = (r, w') \<Longrightarrow> only_calls (publish_call req) w w'"
  by (auto simp: publish_locked_def split: sum.splits if_splits option.splits
      dest: publish_target_calls)

lemma NodePublishVolume_calls:
  "NodePublishVolume ns d ord ord' os req w = (r, w') \<Longrightarrow> only_calls (publish_call req) w w'"
  by (auto simp: NodePublishVolume_def split: option.splits if_splits
      dest: with_lock_only_calls [OF _ publish_locked_calls])

lemma publish_mounted_no_panic: "publish_mounted os t p w \<noteq> (Panics m, w')"
  by (auto simp: publish_mounted_def split: prod.splits option.splits if_splits sum.splits)

lemma publish_target_no_panic: "publish_target os source t p w \<noteq> (Panics m, w')"
  by (auto simp: publish_target_def publish_mount_def Let_def publish_mounted_no_panic
      split: prod.splits option.splits if_splits)

lemma NodePublishVolume_no_panic:
  "NodePublishVolume ns d ord ord' os req w = (Panics m, w') \<Longrightarrow> ns = None"
  using publish_target_no_panic
  by (fastforce simp: NodePublishVolume_def with_lock_def publish_locked_def Let_def
      split: option.splits if_splits prod.splits sum.splits)

lemma unpublish_locked_calls:
  "unpublish_locked ns os t w = (r, w') \<Longrightarrow> only_calls (cleanup_call t) w w'"
  by (auto simp: unpublish_locked_def split: prod.splits option.splits if_splits
      dest: CleanupMountPoint_calls CleanupMountWithForce_calls)

lemma NodeUnpublishVolume_calls:
  "NodeUnpublishVolume ns os volumeID t w = (r, w') \<Longrightarrow> only_calls (cleanup_call t) w w'"
  by (auto simp: NodeUnpublishVolume_def split: if_splits option.splits
      dest: with_lock_only_calls [OF _ unpublish_locked_calls])

section \<open>What success means\<close>

lemma publish_mounted_trace: 
  assumes "publish_mounted os t p w = (r, w')"
  shows "prefix (w_trace w) (w_trace w')"
proof -
  have "only_calls (publish_call \<lparr>np_VolumeId = [], np_TargetPath = t, np_VolumeCapability = None,
      np_Readonly = False, np_VolumeContext = [], np_PublishContext = []\<rparr>) w w'"
    by (rule publish_mounted_calls [where p = p and os = os and r = r]) (simp add: assms)
  then show ?thesis by (auto simp: only_calls_def)
qed

lemma publish_mount_made:
  assumes "publish_mount os source t p w = (Return (), w')"
  shows "mount_made os source t (collectMountOptions (pv_options p)) w w'"
proof -
  let ?c = "CMount source t ''nfs'' (collectMountOptions (pv_options p))"
  have m: "os_mount os (w_trace w) source t ''nfs'' (collectMountOptions (pv_options p)) = None"
    and "publish_mounted os t p (w\<lparr>w_trace := w_trace w @ [?c]\<rparr>) = (Return (), w')"
    using assms by (auto simp: publish_mount_def Let_def split: prod.splits option.splits)
  from publish_mounted_trace [OF this(2)] obtain h' where "w_trace w' = w_trace w @ [] @ [?c] @ h'"
    by (auto simp: prefix_def)
  with m show ?thesis unfolding mount_made_def by (intro exI [of _ "[]"] exI [of _ h']) simp
qed

lemma mount_made_first:
  assumes "mount_made os source t opts (w\<lparr>w_trace := w_trace w @ cs\<rparr>) w'"
  shows "mount_made os source t opts w w'"
proof -
  obtain h h' where "w_trace w' = w_trace w @ (cs @ h) @ [CMount source t ''nfs'' opts] @ h'"
    "os_mount os (w_trace w @ cs @ h) source t ''nfs'' opts = None"
    using assms by (auto simp: mount_made_def)
  then show ?thesis unfolding mount_made_def by blast
qed

lemma publish_target_success:
  assumes "publish_target os source t p w = (Return (), w')"
  shows "os_isLikelyNotMountPoint os (w_trace w) t = (False, None) \<and>
      w' = w\<lparr>w_trace := w_trace w @ [CIsLikelyNotMountPoint t]\<rparr> \<or>
    mount_made os source t (collectMountOptions (pv_options p)) w w'"
  using assms
  by (auto simp: publish_target_def Let_def split: prod.splits option.splits if_splits
      dest!: publish_mount_made mount_made_first)

lemma publish_locked_success:
  assumes "publish_locked d ord ord' os req volCap w = (Return (), w')"
  shows "\<exists>ip p. map_of (np_PublishContext req) NodeAnnotation = Some ip \<and>
    publish_context d ord req volCap = Inr p \<and>
    (os_isLikelyNotMountPoint os (w_trace w) (np_TargetPath req) = (False, None) \<and>
       w' = w\<lparr>w_trace := w_trace w @ [CIsLikelyNotMountPoint (np_TargetPath req)]\<rparr> \<or>
     mount_made os (publish_source ord' ip p) (np_TargetPath req)
       (collectMountOptions (pv_options p)) w w')"
  using assms
  by (auto simp: publish_locked_def split: sum.splits if_splits option.splits
      dest!: publish_target_success)

lemma mount_made_locks:
  "mount_made os source t opts (w\<lparr>w_locks := l\<rparr>) w' \<longleftrightarrow> mount_made os source t opts w w'"
  "mount_made os source t opts w (w'\<lparr>w_locks := l\<rparr>) \<longleftrightarrow> mount_made os source t opts w w'"
  by (simp_all add: mount_made_def)

lemma context_step_error: "context_step k v p = Inl e \<Longrightarrow> \<exists>m. e = Status InvalidArgument m"
  by (auto simp: context_step_def Let_def split: if_splits option.splits)

lemma context_loop_error: "context_loop ctx p = Inl e \<Longrightarrow> \<exists>m. e = Status InvalidArgument m"
  by (induction ctx p rule: context_loop.induct)
    (auto split: sum.splits dest: context_step_error)

lemma publish_locked_no_ip:
  assumes "map_of (np_PublishContext req) NodeAnnotation = None"
  shows "\<exists>m. publish_locked d ord ord' os req volCap w = (Fail (Status InvalidArgument m), w)"
  using assms
  by (auto simp: publish_locked_def publish_context_def split: sum.splits
      dest: context_loop_error)

lemma NodePublishVolume_no_ip:
  assumes "map_of (np_PublishContext req) NodeAnnotation = None"
  shows "NodePublishVolume ns d ord ord' os req w = (Panics nil_dereference, w) \<and> ns = None \<or>
    (\<exists>c m. NodePublishVolume ns d ord ord' os req w = (Fail (Status c m), w) \<and>
      (c = InvalidArgument \<or> c = Aborted))"
proof (cases "np_VolumeCapability req")
  case (Some volCap)
  let ?k = "nodeLockKey (np_VolumeId req) (np_TargetPath req)"
  have "\<exists>c m. with_lock ?k (publish_locked d ord ord' os req volCap) w = (Fail (Status c m), w) \<and>
    (c = InvalidArgument \<or> c = Aborted)"
  proof (cases "?k \<in> w_locks w")
    case False
    obtain m where "publish_locked d ord ord' os req volCap (w\<lparr>w_locks := insert ?k (w_locks w)\<rparr>)
        = (Fail (Status InvalidArgument m), w\<lparr>w_locks := insert ?k (w_locks w)\<rparr>)"
      using publish_locked_no_ip [OF assms] by blast
    from with_lock_acquired [where body = "publish_locked d ord ord' os req volCap", OF False this] show ?thesis using False by simp
  qed (simp add: with_lock_refused)
  then show ?thesis using Some by (simp add: NodePublishVolume_def)
qed (simp add: NodePublishVolume_def)

lemma NodeUnpublishVolume_gone_lemma:
  assumes "NodeUnpublishVolume ns os volumeID t w = (Return (), w')"
  shows "gone os t w'"
proof -
  obtain s where "with_lock (nodeLockKey volumeID t) (unpublish_locked s os t) w = (Return (), w')"
    using assms by (auto simp: NodeUnpublishVolume_def split: if_splits option.splits)
  then show ?thesis
  proof (cases rule: with_lock_cases)
    case (run w1)
    then have "gone os t w1"
      by (auto simp: unpublish_locked_def split: prod.splits option.splits if_splits
          dest: Cleanup_gone)
    with run(3) show ?thesis by (simp add: gone_def)
  qed simp
qed

lemma measure_stats_Return:
  assumes "measure_stats os v path w = (Return resp, w')"
  shows "w' = cache_set os v resp (w\<lparr>w_trace := w_trace w @ [CLstat path, CGetMetrics path]\<rparr>)"
  using assms
  by (auto simp: measure_stats_def split: prod.splits sum.splits if_splits)

lemma stats_get_ttl_eq: "stats_get os v w = (r, w') \<Longrightarrow> cache_ttl (w_stats w') = cache_ttl (w_stats w)"
  using stats_get_ttl [of os v w] by simp

text \<open>A valid request for a target that is reported as a mount point succeeds after that one check.\<close>

lemma NodePublishVolume_on_mounted:
  assumes "ns = Some s" and "np_VolumeCapability req = Some volCap" and "np_VolumeId req \<noteq> ''''"
    and "np_TargetPath req \<noteq> ''''"
    and "nodeLockKey (np_VolumeId req) (np_TargetPath req) \<notin> w_locks w"
    and "publish_context d ord req volCap = Inr p" and "pv_baseDir p \<noteq> ''''"
    and "map_of (np_PublishContext req) NodeAnnotation = Some ip"
    and "os_isLikelyNotMountPoint os (w_trace w) (np_TargetPath req) = (False, None)"
  shows "NodePublishVolume ns d ord ord' os req w =
    (Return (), w\<lparr>w_trace := w_trace w @ [CIsLikelyNotMountPoint (np_TargetPath req)]\<rparr>)"
  using assms
  by (simp add: NodePublishVolume_def with_lock_def TryAcquire_def Release_def publish_locked_def
      publish_target_def syscall_def)

text \<open>What a successful request had to pass, and what it did.\<close>

lemma NodePublishVolume_success:
  assumes "NodePublishVolume ns d ord ord' os req w = (Return (), w')"
  obtains s volCap ip p where "ns = Some s" "np_VolumeCapability req = Some volCap"
    "np_VolumeId req \<noteq> ''''" "np_TargetPath req \<noteq> ''''"
    "nodeLockKey (np_VolumeId req) (np_TargetPath req) \<notin> w_locks w"
    "map_of (np_PublishContext req) NodeAnnotation = Some ip"
    "publish_context d ord req volCap = Inr p" "pv_baseDir p \<noteq> ''''"
    "os_isLikelyNotMountPoint os (w_trace w) (np_TargetPath req) = (False, None) \<and>
       w' = w\<lparr>w_trace := w_trace w @ [CIsLikelyNotMountPoint (np_TargetPath req)]\<rparr> \<or>
     mount_made os (publish_source ord' ip p) (np_TargetPath req)
       (collectMountOptions (pv_options p)) w w'"
proof -
  let ?k = "nodeLockKey (np_VolumeId req) (np_TargetPath req)"
  let ?w = "w\<lparr>w_locks := insert ?k (w_locks w)\<rparr>"
  obtain s volCap where start: "ns = Some s" "np_VolumeCapability req = Some volCap"
    "np_VolumeId req \<noteq> ''''" "np_TargetPath req \<noteq> ''''"
    and run: "with_lock ?k (publish_locked d ord ord' os req volCap) w = (Return (), w')"
    using assms by (auto simp: NodePublishVolume_def split: option.splits if_splits)
  from run obtain w1 where free: "?k \<notin> w_locks w"
    and b: "publish_locked d ord ord' os req volCap ?w = (Return (), w1)"
    and w': "w' = w1\<lparr>w_locks := w_locks w1 - {?k}\<rparr>"
    by (rule with_lock_cases) auto
  have base: "pv_baseDir p \<noteq> ''''" if "publish_context d ord req volCap = Inr p" for p
    using b that by (auto simp: publish_locked_def split: if_splits)
  from publish_locked_success [OF b]
  obtain ip p where p: "map_of (np_PublishContext req) NodeAnnotation = Some ip"
    "publish_context d ord req volCap = Inr p"
    and made: "os_isLikelyNotMountPoint os (w_trace w) (np_TargetPath req) = (False, None) \<and>
       w1 = ?w\<lparr>w_trace := w_trace w @ [CIsLikelyNotMountPoint (np_TargetPath req)]\<rparr> \<or>
     mount_made os (publish_source ord' ip p) (np_TargetPath req)
       (collectMountOptions (pv_options p)) w w1"
    by (auto simp: mount_made_locks)
  show thesis
    by (rule that [OF start free p base [OF p(2)]])
      (use made free w' in \<open>auto simp: mount_made_locks\<close>)
qed

section \<open>Properties\<close>

text \<open>C9. A publish request touches nothing but its own target: every call it makes concerns the
  target path of the request or writes or reads the read-ahead value of a block device, every mount is of type nfs and from the server IP that the publish
  context carries, and the read-ahead flag never reaches the mount command.  Whatever the outcome,
  held locks and cached statistics are as before, and the handler panics only
  when it is called on a nil node server.\<close>

theorem NodePublishVolume_confined:
  assumes "NodePublishVolume ns d ord ord' os req w = (r, w')"
  shows "only_calls (publish_call req) w w' \<and> (\<forall>m. r = Panics m \<longrightarrow> ns = None)"
  using NodePublishVolume_calls [OF assms] NodePublishVolume_no_panic [of ns d ord ord' os req w] assms
  by blast

theorem NodePublishVolume_confined_witness:
  "\<exists>w'. NodePublishVolume demo_ns demo_driver in_order in_order sample_os (demo_req [''read_ahead_kb=42''])
       sample_world = (Return (), w') \<and>
     only_calls (publish_call (demo_req [''read_ahead_kb=42''])) sample_world w' \<and>
     CMount ''10.0.0.1:/vol1/a'' ''/mnt'' ''nfs'' [''ro''] \<in> set (w_trace w')"
proof -
  let ?run = "NodePublishVolume demo_ns demo_driver in_order in_order sample_os
    (demo_req [''read_ahead_kb=42'']) sample_world"
  have "fst ?run = Return () \<and>
    CMount ''10.0.0.1:/vol1/a'' ''/mnt'' ''nfs'' [''ro''] \<in> set (w_trace (snd ?run))"
    by code_simp
  moreover have "only_calls (publish_call (demo_req [''read_ahead_kb=42''])) sample_world (snd ?run)"
    using NodePublishVolume_confined [of demo_ns demo_driver in_order in_order sample_os
      "demo_req [''read_ahead_kb=42'']" sample_world "fst ?run" "snd ?run"] by simp
  ultimately show ?thesis by (intro exI [of _ "snd ?run"]) (metis prod.collapse)
qed

text \<open>Without a server IP in the publish context nothing happens: the request is refused as
  invalid (or as aborted when the volume is busy), no call at all is made and the world is
  unchanged.\<close>

lemma NodePublishVolume_needs_ip:
  assumes "map_of (np_PublishContext req) NodeAnnotation = None" and "ns \<noteq> None"
  shows "\<exists>c m. NodePublishVolume ns d ord ord' os req w = (Fail (Status c m), w) \<and>
    (c = InvalidArgument \<or> c = Aborted)"
  using NodePublishVolume_no_ip [OF assms(1)] assms(2) by blast

text \<open>C8. Success means mounted: when a publish request succeeds, either the mounter reported the
  target as a mount point already and nothing was changed, or a mount of the source made of the
  publish context's IP and the volume context's share and subdirectory was made on the target and
  succeeded.\<close>

theorem NodePublishVolume_mounted:
  assumes "NodePublishVolume ns d ord ord' os req w = (Return (), w')"
  shows "\<exists>volCap ip p. np_VolumeCapability req = Some volCap \<and>
    map_of (np_PublishContext req) NodeAnnotation = Some ip \<and>
    publish_context d ord req volCap = Inr p \<and>
    (os_isLikelyNotMountPoint os (w_trace w) (np_TargetPath req) = (False, None) \<and>
       w' = w\<lparr>w_trace := w_trace w @ [CIsLikelyNotMountPoint (np_TargetPath req)]\<rparr> \<or>
     mount_made os (publish_source ord' ip p) (np_TargetPath req)
       (collectMountOptions (pv_options p)) w w')"
  using assms by (rule NodePublishVolume_success) blast

theorem NodePublishVolume_mounted_witness:
  "\<exists>w' volCap ip p. np_VolumeCapability (demo_req []) = Some volCap \<and>
    map_of (np_PublishContext (demo_req [])) NodeAnnotation = Some ip \<and>
    publish_context demo_driver in_order (demo_req []) volCap = Inr p \<and>
    (os_isLikelyNotMountPoint sample_os (w_trace sample_world) ''/mnt'' = (False, None) \<and>
       w' = sample_world\<lparr>w_trace := w_trace sample_world @ [CIsLikelyNotMountPoint ''/mnt'']\<rparr> \<or>
     mount_made sample_os (publish_source in_order ip p) ''/mnt''
       (collectMountOptions (pv_options p)) sample_world w')"
proof -
  let ?run = "NodePublishVolume demo_ns demo_driver in_order in_order sample_os (demo_req []) sample_world"
  have "fst ?run = Return ()" by code_simp
  then have "?run = (Return (), snd ?run)" by (metis prod.collapse)
  from NodePublishVolume_mounted [OF this] show ?thesis
    by (intro exI [of _ "snd ?run"]) (simp add: demo_req_def)
qed


text \<open>C15. A successful unpublish removed the target: the last call of the handler confirmed that
  the path does not exist or removed it.  The handler works on the target path alone, and never
  deletes a directory tree.\<close>

theorem NodeUnpublishVolume_gone:
  assumes "NodeUnpublishVolume ns os volumeID targetPath w = (r, w')"
  shows "only_calls (cleanup_call targetPath) w w' \<and> (is_return r \<longrightarrow> gone os targetPath w')"
proof
  show "is_return r \<longrightarrow> gone os targetPath w'"
    using assms NodeUnpublishVolume_gone_lemma by (cases r) auto
qed (rule NodeUnpublishVolume_calls [OF assms])

theorem NodeUnpublishVolume_gone_witness:
  "\<exists>w'. NodeUnpublishVolume demo_ns sample_os ''vol'' ''/mnt'' mounted_world =
       (Return (), w') \<and>
     only_calls (cleanup_call ''/mnt'') mounted_world w' \<and> gone sample_os ''/mnt'' w'"
proof -
  let ?run = "NodeUnpublishVolume demo_ns sample_os ''vol'' ''/mnt'' mounted_world"
  have "fst ?run = Return ()" by code_simp
  then have "?run = (Return (), snd ?run)" by (metis prod.collapse)
  with NodeUnpublishVolume_gone [OF this] show ?thesis by auto
qed

text \<open>C18. Statistics are served from the cache: after a volume's statistics were measured, a later
  request for it is answered with the same numbers and without touching the file system, whatever
  requests and measurements for other volumes come in between, as long as no clock reading since
  then reaches the time to live.\<close>

theorem NodeGetVolumeStats_cached:
  assumes "NodeGetVolumeStats ns os v path w = (Return resp, w1)" and "stats_stored w v = None"
    and "\<And>d. Write v d \<notin> set us"
    and "\<And>n. n \<le> length us \<Longrightarrow>
      os_now os (w_trace (run_uses (stats_get os) (cache_set os) (take n us) w1))
        - os_now os (butlast (w_trace w1)) < cache_ttl (w_stats w)"
    and "path' \<noteq> ''''" and "w' = run_uses (stats_get os) (cache_set os) us w1"
  shows "NodeGetVolumeStats ns os v path' w' = (Return resp, w'\<lparr>w_trace := w_trace w' @ [CNow]\<rparr>)"
proof -
  have v: "v \<noteq> ''''" "ns \<noteq> None" using assms(1) by (auto simp: NodeGetVolumeStats_def split: if_splits)
  obtain w0 where g: "stats_get os v w = (Inr None, w0)"
    using stats_get_none [OF assms(2)] by (metis prod.collapse)
  with assms(1) have "measure_stats os v path w0 = (Return resp, w1)"
    by (auto simp: NodeGetVolumeStats_def split: if_splits)
  from measure_stats_Return [OF this] obtain w2 where w1: "w1 = cache_set os v resp w2"
    and "w2 = w0\<lparr>w_trace := w_trace w0 @ [CLstat path, CGetMetrics path]\<rparr>" by blast
  then have ttl1: "cache_ttl (w_stats w1) = cache_ttl (w_stats w)"
    using stats_get_ttl_eq [OF g] by (simp add: stats_set_ttl)
  have now: "butlast (w_trace w1) = w_trace w2" by (simp add: w1 cache_set_def syscall_def)
  have "stats_stored w1 v = Some (resp, os_now os (w_trace w2))" by (simp add: w1 stats_stored_set)
  then have "stats_stored w' v = Some (resp, os_now os (w_trace w2)) \<and>
      cache_ttl (w_stats w') = cache_ttl (w_stats w1)"
    unfolding assms(6)
  proof (rule sc.stored_run)
    fix n assume "n \<le> length us"
    then show "os_now os (w_trace (run_uses (stats_get os) (cache_set os) (take n us) w1))
        - os_now os (w_trace w2) < cache_ttl (w_stats w1)"
      using assms(4) by (simp only: now ttl1)
  qed (rule assms(3))
  then have "stats_stored w' v = Some (resp, os_now os (w_trace w2))"
    "cache_ttl (w_stats w') = cache_ttl (w_stats w)" by (simp_all add: ttl1)
  moreover have "os_now os (w_trace w') - os_now os (w_trace w2) < cache_ttl (w_stats w)"
    using assms(4) [of "length us"] by (simp add: assms(6) now)
  ultimately have "stats_get os v w' = (Inr (Some resp), w'\<lparr>w_trace := w_trace w' @ [CNow]\<rparr>)"
    by (intro stats_get_fresh) simp_all
  then show ?thesis using v assms(5) by (simp add: NodeGetVolumeStats_def)
qed

theorem NodeGetVolumeStats_cached_witness:
  "\<exists>w1. fst (NodeGetVolumeStats demo_ns sample_os ''vol'' ''/mnt'' mounted_world) =
      Return [\<lparr>u_unit = BYTES, u_available = 70, u_total = 100, u_used = 30\<rparr>,
              \<lparr>u_unit = INODES, u_available = 7, u_total = 10, u_used = 3\<rparr>] \<and>
    w1 = run_uses (stats_get sample_os) (cache_set sample_os) [Read ''other'', Write ''third'' []]
      (snd (NodeGetVolumeStats demo_ns sample_os ''vol'' ''/mnt'' mounted_world)) \<and>
    NodeGetVolumeStats demo_ns sample_os ''vol'' ''/elsewhere'' w1 =
      (Return [\<lparr>u_unit = BYTES, u_available = 70, u_total = 100, u_used = 30\<rparr>,
              \<lparr>u_unit = INODES, u_available = 7, u_total = 10, u_used = 3\<rparr>],
       w1\<lparr>w_trace := w_trace w1 @ [CNow]\<rparr>)"
proof -
  let ?us = "[Read ''other'', Write ''third'' []]"
  let ?run = "NodeGetVolumeStats demo_ns sample_os ''vol'' ''/mnt'' mounted_world"
  let ?resp = "[\<lparr>u_unit = BYTES, u_available = 70, u_total = 100, u_used = 30\<rparr>,
              \<lparr>u_unit = INODES, u_available = 7, u_total = 10, u_used = 3\<rparr>]"
  let ?uses = "run_uses (stats_get sample_os) (cache_set sample_os)"
  have resp: "fst ?run = Return ?resp" by code_simp
  then have run: "?run = (Return ?resp, snd ?run)" by (metis prod.collapse)
  have c0: "os_now sample_os (w_trace (?uses [] (snd ?run)))
      - os_now sample_os (butlast (w_trace (snd ?run))) < cache_ttl (w_stats mounted_world)"
    by code_simp
  have c1: "os_now sample_os (w_trace (?uses [Read ''other''] (snd ?run)))
      - os_now sample_os (butlast (w_trace (snd ?run))) < cache_ttl (w_stats mounted_world)"
    by code_simp
  have c2: "os_now sample_os (w_trace (?uses ?us (snd ?run)))
      - os_now sample_os (butlast (w_trace (snd ?run))) < cache_ttl (w_stats mounted_world)"
    by code_simp
  have "NodeGetVolumeStats demo_ns sample_os ''vol'' ''/elsewhere'' (?uses ?us (snd ?run)) =
      (Return ?resp, (?uses ?us (snd ?run))\<lparr>w_trace := w_trace (?uses ?us (snd ?run)) @ [CNow]\<rparr>)"
  proof (rule NodeGetVolumeStats_cached [OF run _ _ _ _ refl])
    show "stats_stored mounted_world ''vol'' = None" by code_simp
    fix n assume "n \<le> length ?us"
    then have "n = 0 \<or> n = 1 \<or> n = 2" by auto
    then have "take n ?us = [] \<or> take n ?us = [Read ''other''] \<or> take n ?us = ?us" by auto
    then show "os_now sample_os (w_trace (?uses (take n ?us) (snd ?run)))
        - os_now sample_os (butlast (w_trace (snd ?run))) < cache_ttl (w_stats mounted_world)"
      by (elim disjE) (simp_all only: c0 c1 c2)
  qed simp_all
  with resp show ?thesis by blast
qed

end
