(* ===== verification/VolumeId.thy ===== *)
theory VolumeId
  imports Utils VolumeLocks
begin

text \<open>
  Volumes and snapshots of \<open>pkg/nfs/controllerserver.go\<close>: their internal representation, how it is
  built from request parameters, its encoding as a CSI identifier and back, and the paths under
  which the controller works on them.
\<close>

section \<open>Data\<close>

record nfsVolume =
  vol_id :: string
  vol_server :: string
  vol_baseDir :: string
  vol_subDir :: string
  vol_size :: int
  vol_uuid :: string
  vol_onDelete :: string

record nfsSnapshot =
  snap_id :: string
  snap_server :: string
  snap_baseDir :: string
  snap_uuid :: string
  snap_src :: string

definition archiveName :: "nfsSnapshot \<Rightarrow> string" where
  "archiveName snap = snap_src snap @ ''.tar.gz''"

section \<open>Identifiers\<close>

text \<open>The order of the elements of an identifier: two runs of \<open>iota\<close>.\<close>

definition idServer :: nat where "idServer = 0"
definition idBaseDir :: nat where "idBaseDir = 1"
definition idSubDir :: nat where "idSubDir = 2"
definition idUUID :: nat where "idUUID = 3"
definition idOnDelete :: nat where "idOnDelete = 4"
definition totalIDElements :: nat where "totalIDElements = 5"

definition idSnapServer :: nat where "idSnapServer = 0"
definition idSnapBaseDir :: nat where "idSnapBaseDir = 1"
definition idSnapUUID :: nat where "idSnapUUID = 2"
definition idSnapArchivePath :: nat where "idSnapArchivePath = 3"
definition idSnapArchiveName :: nat where "idSnapArchiveName = 4"
definition totalIDSnapElements :: nat where "totalIDSnapElements = 5"

text \<open>The policy an identifier records.\<close>

definition keptOnDelete :: "string \<Rightarrow> string" where
  "keptOnDelete onDelete =
     (if EqualFold onDelete retain \<or> EqualFold onDelete archive then onDelete else [])"

definition getVolumeIDFromNfsVol :: "nfsVolume \<Rightarrow> string" where
  "getVolumeIDFromNfsVol vol =
     (let idElements = replicate totalIDElements [];
          idElements = idElements[idServer := Trim (vol_server vol) (CHR ''/'')];
          idElements = idElements[idBaseDir := Trim (vol_baseDir vol) (CHR ''/'')];
          idElements = idElements[idSubDir := Trim (vol_subDir vol) (CHR ''/'')];
          idElements = idElements[idUUID := vol_uuid vol];
          idElements = (if EqualFold (vol_onDelete vol) retain \<or> EqualFold (vol_onDelete vol) archive
                        then idElements[idOnDelete := vol_onDelete vol] else idElements)
      in Join idElements [separator])"

definition getSnapshotIDFromNfsSnapshot :: "nfsSnapshot \<Rightarrow> string" where
  "getSnapshotIDFromNfsSnapshot snap =
     (let idElements = replicate totalIDSnapElements [];
          idElements = idElements[idSnapServer := Trim (snap_server snap) (CHR ''/'')];
          idElements = idElements[idSnapBaseDir := Trim (snap_baseDir snap) (CHR ''/'')];
          idElements = idElements[idSnapUUID := snap_uuid snap];
          idElements = idElements[idSnapArchivePath := snap_uuid snap];
          idElements = idElements[idSnapArchiveName := snap_src snap]
      in Join idElements [separator])"

text \<open>The regular expression \<open>^([^/]+)/(.*)/([^/]+)$\<close> of the old identifier format: the groups
  are everything before the first slash, between it and the last slash, and after the last slash.
  A dot does not match a newline.\<close>

definition volRegexMatch :: "string \<Rightarrow> (string \<times> string \<times> string) option" where
  "volRegexMatch s =
     (let segs = Split s (CHR ''/''); middle = Join (butlast (tl segs)) ''/'' in
      if length segs \<ge> 3 \<and> hd segs \<noteq> [] \<and> last segs \<noteq> [] \<and> CHR 0x0A \<notin> set middle
      then Some (hd segs, middle, last segs) else None)"

definition nthOr :: "string list \<Rightarrow> nat \<Rightarrow> string" where
  "nthOr segments i = (if i < length segments then segments ! i else [])"

definition getNfsVolFromID :: "string \<Rightarrow> nfsVolume outcome" where
  "getNfsVolFromID volumeID =
     (let segments = Split volumeID separator in
      if length segments < 3 then
        (case volRegexMatch volumeID of
           None \<Rightarrow>
             Fail (Errorf ''could not split %s into server, baseDir and subDir with separator(%s)'')
         | Some (server, baseDir, subDir) \<Rightarrow>
             Return \<lparr>vol_id = volumeID, vol_server = server, vol_baseDir = baseDir, vol_subDir = subDir,
               vol_size = 0, vol_uuid = [], vol_onDelete = []\<rparr>)
      else
        Return \<lparr>vol_id = volumeID, vol_server = segments ! 0, vol_baseDir = segments ! 1,
          vol_subDir = segments ! 2, vol_size = 0, vol_uuid = nthOr segments 3,
          vol_onDelete = nthOr segments 4\<rparr>)"

definition getNfsSnapFromID :: "string \<Rightarrow> nfsSnapshot outcome" where
  "getNfsSnapFromID snapID =
     (let segments = Split snapID separator in
      if length segments = totalIDSnapElements then
        Return \<lparr>snap_id = snapID, snap_server = segments ! idSnapServer,
          snap_baseDir = segments ! idSnapBaseDir, snap_uuid = segments ! idSnapUUID,
          snap_src = segments ! idSnapArchiveName\<rparr>
      else Fail (Errorf ''failed to create nfsSnapshot from snapshot ID''))"

section \<open>Volumes and snapshots from parameters\<close>

record vol_params =
  p_server :: string
  p_baseDir :: string
  p_subDir :: string
  p_onDelete :: string
  p_replace :: gomap

definition no_params :: vol_params where
  "no_params = \<lparr>p_server = [], p_baseDir = [], p_subDir = [], p_onDelete = [], p_replace = []\<rparr>"

text \<open>One turn of the loop over the parameters: a switch on the lower-case key.\<close>

definition vol_param_step :: "string \<times> string \<Rightarrow> vol_params \<Rightarrow> vol_params" where
  "vol_param_step kv a =
     (case kv of (k, v) \<Rightarrow>
      let l = ToLower k in
      if l = paramServer then a\<lparr>p_server := v\<rparr>
      else if l = paramShare then a\<lparr>p_baseDir := v\<rparr>
      else if l = paramSubDir then a\<lparr>p_subDir := v\<rparr>
      else if l = paramOnDelete then a\<lparr>p_onDelete := v\<rparr>
      else if l = pvcNamespaceKey then a\<lparr>p_replace := AList.update pvcNamespaceMetadata v (p_replace a)\<rparr>
      else if l = pvcNameKey then a\<lparr>p_replace := AList.update pvcNameMetadata v (p_replace a)\<rparr>
      else if l = pvNameKey then a\<lparr>p_replace := AList.update pvNameMetadata v (p_replace a)\<rparr>
      else a)"

text \<open>\<open>newNFSVolume\<close>.  \<open>ord\<close> is the order in which the parameters are visited, \<open>ord'\<close> the one in
  which the replacements are.\<close>

definition newNFSVolume ::
  "visit \<Rightarrow> visit \<Rightarrow> string \<Rightarrow> int \<Rightarrow> gomap \<Rightarrow> string \<Rightarrow> nfsVolume outcome" where
  "newNFSVolume ord ord' name sz params defaultOnDeletePolicy =
     (let p = fold vol_param_step (range_over ord params) no_params in
      if p_server p = [] then Fail (Errorf ''%v is a required parameter'')
      else
        let subDir = (if p_subDir p = [] then name
                      else replaceWithMap ord' (p_subDir p) (p_replace p));
            uuid = (if p_subDir p = [] then [] else name)
        in (case validateOnDeleteValue (p_onDelete p) of
              Fail e \<Rightarrow> Fail e
            | Panics msg \<Rightarrow> Panics msg
            | Return _ \<Rightarrow>
                let vol = \<lparr>vol_id = [], vol_server = p_server p, vol_baseDir = p_baseDir p,
                      vol_subDir = subDir, vol_size = sz, vol_uuid = uuid,
                      vol_onDelete = (if p_onDelete p \<noteq> [] then p_onDelete p
                                      else defaultOnDeletePolicy)\<rparr>
                in Return (vol\<lparr>vol_id := getVolumeIDFromNfsVol vol\<rparr>)))"

fun snap_param_loop :: "gomap \<Rightarrow> string \<times> string \<Rightarrow> (string \<times> string) outcome" where
  "snap_param_loop [] sb = Return sb"
| "snap_param_loop ((k, v) # rest) (server, baseDir) =
     (if ToLower k = paramServer then snap_param_loop rest (v, baseDir)
      else if ToLower k = paramShare then snap_param_loop rest (server, v)
      else Fail (Status InvalidArgument ''invalid parameter %q in snapshot storage class''))"

definition newNFSSnapshot ::
  "visit \<Rightarrow> string \<Rightarrow> gomap \<Rightarrow> nfsVolume \<Rightarrow> nfsSnapshot outcome" where
  "newNFSSnapshot ord name params vol =
     (case snap_param_loop (range_over ord params) (vol_server vol, vol_baseDir vol) of
        Fail e \<Rightarrow> Fail e
      | Panics msg \<Rightarrow> Panics msg
      | Return (server, baseDir) \<Rightarrow>
          if server = [] then Fail (Errorf ''%v is a required parameter'')
          else
            let src = (if vol_uuid vol \<noteq> [] then vol_uuid vol else vol_subDir vol) in
            if src = [] then Fail (Errorf ''missing required source volume name'')
            else
              let snap = \<lparr>snap_id = [], snap_server = server, snap_baseDir = baseDir,
                    snap_uuid = name, snap_src = src\<rparr>
              in Return (snap\<lparr>snap_id := getSnapshotIDFromNfsSnapshot snap\<rparr>))"

definition volumeFromSnapshot :: "nfsSnapshot \<Rightarrow> nfsVolume" where
  "volumeFromSnapshot snap =
     \<lparr>vol_id = snap_id snap, vol_server = snap_server snap, vol_baseDir = snap_baseDir snap,
      vol_subDir = snap_uuid snap, vol_size = 0, vol_uuid = snap_uuid snap, vol_onDelete = []\<rparr>"

section \<open>Internal paths\<close>

definition getInternalMountPath :: "string \<Rightarrow> nfsVolume \<Rightarrow> string" where
  "getInternalMountPath workingMountDir vol =
     FJoin [workingMountDir, if vol_uuid vol = [] then vol_subDir vol else vol_uuid vol]"

definition getInternalVolumePath :: "string \<Rightarrow> nfsVolume \<Rightarrow> string" where
  "getInternalVolumePath workingMountDir vol =
     FJoin [getInternalMountPath workingMountDir vol, vol_subDir vol]"

section \<open>Specification: parameters as case-insensitive lookups\<close>

definition find_ci :: "gomap \<Rightarrow> string \<Rightarrow> string option" where
  "find_ci m key = map_of (map (\<lambda>(k, v). (ToLower k, v)) m) key"

definition distinct_ci :: "gomap \<Rightarrow> bool" where
  "distinct_ci m \<longleftrightarrow> distinct (map (ToLower \<circ> fst) m)"

section \<open>Specification: identifiers as codes\<close>

text \<open>What survives encoding: trimmed names, and the on-delete policy only if it is retain or
  archive.\<close>

definition norm_vol :: "nfsVolume \<Rightarrow> nfsVolume" where
  "norm_vol vol =
     vol\<lparr>vol_id := getVolumeIDFromNfsVol vol,
         vol_server := Trim (vol_server vol) (CHR ''/''),
         vol_baseDir := Trim (vol_baseDir vol) (CHR ''/''),
         vol_subDir := Trim (vol_subDir vol) (CHR ''/''),
         vol_size := 0, vol_onDelete := keptOnDelete (vol_onDelete vol)\<rparr>"

definition norm_snap :: "nfsSnapshot \<Rightarrow> nfsSnapshot" where
  "norm_snap snap =
     snap\<lparr>snap_id := getSnapshotIDFromNfsSnapshot snap,
          snap_server := Trim (snap_server snap) (CHR ''/''),
          snap_baseDir := Trim (snap_baseDir snap) (CHR ''/'')\<rparr>"

definition no_sep :: "string \<Rightarrow> bool" where
  "no_sep s \<longleftrightarrow> separator \<notin> set s"

definition wf_vol :: "nfsVolume \<Rightarrow> bool" where
  "wf_vol vol \<longleftrightarrow> no_sep (vol_server vol) \<and> no_sep (vol_baseDir vol) \<and> no_sep (vol_subDir vol) \<and>
     no_sep (vol_uuid vol)"

definition wf_snap :: "nfsSnapshot \<Rightarrow> bool" where
  "wf_snap snap \<longleftrightarrow> no_sep (snap_server snap) \<and> no_sep (snap_baseDir snap) \<and>
     no_sep (snap_uuid snap) \<and> no_sep (snap_src snap)"

locale id_codec =
  fixes encode :: "'a \<Rightarrow> string"
    and decode :: "string \<Rightarrow> 'a outcome"
    and norm :: "'a \<Rightarrow> 'a"
    and wf :: "'a \<Rightarrow> bool"
  assumes decode_encode: "wf x \<Longrightarrow> decode (encode x) = Return (norm x)"
    and wf_norm: "wf x \<Longrightarrow> wf (norm x)"
    and encode_norm: "wf x \<Longrightarrow> encode (norm x) = encode x"
begin

lemma encode_inject: "wf x \<Longrightarrow> wf y \<Longrightarrow> encode x = encode y \<longleftrightarrow> norm x = norm y"
  by (metis decode_encode encode_norm outcome.inject(1))

lemma norm_idem: "wf x \<Longrightarrow> norm (norm x) = norm x"
  by (metis decode_encode encode_norm outcome.inject(1) wf_norm)

lemma reencode: "wf x \<Longrightarrow> decode (encode x) = Return y \<Longrightarrow> encode y = encode x"
  by (auto simp: decode_encode encode_norm)

end

section \<open>Lemmas: identifiers\<close>

text \<open>The identifiers with their elements written out.\<close>

lemmas id_element_defs =
  idServer_def idBaseDir_def idSubDir_def idUUID_def idOnDelete_def totalIDElements_def
  idSnapServer_def idSnapBaseDir_def idSnapUUID_def idSnapArchivePath_def idSnapArchiveName_def
  totalIDSnapElements_def

lemma getVolumeIDFromNfsVol_eq:
  "getVolumeIDFromNfsVol vol =
     Join [Trim (vol_server vol) (CHR ''/''), Trim (vol_baseDir vol) (CHR ''/''),
           Trim (vol_subDir vol) (CHR ''/''), vol_uuid vol, keptOnDelete (vol_onDelete vol)]
       [separator]"
  by (simp add: getVolumeIDFromNfsVol_def id_element_defs keptOnDelete_def Let_def eval_nat_numeral)

lemma getSnapshotIDFromNfsSnapshot_eq:
  "getSnapshotIDFromNfsSnapshot snap =
     Join [Trim (snap_server snap) (CHR ''/''), Trim (snap_baseDir snap) (CHR ''/''),
           snap_uuid snap, snap_uuid snap, snap_src snap] [separator]"
  by (simp add: getSnapshotIDFromNfsSnapshot_def id_element_defs Let_def eval_nat_numeral)

lemmas getNfsSnapFromID_eq = getNfsSnapFromID_def [unfolded id_element_defs]

lemma no_sep_Trim [simp]: "no_sep s \<Longrightarrow> no_sep (Trim s c)"
  using set_Trim by (fastforce simp: no_sep_def)

lemma lower_separator: "lower_char separator = separator"
  by code_simp

text \<open>A string equal to \<open>retain\<close> or \<open>archive\<close> up to case has no separator.\<close>

lemma no_sep_keptOnDelete [simp]: "no_sep (keptOnDelete s)"
proof -
  have low: "separator \<in> set s \<Longrightarrow> separator \<in> set (ToLower s)"
    by (auto simp: ToLower_def image_iff) (metis lower_separator)
  have "separator \<notin> set (ToLower retain)" "separator \<notin> set (ToLower archive)"
    by code_simp+
  then show ?thesis using low by (auto simp: keptOnDelete_def no_sep_def EqualFold_def)
qed

lemma keptOnDelete_idem [simp]: "keptOnDelete (keptOnDelete s) = keptOnDelete s"
proof -
  have "\<not> EqualFold [] retain" "\<not> EqualFold [] archive" by code_simp+
  then show ?thesis by (simp add: keptOnDelete_def)
qed

lemma Split_volumeID:
  "wf_vol vol \<Longrightarrow> Split (getVolumeIDFromNfsVol vol) separator =
     [Trim (vol_server vol) (CHR ''/''), Trim (vol_baseDir vol) (CHR ''/''),
      Trim (vol_subDir vol) (CHR ''/''), vol_uuid vol, keptOnDelete (vol_onDelete vol)]"
  unfolding getVolumeIDFromNfsVol_eq
  by (rule Split_Join)
    (use no_sep_Trim no_sep_keptOnDelete in \<open>auto simp: wf_vol_def no_sep_def\<close>)

lemma Split_snapshotID:
  "wf_snap snap \<Longrightarrow> Split (getSnapshotIDFromNfsSnapshot snap) separator =
     [Trim (snap_server snap) (CHR ''/''), Trim (snap_baseDir snap) (CHR ''/''),
      snap_uuid snap, snap_uuid snap, snap_src snap]"
  unfolding getSnapshotIDFromNfsSnapshot_eq
  by (rule Split_Join) (use no_sep_Trim in \<open>auto simp: wf_snap_def no_sep_def\<close>)

interpretation vid: id_codec getVolumeIDFromNfsVol getNfsVolFromID norm_vol wf_vol
proof (unfold_locales, goal_cases)
  case (1 vol)
  then show ?case
    by (simp add: getNfsVolFromID_def Let_def Split_volumeID nthOr_def norm_vol_def)
next
  case (2 vol)
  then show ?case by (simp add: wf_vol_def norm_vol_def)
next
  case (3 vol)
  show ?case by (simp add: norm_vol_def getVolumeIDFromNfsVol_eq)
qed

interpretation sid: id_codec getSnapshotIDFromNfsSnapshot getNfsSnapFromID norm_snap wf_snap
proof (unfold_locales, goal_cases)
  case (1 snap)
  then show ?case by (simp add: getNfsSnapFromID_eq Let_def Split_snapshotID norm_snap_def)
next
  case (2 snap)
  then show ?case by (simp add: wf_snap_def norm_snap_def)
next
  case (3 snap)
  show ?case by (simp add: norm_snap_def getSnapshotIDFromNfsSnapshot_eq)
qed

section \<open>Lemmas: parameters\<close>

lemma newNFSVolume_cases:
  assumes "newNFSVolume ord ord' name sz params dflt = Return vol"
  obtains p where "p = fold vol_param_step (range_over ord params) no_params"
    "p_server p \<noteq> []" "validateOnDeleteValue (p_onDelete p) = Return ()"
    "vol_server vol = p_server p" "vol_baseDir vol = p_baseDir p" "vol_size vol = sz"
    "vol_subDir vol = (if p_subDir p = [] then name else replaceWithMap ord' (p_subDir p) (p_replace p))"
    "vol_uuid vol = (if p_subDir p = [] then [] else name)"
    "vol_onDelete vol = (if p_onDelete p \<noteq> [] then p_onDelete p else dflt)"
    "vol_id vol = getVolumeIDFromNfsVol vol"
  using assms
  by (auto simp: newNFSVolume_def Let_def getVolumeIDFromNfsVol_eq split: if_splits outcome.splits)

lemma find_ci_Cons [simp]:
  "find_ci [] key = None"
  "find_ci ((k, v) # m) key = (if ToLower k = key then Some v else find_ci m key)"
  by (auto simp: find_ci_def)

lemma find_ci_perm:
  "range_ok ord \<Longrightarrow> distinct_ci m \<Longrightarrow> find_ci (range_over ord m) = find_ci m"
  unfolding find_ci_def distinct_ci_def
  by (rule map_of_perm) (simp_all add: comp_def case_prod_beta)

lemma find_ci_notin: "l \<notin> set (map (ToLower \<circ> fst) m) \<Longrightarrow> find_ci m l = None"
  by (induction m) auto

text \<open>What the loop over the parameters collects, as lookups.\<close>

definition field_or :: "gomap \<Rightarrow> string \<Rightarrow> string \<Rightarrow> string" where
  "field_or m key dflt = (case find_ci m key of None \<Rightarrow> dflt | Some v \<Rightarrow> v)"

lemma vol_param_step_fields [simp]:
  "p_server (vol_param_step (k, v) a) = (if ToLower k = paramServer then v else p_server a)"
  "p_baseDir (vol_param_step (k, v) a) = (if ToLower k = paramShare then v else p_baseDir a)"
  "p_subDir (vol_param_step (k, v) a) = (if ToLower k = paramSubDir then v else p_subDir a)"
  "p_onDelete (vol_param_step (k, v) a) = (if ToLower k = paramOnDelete then v else p_onDelete a)"
  by (simp_all add: vol_param_step_def Let_def param_defs)

lemma distinct_ci_Cons:
  "distinct_ci ((k, v) # m) \<longleftrightarrow> ToLower k \<notin> ToLower ` fst ` set m \<and> distinct_ci m"
  by (auto simp: distinct_ci_def image_image)

lemma find_ci_fresh: "distinct_ci ((k, v) # m) \<Longrightarrow> find_ci m (ToLower k) = None"
  by (rule find_ci_notin) (auto simp: distinct_ci_def)

lemma fold_field:
  assumes "\<And>k v a. sel (vol_param_step (k, v) a) = (if ToLower k = key then v else sel a)"
    and "distinct_ci kvs"
  shows "sel (fold vol_param_step kvs a) = field_or kvs key (sel a)"
  using assms(2)
proof (induction kvs arbitrary: a)
  case Nil
  then show ?case by (simp add: field_or_def)
next
  case (Cons kv kvs)
  obtain k v where kv: "kv = (k, v)" by force
  have "distinct_ci kvs" and fresh: "find_ci kvs (ToLower k) = None"
    using Cons.prems kv find_ci_fresh by (auto simp: distinct_ci_Cons)
  then have "sel (fold vol_param_step kvs (vol_param_step (k, v) a))
      = field_or kvs key (if ToLower k = key then v else sel a)"
    using Cons.IH [of "vol_param_step (k, v) a"] assms(1) by simp
  then show ?case using fresh kv by (auto simp: field_or_def)
qed

lemmas params_fields =
  fold_field [where sel = p_server, OF vol_param_step_fields(1)]
  fold_field [where sel = p_baseDir, OF vol_param_step_fields(2)]
  fold_field [where sel = p_subDir, OF vol_param_step_fields(3)]
  fold_field [where sel = p_onDelete, OF vol_param_step_fields(4)]

lemma metadata_distinct [simp]:
  "pvcNamespaceMetadata \<noteq> pvcNameMetadata" "pvcNamespaceMetadata \<noteq> pvNameMetadata"
  "pvcNameMetadata \<noteq> pvNameMetadata" "pvcNameMetadata \<noteq> pvcNamespaceMetadata"
  "pvNameMetadata \<noteq> pvcNamespaceMetadata" "pvNameMetadata \<noteq> pvcNameMetadata"
  by (simp_all add: pvcNamespaceMetadata_def pvcNameMetadata_def pvNameMetadata_def)

lemma metadata_placeholder [simp]:
  "placeholder pvcNamespaceMetadata" "placeholder pvcNameMetadata" "placeholder pvNameMetadata"
  by (simp_all add: pvcNamespaceMetadata_def pvcNameMetadata_def pvNameMetadata_def placeholder_def)

text \<open>The replacement map the parameters stand for.\<close>

definition metadata_map :: "gomap \<Rightarrow> string \<rightharpoonup> string" where
  "metadata_map m k =
     (if k = pvcNamespaceMetadata then find_ci m pvcNamespaceKey
      else if k = pvcNameMetadata then find_ci m pvcNameKey
      else if k = pvNameMetadata then find_ci m pvNameKey
      else None)"

lemma replace_step_map:
  "map_of (p_replace (vol_param_step (k, v) a)) =
     (\<lambda>x. if x = pvcNamespaceMetadata \<and> ToLower k = pvcNamespaceKey \<or>
            x = pvcNameMetadata \<and> ToLower k = pvcNameKey \<or>
            x = pvNameMetadata \<and> ToLower k = pvNameKey then Some v else map_of (p_replace a) x)"
  by (auto simp: fun_eq_iff vol_param_step_def Let_def param_defs)

lemma metadata_map_Cons:
  "metadata_map ((k, v) # m) =
     (\<lambda>x. if x = pvcNamespaceMetadata \<and> ToLower k = pvcNamespaceKey \<or>
            x = pvcNameMetadata \<and> ToLower k = pvcNameKey \<or>
            x = pvNameMetadata \<and> ToLower k = pvNameKey then Some v else metadata_map m x)"
  by (auto simp: fun_eq_iff metadata_map_def)

lemma metadata_map_fresh:
  assumes "distinct_ci ((k, v) # m)"
    and "x = pvcNamespaceMetadata \<and> ToLower k = pvcNamespaceKey \<or>
      x = pvcNameMetadata \<and> ToLower k = pvcNameKey \<or> x = pvNameMetadata \<and> ToLower k = pvNameKey"
  shows "metadata_map m x = None"
  using find_ci_fresh [OF assms(1)] assms(2) by (auto simp: metadata_map_def)

lemma params_replace:
  "distinct_ci kvs \<Longrightarrow>
   map_of (p_replace (fold vol_param_step kvs a)) x =
     (case metadata_map kvs x of None \<Rightarrow> map_of (p_replace a) x | Some v \<Rightarrow> Some v)"
proof (induction kvs arbitrary: a)
  case Nil
  then show ?case by (simp add: metadata_map_def)
next
  case (Cons kv kvs)
  obtain k v where kv: "kv = (k, v)" by force
  have d: "distinct_ci kvs" using Cons.prems kv by (simp add: distinct_ci_Cons)
  show ?case
    unfolding kv fold_simps Cons.IH [OF d] replace_step_map metadata_map_Cons
    using metadata_map_fresh [OF Cons.prems [unfolded kv], of x] by auto
qed

lemma distinct_params_replace:
  "distinct (map fst (p_replace a)) \<Longrightarrow> distinct (map fst (p_replace (fold vol_param_step kvs a)))"
proof (induction kvs arbitrary: a)
  case (Cons kv kvs)
  then have "distinct (map fst (p_replace (vol_param_step kv a)))"
    by (auto simp: vol_param_step_def Let_def split: prod.splits)
  then show ?case using Cons.IH by simp
qed simp

lemma params_order:
  assumes "range_ok ord" and "distinct_ci params"
  defines "p \<equiv> fold vol_param_step (range_over ord params) no_params"
  shows "p_server p = field_or params paramServer []"
    and "p_baseDir p = field_or params paramShare []"
    and "p_subDir p = field_or params paramSubDir []"
    and "p_onDelete p = field_or params paramOnDelete []"
    and "map_of (p_replace p) = metadata_map params"
    and "distinct (map fst (p_replace p))"
proof -
  have d: "distinct_ci (range_over ord params)"
    using assms(1,2) by (simp add: distinct_ci_def)
  have f: "find_ci (range_over ord params) = find_ci params" by (rule find_ci_perm [OF assms(1,2)])
  have fo: "field_or (range_over ord params) = field_or params"
    by (simp add: fun_eq_iff field_or_def f)
  have mm: "metadata_map (range_over ord params) = metadata_map params"
    by (simp add: fun_eq_iff metadata_map_def f)
  show "p_server p = field_or params paramServer []"
    and "p_baseDir p = field_or params paramShare []"
    and "p_subDir p = field_or params paramSubDir []"
    and "p_onDelete p = field_or params paramOnDelete []"
    unfolding p_def params_fields [OF d] fo by (simp_all add: no_params_def)
  show "map_of (p_replace p) = metadata_map params"
    unfolding p_def fun_eq_iff params_replace [OF d] mm
    by (auto simp: no_params_def split: option.splits)
  show "distinct (map fst (p_replace p))"
    unfolding p_def by (rule distinct_params_replace) (simp add: no_params_def)
qed

lemma find_ci_Some: "find_ci m key = Some v \<Longrightarrow> \<exists>j. (j, v) \<in> set m \<and> ToLower j = key"
  by (auto simp: find_ci_def dest!: map_of_SomeD)

lemma metadata_map_range:
  "metadata_map m k = Some v \<Longrightarrow>
     placeholder k \<and> (\<exists>j. (j, v) \<in> set m \<and> ToLower j \<in> {pvcNamespaceKey, pvcNameKey, pvNameKey})"
  using find_ci_Some by (fastforce simp: metadata_map_def split: if_splits)

section \<open>Properties\<close>



text \<open>Volume identifiers do not collide: two volumes have the same identifier exactly when
  they agree on everything the identifier records.\<close>

lemma volumeID_inject:
  assumes "wf_vol v" and "wf_vol w"
  shows "getVolumeIDFromNfsVol v = getVolumeIDFromNfsVol w \<longleftrightarrow> norm_vol v = norm_vol w"
  by (rule vid.encode_inject [OF assms])

text \<open>A snapshot identifier decodes to the snapshot it was made from.\<close>

lemma snapshotID_roundtrip:
  assumes "wf_snap snap"
  shows "getNfsSnapFromID (getSnapshotIDFromNfsSnapshot snap) = Return (norm_snap snap)"
  by (rule sid.decode_encode [OF assms])

text \<open>C29. \<open>newNFSVolume\<close> is deterministic although it iterates over maps: if no two parameter
  keys are equal up to letter case, the subdirectory parameter is a template of placeholders and
  literal text without a dollar sign, and the PV and PVC metadata contain no dollar sign, then any
  two visiting orders give the same volume or the same error.\<close>

theorem newNFSVolume_deterministic:
  assumes "range_ok ord" and "range_ok ord'" and "range_ok ord2" and "range_ok ord2'"
    and "distinct_ci params"
    and "field_or params paramSubDir [] = template_text ps" and "\<forall>p\<in>set ps. wf_piece p"
    and "\<forall>(k, v)\<in>set params. ToLower k \<in> {pvcNamespaceKey, pvcNameKey, pvNameKey} \<longrightarrow> CHR ''$'' \<notin> set v"
  shows "newNFSVolume ord ord' name sz params dflt = newNFSVolume ord2 ord2' name sz params dflt"
proof -
  have repl: "replaceWithMap o' (p_subDir p) (p_replace p) = template_text (map (fill (metadata_map params)) ps)"
    if "range_ok o'" "range_ok r" "p = fold vol_param_step (range_over r params) no_params" for o' r p
  proof -
    note po = params_order [OF that(2) assms(5), folded that(3)]
    have "\<forall>(k, v)\<in>set (p_replace p). placeholder k \<and> CHR ''$'' \<notin> set v"
      using po(5,6) assms(8) metadata_map_range [of params] by (fastforce simp flip: map_of_eq_Some_iff)
    then show ?thesis
      using fold_replace_template [OF assms(7), of "range_over o' (p_replace p)"] that(1) po(3,5,6) assms(6)
      by (simp add: replaceWithMap_def)
  qed
  note a = params_order [OF assms(1,5)] repl [OF assms(2,1) refl]
  note b = params_order [OF assms(3,5)] repl [OF assms(4,3) refl]
  show ?thesis
    unfolding newNFSVolume_def Let_def a(1-4) b(1-4) a(7) [unfolded a(3)] b(7) [unfolded b(3)] ..
qed

theorem newNFSVolume_deterministic_witness:
  "newNFSVolume in_order backwards ''pv-1'' 5
     [(''Server'', ''s''), (''share'', ''/b''), (''subDir'', ''a-${pvc.metadata.name}''), (pvcNameKey, ''claim'')] [] =
   newNFSVolume backwards in_order ''pv-1'' 5
     [(''Server'', ''s''), (''share'', ''/b''), (''subDir'', ''a-${pvc.metadata.name}''), (pvcNameKey, ''claim'')] []"
proof (rule newNFSVolume_deterministic [where ps = "[Lit ''a-'', Var pvcNameMetadata]"])
  let ?params = "[(''Server'', ''s''), (''share'', ''/b''), (''subDir'', ''a-${pvc.metadata.name}''), (pvcNameKey, ''claim'')]"
  show "distinct_ci ?params" by code_simp
  show "field_or ?params paramSubDir [] = template_text [Lit ''a-'', Var pvcNameMetadata]" by code_simp
  show "\<forall>p\<in>set [Lit ''a-'', Var pvcNameMetadata]. wf_piece p" by simp
  show "\<forall>(k, v)\<in>set ?params. ToLower k \<in> {pvcNamespaceKey, pvcNameKey, pvNameKey} \<longrightarrow> CHR ''$'' \<notin> set v"
    by code_simp
qed simp_all

text \<open>Deleting a volume works on the directory that creating it made: the volume decoded
  from the identifier of a new volume has the same internal mount path and the same internal
  volume path.\<close>

lemma decoded_volume_same_paths:
  assumes "newNFSVolume ord ord' name sz params dflt = Return vol" and "wf_vol vol"
    and "workingMountDir \<noteq> []"
  shows "\<exists>vol'. getNfsVolFromID (vol_id vol) = Return vol' \<and>
    getInternalMountPath workingMountDir vol' = getInternalMountPath workingMountDir vol \<and>
    getInternalVolumePath workingMountDir vol' = getInternalVolumePath workingMountDir vol"
proof -
  have "vol_id vol = getVolumeIDFromNfsVol vol" using newNFSVolume_cases [OF assms(1)] by metis
  then have dec: "getNfsVolFromID (vol_id vol) = Return (norm_vol vol)"
    by (simp add: vid.decode_encode [OF assms(2)])
  have mount: "getInternalMountPath workingMountDir (norm_vol vol) = getInternalMountPath workingMountDir vol"
    by (simp add: getInternalMountPath_def norm_vol_def FJoin_Trim [OF assms(3)])
  have "getInternalMountPath workingMountDir vol \<noteq> []"
    by (simp add: getInternalMountPath_def FJoin_2_nonempty [OF assms(3)])
  then have "getInternalVolumePath workingMountDir (norm_vol vol) = getInternalVolumePath workingMountDir vol"
    by (simp add: getInternalVolumePath_def mount) (simp add: norm_vol_def FJoin_Trim)
  then show ?thesis using dec mount by blast
qed

text \<open>Paths stay inside: if neither the mount directory name nor the subdirectory contains a
  \<open>..\<close> element, the internal mount path lies below the working directory and the volume path
  below the mount path.\<close>

lemma internal_paths_contained:
  assumes "workingMountDir \<noteq> []"
    and "''..'' \<notin> set (Split (vol_subDir vol) (CHR ''/''))"
    and "''..'' \<notin> set (Split (vol_uuid vol) (CHR ''/''))"
  shows "prefix (path_elems workingMountDir) (path_elems (getInternalMountPath workingMountDir vol)) \<and>
    prefix (path_elems (getInternalMountPath workingMountDir vol))
      (path_elems (getInternalVolumePath workingMountDir vol))"
proof -
  have ne: "getInternalMountPath workingMountDir vol \<noteq> []"
    by (simp add: getInternalMountPath_def FJoin_2_nonempty [OF assms(1)])
  show ?thesis
    unfolding getInternalVolumePath_def path_elems_join_contained [OF ne assms(2)]
    using assms(2,3) by (auto simp: getInternalMountPath_def path_elems_join_contained [OF assms(1)])
qed


text \<open>An explicit on-delete policy \<open>delete\<close> is lost in the identifier: the volume decoded
  from it has no policy, so \<open>DeleteVolume\<close> falls back to the driver's default whatever the storage
  class said.\<close>

lemma explicit_delete_not_recorded:
  assumes "newNFSVolume ord ord' name sz params dflt = Return vol" and "wf_vol vol"
    and "EqualFold (vol_onDelete vol) delete_policy"
  shows "\<exists>vol'. getNfsVolFromID (vol_id vol) = Return vol' \<and> vol_onDelete vol' = []"
proof -
  have "vol_id vol = getVolumeIDFromNfsVol vol" using newNFSVolume_cases [OF assms(1)] by metis
  then have dec: "getNfsVolFromID (vol_id vol) = Return (norm_vol vol)"
    by (simp add: vid.decode_encode [OF assms(2)])
  have "ToLower delete_policy \<noteq> ToLower retain" "ToLower delete_policy \<noteq> ToLower archive"
    by code_simp+
  then have "vol_onDelete (norm_vol vol) = []"
    using assms(3) by (simp add: norm_vol_def keptOnDelete_def EqualFold_def)
  then show ?thesis using dec by blast
qed

end
