(* ===== verification/NodeSequence.thy ===== *)
theory NodeSequence
  imports NodeServer VolumeId
begin

text \<open>
  Sequences of requests on a node.  What a later request finds depends on the operating system; the
  laws used here are that the mounter reports mounts as they are: a mounted path is reported as mounted
  until something is called that may detach it, and a path that is gone is not reported as mounted until
  something is mounted on it.
\<close>

section \<open>Truthful mounters\<close>

definition may_detach :: "string \<Rightarrow> oscall \<Rightarrow> bool" where
  "may_detach p c \<longleftrightarrow> c \<in> {CUnmount p, CUnmountWithForce p, CRemove p, CRemoveAll p}"

definition may_attach :: "string \<Rightarrow> oscall \<Rightarrow> bool" where
  "may_attach p c \<longleftrightarrow> (\<exists>source fs opts. c = CMount source p fs opts)"

definition reported_mounted :: "os \<Rightarrow> string \<Rightarrow> oscall list \<Rightarrow> bool" where
  "reported_mounted os p h \<longleftrightarrow> os_isLikelyNotMountPoint os h p = (False, None)"

definition reports_mounts :: "os \<Rightarrow> bool" where
  "reports_mounts os \<longleftrightarrow>
     (\<forall>h h' source p fs opts. os_mount os h source p fs opts = None \<longrightarrow> list_all (\<lambda>c. \<not> may_detach p c) h' \<longrightarrow>
        reported_mounted os p (h @ [CMount source p fs opts] @ h')) \<and>
     (\<forall>h h' p. reported_mounted os p h \<longrightarrow> list_all (\<lambda>c. \<not> may_detach p c) h' \<longrightarrow>
        reported_mounted os p (h @ h'))"

definition reports_removals :: "os \<Rightarrow> bool" where
  "reports_removals os \<longleftrightarrow>
     (\<forall>(w :: unit world) h' p. gone os p w \<longrightarrow> list_all (\<lambda>c. \<not> may_attach p c) h' \<longrightarrow>
        \<not> reported_mounted os p (w_trace w @ h'))"

text \<open>A mounter with these properties, for the witnesses.\<close>

fun attached :: "string \<Rightarrow> bool \<Rightarrow> oscall list \<Rightarrow> bool" where
  "attached p b [] = b"
| "attached p b (CMount s t f opts # h) = attached p (t = p \<or> b) h"
| "attached p b (CUnmount q # h) = attached p (q \<noteq> p \<and> b) h"
| "attached p b (CUnmountWithForce q # h) = attached p (q \<noteq> p \<and> b) h"
| "attached p b (CRemove q # h) = attached p (q \<noteq> p \<and> b) h"
| "attached p b (CRemoveAll q # h) = attached p (q \<noteq> p \<and> b) h"
| "attached p b (_ # h) = attached p b h"

definition truthful_os :: os where
  "truthful_os = sample_os
     \<lparr>os_isLikelyNotMountPoint := (\<lambda>h p. if attached p False h \<or> now_exists p False h
        then (\<not> attached p False h, None) else (True, Some no_entry)),
      os_isMountPoint := (\<lambda>h p. if attached p False h \<or> now_exists p False h
        then Inr (attached p False h) else Inl no_entry),
      os_pathExists := (\<lambda>h p. (attached p False h \<or> now_exists p False h, None)),
      os_remove := (\<lambda>h p. None)\<rparr>"

definition published_world :: "unit world" where
  "published_world = sample_world
     \<lparr>w_trace := [CIsLikelyNotMountPoint ''/mnt'', CMkdirAll ''/mnt'' 0,
        CMount ''10.0.0.1:/vol1/a'' ''/mnt'' ''nfs'' [''ro'']]\<rparr>"

definition unpublished_world :: "unit world" where
  "unpublished_world = sample_world
     \<lparr>w_trace := w_trace published_world @ [CPathExists ''/mnt'', CIsMountPoint ''/mnt'',
        CUnmountWithForce ''/mnt'', CIsMountPoint ''/mnt'', CRemove ''/mnt'']\<rparr>"

text \<open>The published world after some work for other requests, one of them still in flight.\<close>

definition busy_world :: "unit world" where
  "busy_world = published_world
     \<lparr>w_locks := {''other''}, w_trace := w_trace published_world @ [CUnmount ''/other'', CNow]\<rparr>"

section \<open>Lemmas: the volume context in any order\<close>

lemma context_step_baseDir:
  "context_step k v p = Inr p' \<Longrightarrow> pv_baseDir p' = (if ToLower k = paramShare then v else pv_baseDir p)"
  by (auto simp: context_step_def Let_def param_defs split: if_splits option.splits)

text \<open>Whether an entry is accepted does not depend on the variables.\<close>

lemma context_step_ok: "(\<exists>p'. context_step k v p = Inr p') \<longleftrightarrow> (\<exists>q'. context_step k v q = Inr q')"
  by (auto simp: context_step_def Let_def split: option.splits)

lemma context_loop_ok:
  "(\<exists>p'. context_loop ctx p = Inr p') \<longleftrightarrow> (\<forall>(k, v)\<in>set ctx. \<exists>q'. context_step k v p = Inr q')"
proof (induction ctx arbitrary: p)
  case (Cons kv ctx)
  obtain k v where kv: "kv = (k, v)" by fastforce
  show ?case
  proof (cases "context_step k v p")
    case (Inl e)
    then show ?thesis by (simp add: kv)
  next
    case (Inr p1)
    have "(\<exists>q'. context_step k' v' p1 = Inr q') \<longleftrightarrow> (\<exists>q'. context_step k' v' p = Inr q')" for k' v'
      by (rule context_step_ok)
    then show ?thesis using Inr Cons.IH [of p1] by (simp add: kv)
  qed
qed simp

lemma context_loop_baseDir:
  assumes "context_loop ctx p = Inr p'" and "distinct_ci ctx"
  shows "pv_baseDir p' = (case find_ci ctx paramShare of None \<Rightarrow> pv_baseDir p | Some v \<Rightarrow> v)"
  using assms
proof (induction ctx p rule: context_loop.induct)
  case (2 k v ctx p)
  obtain p1 where p1: "context_step k v p = Inr p1" "context_loop ctx p1 = Inr p'"
    using 2(2) by (auto split: sum.splits)
  have "distinct_ci ctx" "find_ci ctx (ToLower k) = None"
    using 2(3) find_ci_fresh by (auto simp: distinct_ci_Cons)
  with 2(1) [OF p1] context_step_baseDir [OF p1(1)] show ?case by (auto split: option.splits)
qed simp

lemma publish_context_any_order:
  assumes "publish_context d ord req volCap = Inr p" and "range_ok ord" and "range_ok ord2"
    and "distinct_ci (np_VolumeContext req)"
  obtains q where "publish_context d ord2 req volCap = Inr q" "pv_baseDir q = pv_baseDir p"
proof -
  let ?p0 = "\<lparr>pv_server = '''', pv_baseDir = '''', pv_subDir = '''', pv_replace = [],
      pv_options = publish_flags volCap (np_Readonly req), pv_permissions = d_mountPermissions d\<rparr>"
  have p: "context_loop (range_over ord (np_VolumeContext req)) ?p0 = Inr p"
    using assms(1) by (simp add: publish_context_def)
  then have "\<forall>(k, v)\<in>set (np_VolumeContext req). \<exists>q'. context_step k v ?p0 = Inr q'"
    using context_loop_ok [of "range_over ord (np_VolumeContext req)" ?p0] assms(2) by simp
  then have "\<exists>q. context_loop (range_over ord2 (np_VolumeContext req)) ?p0 = Inr q"
    using context_loop_ok [of "range_over ord2 (np_VolumeContext req)" ?p0] assms(3) by simp
  then obtain q where q: "context_loop (range_over ord2 (np_VolumeContext req)) ?p0 = Inr q" by blast
  have d: "distinct_ci (range_over o' (np_VolumeContext req))" if "range_ok o'" for o'
    using assms(4) that by (simp add: distinct_ci_def)
  have "pv_baseDir q = pv_baseDir p"
    using context_loop_baseDir [OF q d [OF assms(3)]] context_loop_baseDir [OF p d [OF assms(2)]]
    by (simp add: find_ci_perm assms(2-4))
  with q show thesis using that by (simp add: publish_context_def)
qed

section \<open>Lemmas: what a mounter reports\<close>

lemma publish_reported:
  assumes "NodePublishVolume ns d ord ord' os req w = (Return (), w')" and "reports_mounts os"
    and "list_all (\<lambda>c. \<not> may_detach (np_TargetPath req) c) h"
  shows "reported_mounted os (np_TargetPath req) (w_trace w' @ h)"
proof -
  let ?t = "np_TargetPath req"
  have keep: "list_all (\<lambda>c. \<not> may_detach ?t c) cs" if "\<forall>c\<in>set cs. publish_call req c" for cs
    using that by (auto simp: list_all_iff may_detach_def)
  obtain cs where cs: "w_trace w' = w_trace w @ cs" "\<forall>c\<in>set cs. publish_call req c"
    using NodePublishVolume_calls [OF assms(1)] by (auto simp: only_calls_def)
  from assms(1) obtain source opts where
    "os_isLikelyNotMountPoint os (w_trace w) ?t = (False, None) \<or> mount_made os source ?t opts w w'"
    by (rule NodePublishVolume_success) blast
  then show ?thesis
  proof
    assume "os_isLikelyNotMountPoint os (w_trace w) ?t = (False, None)"
    then show ?thesis
      using assms(2,3) keep [OF cs(2)] cs(1) unfolding reports_mounts_def reported_mounted_def
      by (metis append.assoc list_all_append)
  next
    assume "mount_made os source ?t opts w w'"
    then obtain h1 h2 where tr: "w_trace w' = (w_trace w @ h1) @ [CMount source ?t ''nfs'' opts] @ h2"
      and ok: "os_mount os (w_trace w @ h1) source ?t ''nfs'' opts = None"
      by (auto simp: mount_made_def)
    then have "cs = h1 @ [CMount source ?t ''nfs'' opts] @ h2" using cs(1) by simp
    then have "list_all (\<lambda>c. \<not> may_detach ?t c) (h2 @ h)" using keep [of h2] cs(2) assms(3) by simp
    with ok tr assms(2) show ?thesis unfolding reports_mounts_def by (metis append.assoc)
  qed
qed

lemma attached_append: "attached p b (h @ h') = attached p (attached p b h) h'"
  by (induction p b h rule: attached.induct) auto

lemma attached_keep: "list_all (\<lambda>c. \<not> may_detach p c) h \<Longrightarrow> attached p True h"
  by (induction p True h rule: attached.induct) (auto simp: may_detach_def)

lemma attached_none: "list_all (\<lambda>c. \<not> may_attach p c) h \<Longrightarrow> \<not> attached p False h"
  by (induction p False h rule: attached.induct) (auto simp: may_attach_def)

lemma truthful_reported: "reported_mounted truthful_os p h \<longleftrightarrow> attached p False h"
  by (auto simp: reported_mounted_def truthful_os_def)

lemma truthful_mounts: "reports_mounts truthful_os"
proof -
  have "attached p False (h @ [CMount source p fs opts] @ h')" if "list_all (\<lambda>c. \<not> may_detach p c) h'"
    for h h' source p fs opts
    using attached_keep [OF that] by (simp add: attached_append)
  moreover have "attached p False (h @ h')" if "attached p False h" "list_all (\<lambda>c. \<not> may_detach p c) h'"
    for h h' p
    using attached_keep [OF that(2)] that(1) by (simp add: attached_append)
  ultimately show ?thesis unfolding reports_mounts_def truthful_reported by blast
qed

lemma truthful_removals: "reports_removals truthful_os"
proof -
  have "\<not> attached p False (w_trace w)" if "gone truthful_os p w" for p and w :: "unit world"
    using that
    by (auto simp: gone_def truthful_os_def attached_append no_entry_def split: if_splits)
  then show ?thesis
    unfolding reports_removals_def truthful_reported
    by (simp add: attached_append attached_none)
qed

text \<open>A target published and unpublished on that mounter.\<close>

lemma truthful_publish:
  "NodePublishVolume demo_ns demo_driver in_order in_order truthful_os (demo_req []) sample_world =
     (Return (), published_world)"
  by code_simp

lemma truthful_unpublish:
  "NodeUnpublishVolume demo_ns truthful_os ''vol'' ''/mnt'' published_world = (Return (), unpublished_world)"
  by code_simp

section \<open>Properties\<close>





end
