(* ===== verification/ControllerServer.thy ===== *)
theory ControllerServer
  imports NodeServer VolumeId LBBalance
begin

text \<open>
  The controller server of \<open>pkg/nfs/controllerserver.go\<close>: publishing and unpublishing through the
  load balancing controller, the capabilities, and the internal mounts that provisioning makes through
  the driver's own node server.  \<open>ords n\<close> is the order of the \<open>n\<close>-th \<open>range\<close> loop over a map
  in the course of a handler; the lister and the updater are the API server as the load balancing
  controller sees it.
\<close>

type_synonym orders = "nat \<Rightarrow> visit"

definition shift :: "nat \<Rightarrow> orders \<Rightarrow> orders" where
  "shift k ords n = ords (n + k)"

section \<open>Publishing and unpublishing\<close>

record ControllerPublishVolumeRequest =
  cp_VolumeId :: string
  cp_NodeId :: string
  cp_VolumeCapability :: "access_type option"

text \<open>The calls into the load balancing controller, which keeps its map and talks to the API
  server; on the nil controller they panic.\<close>

definition assign_call ::
  "controller_server \<Rightarrow> lister \<Rightarrow> 'api updater \<Rightarrow> visit \<Rightarrow> string \<Rightarrow> string \<Rightarrow> 'api world
   \<Rightarrow> gomap outcome \<times> 'api world" where
  "assign_call cs get upd ord nodeID volumeID w =
     (if \<not> cs_hasLB cs then (Panics nil_dereference, w)
      else
        (case AssignIPToNode get upd ord nodeID volumeID (w_ipMap w) (w_api w) of
           (r, m, a) \<Rightarrow>
             ((case r of
                 Return ip \<Rightarrow> Return [(NodeAnnotation, ip)]
               | Fail e \<Rightarrow>
                   Fail (Status Internal ''failed to assign a NFS server IP to node %s: %v'')
               | Panics msg \<Rightarrow> Panics msg),
              w\<lparr>w_ipMap := m, w_api := a\<rparr>)))"

text \<open>The receiver is the driver's controller server, which is the nil pointer, \<open>None\<close>, when the driver
  is started without one; the early checks do not touch it.\<close>

definition ControllerPublishVolume ::
  "controller_server option \<Rightarrow> lister \<Rightarrow> 'api updater \<Rightarrow> visit \<Rightarrow> ControllerPublishVolumeRequest
   \<Rightarrow> 'api world \<Rightarrow> gomap outcome \<times> 'api world" where
  "ControllerPublishVolume cs get upd ord req w =
     (if cp_VolumeId req = ''''
      then (Fail (Status InvalidArgument ''ControllerPublishVolume Volume ID must be provided''), w)
      else if cp_NodeId req = ''''
      then (Fail (Status InvalidArgument ''ControllerPublishVolume Node ID must be provided''), w)
      else if cp_VolumeCapability req = None
      then (Fail (Status InvalidArgument
              ''ControllerPublishVolume Volume capability must be provided''), w)
      else
        (case cs of
           None \<Rightarrow> (Panics nil_dereference, w)
         | Some cs' \<Rightarrow>
             with_lock (controllerLockKey (cp_NodeId req) (cp_VolumeId req))
               (assign_call cs' get upd ord (cp_NodeId req) (cp_VolumeId req)) w))"

definition remove_call ::
  "controller_server \<Rightarrow> lister \<Rightarrow> 'api updater \<Rightarrow> string \<Rightarrow> string \<Rightarrow> 'api world
   \<Rightarrow> unit outcome \<times> 'api world" where
  "remove_call cs get upd nodeID volumeID w =
     (if \<not> cs_hasLB cs then (Panics nil_dereference, w)
      else
        (case RemoveIPFromNode get upd nodeID volumeID (w_ipMap w) (w_api w) of
           (r, m, a) \<Rightarrow>
             ((case r of
                 Return _ \<Rightarrow> Return ()
               | Fail e \<Rightarrow>
                   Fail (Status Internal ''failed to remove IP annotation from node %s: %v'')
               | Panics msg \<Rightarrow> Panics msg),
              w\<lparr>w_ipMap := m, w_api := a\<rparr>)))"

definition ControllerUnpublishVolume ::
  "controller_server option \<Rightarrow> lister \<Rightarrow> 'api updater \<Rightarrow> string \<Rightarrow> string \<Rightarrow> 'api world
   \<Rightarrow> unit outcome \<times> 'api world" where
  "ControllerUnpublishVolume cs get upd volumeID nodeID w =
     (if volumeID = ''''
      then (Fail (Status InvalidArgument ''ControllerUnpublishVolume Volume ID must be provided''), w)
      else if nodeID = ''''
      then (Fail (Status InvalidArgument ''ControllerUnpublishVolume Node ID must be provided''), w)
      else
        (case cs of
           None \<Rightarrow> (Panics nil_dereference, w)
         | Some cs' \<Rightarrow>
             with_lock (controllerLockKey nodeID volumeID) (remove_call cs' get upd nodeID volumeID) w))"

section \<open>Capabilities and unimplemented calls\<close>

fun isValidVolumeCapabilities_loop :: "access_type list \<Rightarrow> go_error option" where
  "isValidVolumeCapabilities_loop [] = None"
| "isValidVolumeCapabilities_loop (c # volCaps) =
     (if c = Block then Some (Errorf ''block volume capability not supported'')
      else isValidVolumeCapabilities_loop volCaps)"

definition isValidVolumeCapabilities :: "access_type list \<Rightarrow> go_error option" where
  "isValidVolumeCapabilities volCaps =
     (if volCaps = [] then Some (Errorf ''volume capabilities missing in request'')
      else isValidVolumeCapabilities_loop volCaps)"

definition ValidateVolumeCapabilities ::
  "string \<Rightarrow> access_type list \<Rightarrow> access_type list outcome" where
  "ValidateVolumeCapabilities volumeID volCaps =
     (if volumeID = '''' then Fail (Status InvalidArgument ''Volume ID missing in request'')
      else (case isValidVolumeCapabilities volCaps of
              Some e \<Rightarrow> Fail (Status InvalidArgument (err_text e))
            | None \<Rightarrow> Return volCaps))"

definition ControllerGetCapabilities :: "driver \<Rightarrow> ControllerServiceCapability list outcome" where
  "ControllerGetCapabilities d =
     (if d_cs d = None then Panics nil_dereference else Return (d_cscap d))"

definition ControllerGetVolume :: "unit outcome" where
  "ControllerGetVolume = Fail (Status Unimplemented '''')"

definition ListVolumes :: "unit outcome" where
  "ListVolumes = Fail (Status Unimplemented '''')"

definition GetCapacity :: "unit outcome" where
  "GetCapacity = Fail (Status Unimplemented '''')"

definition ListSnapshots :: "unit outcome" where
  "ListSnapshots = Fail (Status Unimplemented '''')"

definition ControllerExpandVolume :: "unit outcome" where
  "ControllerExpandVolume = Fail (Status Unimplemented '''')"

definition ControllerModifyVolume :: "unit outcome" where
  "ControllerModifyVolume = Fail (Status Unimplemented ''ControllerModifyVolume unsupported'')"

section \<open>Internal mounts\<close>

definition internal_context :: "visit \<Rightarrow> nfsVolume \<Rightarrow> gomap \<Rightarrow> gomap" where
  "internal_context ord vol volumeContext =
     fold (\<lambda>(k, v) m. if ToLower k \<noteq> paramSubDir then AList.update k v m else m)
       (range_over ord volumeContext)
       [(paramServer, vol_server vol), (paramShare, FJoin [''/'' @ vol_baseDir vol])]"

text \<open>The request that \<open>internalMount\<close> sends to the node server; it names no publish context.\<close>

definition internal_request ::
  "driver \<Rightarrow> visit \<Rightarrow> nfsVolume \<Rightarrow> gomap \<Rightarrow> access_type option \<Rightarrow> NodePublishVolumeRequest" where
  "internal_request d ord vol volumeContext volCap =
     \<lparr>np_VolumeId = vol_id vol,
      np_TargetPath = getInternalMountPath (d_workingMountDir d) vol,
      np_VolumeCapability = Some (case volCap of None \<Rightarrow> MountVolume [] | Some c \<Rightarrow> c),
      np_Readonly = False,
      np_VolumeContext = internal_context ord vol volumeContext,
      np_PublishContext = []\<rparr>"

text \<open>The receiver of the calls below is \<open>d_cs d\<close>, whose driver is \<open>d\<close>: reading \<open>cs.Driver\<close> panics if it
  is nil.\<close>

definition internalMount ::
  "driver \<Rightarrow> orders \<Rightarrow> os \<Rightarrow> nfsVolume \<Rightarrow> gomap \<Rightarrow> access_type option \<Rightarrow> 'api world
   \<Rightarrow> unit outcome \<times> 'api world" where
  "internalMount d ords os vol volumeContext volCap w =
     (if d_cs d = None then (Panics nil_dereference, w)
      else NodePublishVolume (d_ns d) d (ords 1) (ords 2) os
        (internal_request d (ords 0) vol volumeContext volCap) w)"

definition internalUnmount ::
  "driver \<Rightarrow> os \<Rightarrow> nfsVolume \<Rightarrow> 'api world \<Rightarrow> unit outcome \<times> 'api world" where
  "internalUnmount d os vol w =
     (if d_cs d = None then (Panics nil_dereference, w)
      else NodeUnpublishVolume (d_ns d) os (vol_id vol) (getInternalMountPath (d_workingMountDir d) vol) w)"

text \<open>The idiom of all provisioning handlers: mount the share, fail with \<open>msg\<close> if that fails, and
  otherwise run the body with a deferred unmount whose error is only logged.\<close>

definition deferring ::
  "('api world \<Rightarrow> unit outcome \<times> 'api world) \<Rightarrow> ('api world \<Rightarrow> 'a outcome \<times> 'api world)
   \<Rightarrow> 'api world \<Rightarrow> 'a outcome \<times> 'api world" where
  "deferring deferred body w =
     (case body w of (r, w1) \<Rightarrow>
        (case deferred w1 of
           (Panics m, w2) \<Rightarrow> (Panics m, w2)
         | (Return _, w2) \<Rightarrow> (r, w2)
         | (Fail _, w2) \<Rightarrow> (r, w2)))"

definition with_mount ::
  "driver \<Rightarrow> orders \<Rightarrow> os \<Rightarrow> nfsVolume \<Rightarrow> gomap \<Rightarrow> access_type option \<Rightarrow> string
   \<Rightarrow> ('api world \<Rightarrow> 'a outcome \<times> 'api world) \<Rightarrow> 'api world \<Rightarrow> 'a outcome \<times> 'api world" where
  "with_mount d ords os vol volumeContext volCap msg body w =
     (case internalMount d ords os vol volumeContext volCap w of
        (Fail _, w1) \<Rightarrow> (Fail (Status Internal msg), w1)
      | (Panics m, w1) \<Rightarrow> (Panics m, w1)
      | (Return _, w1) \<Rightarrow> deferring (internalUnmount d os vol) body w1)"

section \<open>A cluster with one node\<close>

text \<open>For the witnesses: the API server is one node object, the lister is up to date and every
  update succeeds.\<close>

definition one_node_world :: "node world" where
  "one_node_world =
     \<lparr>w_locks = {}, w_trace = [], w_stats = NewTimedCache 600,
      w_ipMap = [(''10.0.0.1'', 0), (''10.0.0.2'', 0)],
      w_api = \<lparr>Name = ''n1'', Annotations = None, ResourceVersion = 0\<rparr>\<rparr>"

definition publish_now :: "string \<Rightarrow> node world \<Rightarrow> gomap outcome \<times> node world" where
  "publish_now volumeID w =
     ControllerPublishVolume (Some \<lparr>cs_hasLB = True\<rparr>) (\<lambda>_. Inr (w_api w)) (\<lambda>n _. (None, n)) in_order
       \<lparr>cp_VolumeId = volumeID, cp_NodeId = ''n1'', cp_VolumeCapability = Some (MountVolume [])\<rparr> w"

definition unpublish_now :: "string \<Rightarrow> node world \<Rightarrow> unit outcome \<times> node world" where
  "unpublish_now volumeID w =
     ControllerUnpublishVolume (Some \<lparr>cs_hasLB = True\<rparr>) (\<lambda>_. Inr (w_api w)) (\<lambda>n _. (None, n)) volumeID
       ''n1'' w"

section \<open>Lemmas\<close>

lemma assign_call_locks: "assign_call cs get upd ord n v w = (r, w') \<Longrightarrow> w_locks w' = w_locks w"
  by (auto simp: assign_call_def split: if_splits prod.splits)

lemma remove_call_locks: "remove_call cs get upd n v w = (r, w') \<Longrightarrow> w_locks w' = w_locks w"
  by (auto simp: remove_call_def split: if_splits prod.splits)

lemma ControllerPublishVolume_locks:
  "w_locks (snd (ControllerPublishVolume cs get upd ord req w)) = w_locks w"
  unfolding ControllerPublishVolume_def
  by (auto intro!: with_lock_locks [OF prod.collapse [symmetric] assign_call_locks] split: option.split)

lemma ControllerUnpublishVolume_locks:
  "w_locks (snd (ControllerUnpublishVolume cs get upd v n w)) = w_locks w"
  unfolding ControllerUnpublishVolume_def
  by (auto intro!: with_lock_locks [OF prod.collapse [symmetric] remove_call_locks] split: option.split)

lemma AssignIPToNode_Return:
  assumes "AssignIPToNode get upd ord nodeID volumeID m a = (Return ip, m', a')" and "range_ok ord"
  shows "\<exists>n. get nodeID = Inr n \<and> ip_known m ip \<and>
    (assigned_ip n = Some ip \<and> m' = m \<and> a' = a \<or>
     upd (annotate n ip) a = (None, a') \<and> m' = ip_add 1 ip m)"
  using assms(1)
  by (auto simp: lb_defs split: sum.splits option.splits if_splits list.splits prod.splits
      dest: sorted_ips_Cons [OF assms(2)])

lemma ControllerPublishVolume_Return:
  assumes "ControllerPublishVolume cs get upd ord req w = (Return ctx, w')" and "range_ok ord"
  shows "\<exists>ip n. ctx = [(NodeAnnotation, ip)] \<and> ip_known (w_ipMap w) ip \<and>
    get (cp_NodeId req) = Inr n \<and>
    (assigned_ip n = Some ip \<and> w' = w \<or>
     (\<exists>a. upd (annotate n ip) (w_api w) = (None, a) \<and>
        w' = w\<lparr>w_ipMap := ip_add 1 ip (w_ipMap w), w_api := a\<rparr>))"
proof -
  let ?k = "controllerLockKey (cp_NodeId req) (cp_VolumeId req)"
  obtain cs' where "with_lock ?k (assign_call cs' get upd ord (cp_NodeId req) (cp_VolumeId req)) w
      = (Return ctx, w')"
    using assms(1) by (auto simp: ControllerPublishVolume_def split: if_splits option.splits)
  then show ?thesis
  proof (cases rule: with_lock_cases)
    case (run w1)
    from run(2) obtain ip m a where ctx: "ctx = [(NodeAnnotation, ip)]"
      and call: "AssignIPToNode get upd ord (cp_NodeId req) (cp_VolumeId req) (w_ipMap w) (w_api w)
        = (Return ip, m, a)"
      and w1: "w1 = w\<lparr>w_locks := insert ?k (w_locks w), w_ipMap := m, w_api := a\<rparr>"
      by (auto simp: assign_call_def split: if_splits prod.splits outcome.splits)
    have "w' = w\<lparr>w_ipMap := m, w_api := a\<rparr>" using run(1,3) w1 by simp
    with ctx AssignIPToNode_Return [OF call assms(2)] show ?thesis by auto
  qed simp
qed

section \<open>Properties\<close>

text \<open>C14. What a successful \<open>ControllerPublishVolume\<close> returns: a publish context with exactly one
  entry, the server IP, which is one of the configured IPs.  Either the node carried that IP already
  and nothing changed, or the node object was updated successfully with it and its count went up by
  one.  Nothing else in the driver's state changes.\<close>

theorem ControllerPublishVolume_returns_ip:
  assumes "ControllerPublishVolume cs get upd ord req w = (Return ctx, w')" and "range_ok ord"
  shows "\<exists>ip n. ctx = [(NodeAnnotation, ip)] \<and> ip_known (w_ipMap w) ip \<and>
    get (cp_NodeId req) = Inr n \<and>
    (assigned_ip n = Some ip \<and> w' = w \<or>
     (\<exists>a. upd (annotate n ip) (w_api w) = (None, a) \<and>
        w' = w\<lparr>w_ipMap := ip_add 1 ip (w_ipMap w), w_api := a\<rparr>))"
  by (rule ControllerPublishVolume_Return [OF assms])

theorem ControllerPublishVolume_returns_ip_witness:
  "\<exists>ctx w' ip n. publish_now ''v1'' one_node_world = (Return ctx, w') \<and>
    ctx = [(NodeAnnotation, ip)] \<and> ip_known (w_ipMap one_node_world) ip \<and>
    Inr (w_api one_node_world) = (Inr n :: api_error + node) \<and>
    (assigned_ip n = Some ip \<and> w' = one_node_world \<or>
     (\<exists>a. (None, annotate n ip) = (None :: api_error option, a) \<and>
        w' = one_node_world\<lparr>w_ipMap := ip_add 1 ip (w_ipMap one_node_world), w_api := a\<rparr>))"
proof -
  have "fst (publish_now ''v1'' one_node_world) = Return [(NodeAnnotation, ''10.0.0.1'')]"
    by code_simp
  then have run: "publish_now ''v1'' one_node_world =
      (Return [(NodeAnnotation, ''10.0.0.1'')], snd (publish_now ''v1'' one_node_world))"
    by (metis prod.collapse)
  from ControllerPublishVolume_returns_ip [OF run [unfolded publish_now_def] range_ok_in_order] run
  show ?thesis unfolding publish_now_def by blast
qed


end
