(* ===== verification/Provisioning.thy ===== *)
theory Provisioning
  imports ControllerServer
begin

text \<open>
  Creation and deletion of volumes and snapshots (\<open>pkg/nfs/controllerserver.go\<close>).  Each handler is
  its checks followed by the work done between the internal mount and the deferred unmount, which is
  a definition of its own.
\<close>

section \<open>Requests and responses\<close>

text \<open>\<open>NoSource\<close> is a content source whose oneof is unset.\<close>

datatype content_source = SnapshotSource string | VolumeSource string | NoSource

record CreateVolumeRequest =
  cv_Name :: string
  cv_RequiredBytes :: int
  cv_VolumeCapabilities :: "access_type list"
  cv_Parameters :: gomap
  cv_VolumeContentSource :: "content_source option"

record csi_volume =
  r_VolumeId :: string
  r_CapacityBytes :: int
  r_VolumeContext :: gomap
  r_ContentSource :: "content_source option"

record CreateSnapshotRequest =
  sn_Name :: string
  sn_SourceVolumeId :: string
  sn_Parameters :: gomap

record csi_snapshot =
  r_SnapshotId :: string
  r_SourceVolumeId :: string
  r_SizeBytes :: int
  r_CreationTime :: int
  r_ReadyToUse :: bool

definition first_cap :: "access_type list \<Rightarrow> access_type option" where
  "first_cap caps = (case caps of [] \<Rightarrow> None | c # _ \<Rightarrow> Some c)"

section \<open>Copying into a new volume\<close>

definition run_copy ::
  "os \<Rightarrow> string list \<Rightarrow> string \<Rightarrow> 'api world \<Rightarrow> unit outcome \<times> 'api world" where
  "run_copy os args msg w =
     (case syscall (CExec args) (\<lambda>h. os_exec os h args) w of
        ((Some e, _), w1) \<Rightarrow> (Fail (Status Internal msg), w1)
      | ((None, _), w1) \<Rightarrow> (Return (), w1))"

definition snapshotArchive :: "driver \<Rightarrow> nfsSnapshot \<Rightarrow> string" where
  "snapshotArchive d snap =
     FJoin [getInternalVolumePath (d_workingMountDir d) (volumeFromSnapshot snap), archiveName snap]"

definition copyFromSnapshot ::
  "driver \<Rightarrow> orders \<Rightarrow> os \<Rightarrow> access_type list \<Rightarrow> string \<Rightarrow> nfsVolume \<Rightarrow> 'api world
   \<Rightarrow> unit outcome \<times> 'api world" where
  "copyFromSnapshot d ords os caps snapshotId dstVol w =
     (case getNfsSnapFromID snapshotId of
        Fail e \<Rightarrow> (Fail (Status NotFound (err_text e)), w)
      | Panics m \<Rightarrow> (Panics m, w)
      | Return snap \<Rightarrow>
          with_mount d ords os (volumeFromSnapshot snap) [] (first_cap caps)
            ''failed to mount src nfs server for snapshot volume copy: %v''
            (with_mount d (shift 3 ords) os dstVol [] (first_cap caps)
              ''failed to mount dst nfs server for snapshot volume copy: %v''
              (run_copy os
                [''tar'', ''-xzvf'', snapshotArchive d snap, ''-C'',
                 getInternalVolumePath (d_workingMountDir d) dstVol]
                ''failed to copy volume for snapshot: %v: %v'')) w)"

definition copyFromVolume ::
  "driver \<Rightarrow> orders \<Rightarrow> os \<Rightarrow> access_type list \<Rightarrow> string \<Rightarrow> nfsVolume \<Rightarrow> 'api world
   \<Rightarrow> unit outcome \<times> 'api world" where
  "copyFromVolume d ords os caps volumeId dstVol w =
     (case getNfsVolFromID volumeId of
        Fail e \<Rightarrow> (Fail (Status NotFound (err_text e)), w)
      | Panics m \<Rightarrow> (Panics m, w)
      | Return srcVol \<Rightarrow>
          with_mount d ords os srcVol [] (first_cap caps) ''failed to mount src nfs server: %v''
            (with_mount d (shift 3 ords) os dstVol [] (first_cap caps)
              ''failed to mount dst nfs server: %v''
              (run_copy os
                [''cp'', ''-a'', getInternalVolumePath (d_workingMountDir d) srcVol @ ''/.'',
                 getInternalVolumePath (d_workingMountDir d) dstVol]
                ''failed to copy volume %v: %v'')) w)"

definition copyVolume ::
  "driver \<Rightarrow> orders \<Rightarrow> os \<Rightarrow> access_type list \<Rightarrow> content_source \<Rightarrow> nfsVolume \<Rightarrow> 'api world
   \<Rightarrow> unit outcome \<times> 'api world" where
  "copyVolume d ords os caps vs vol w =
     (case vs of
        SnapshotSource s \<Rightarrow> copyFromSnapshot d ords os caps s vol w
      | VolumeSource v \<Rightarrow> copyFromVolume d ords os caps v vol w
      | NoSource \<Rightarrow> (Fail (Status InvalidArgument ''%v not a proper volume source''), w))"

section \<open>CreateVolume\<close>

fun create_params_loop :: "gomap \<Rightarrow> 64 word \<Rightarrow> go_error + 64 word" where
  "create_params_loop [] perms = Inr perms"
| "create_params_loop ((k, v) # rest) perms =
     (if ToLower k \<in> {paramServer, paramShare, paramSubDir, paramOnDelete, pvcNamespaceKey,
           pvcNameKey, pvNameKey}
      then create_params_loop rest perms
      else if ToLower k = mountPermissionsField then
        (if v \<noteq> '''' then
           (case ParseUint v 8 32 of
              None \<Rightarrow> Inl (Status InvalidArgument ''invalid mountPermissions %s in storage class'')
            | Some n \<Rightarrow> create_params_loop rest (of_int n))
         else create_params_loop rest perms)
      else Inl (Status InvalidArgument ''invalid parameter %q in storage class''))"

text \<open>A failing chmod is only logged.\<close>

definition create_mounted ::
  "driver \<Rightarrow> orders \<Rightarrow> os \<Rightarrow> CreateVolumeRequest \<Rightarrow> nfsVolume \<Rightarrow> 64 word \<Rightarrow> 'api world
   \<Rightarrow> csi_volume outcome \<times> 'api world" where
  "create_mounted d ords os req vol perms w =
     (let path = getInternalVolumePath (d_workingMountDir d) vol in
      case syscall (CMkdirAll path 0x1FF) (\<lambda>h. os_mkdirAll os h path 0x1FF) w of
        (Some e, w1) \<Rightarrow> (Fail (Status Internal ''failed to make subdirectory: %v''), w1)
      | (None, w1) \<Rightarrow>
          (let w2 = (if perms > 0
                     then snd (syscall (CChmod path (FileMode perms))
                       (\<lambda>h. os_chmod os h path (FileMode perms)) w1)
                     else w1);
               resp = Return \<lparr>r_VolumeId = vol_id vol, r_CapacityBytes = 0,
                 r_VolumeContext =
                   the (setKeyValueInMap (ords 0) (Some (cv_Parameters req)) paramSubDir (vol_subDir vol)),
                 r_ContentSource = cv_VolumeContentSource req\<rparr>
           in case cv_VolumeContentSource req of
                None \<Rightarrow> (resp, w2)
              | Some vs \<Rightarrow>
                  (case copyVolume d (shift 1 ords) os (cv_VolumeCapabilities req) vs vol w2 of
                     (Fail e, w3) \<Rightarrow> (Fail e, w3)
                   | (Panics m, w3) \<Rightarrow> (Panics m, w3)
                   | (Return _, w3) \<Rightarrow> (resp, w3))))"

definition CreateVolume ::
  "driver \<Rightarrow> orders \<Rightarrow> os \<Rightarrow> CreateVolumeRequest \<Rightarrow> 'api world \<Rightarrow> csi_volume outcome \<times> 'api world"
  where
  "CreateVolume d ords os req w =
     (if cv_Name req = ''''
      then (Fail (Status InvalidArgument ''CreateVolume name must be provided''), w)
      else
     (case isValidVolumeCapabilities (cv_VolumeCapabilities req) of
        Some e \<Rightarrow> (Fail (Status InvalidArgument (err_text e)), w)
      | None \<Rightarrow>
     if d_cs d = None then (Panics nil_dereference, w)
     else
     (case create_params_loop (range_over (ords 0) (cv_Parameters req)) (d_mountPermissions d) of
        Inl e \<Rightarrow> (Fail e, w)
      | Inr perms \<Rightarrow>
     (case newNFSVolume (ords 1) (ords 2) (cv_Name req) (cv_RequiredBytes req) (cv_Parameters req)
             (d_defaultOnDeletePolicy d) of
        Fail e \<Rightarrow> (Fail (Status InvalidArgument (err_text e)), w)
      | Panics m \<Rightarrow> (Panics m, w)
      | Return vol \<Rightarrow>
          with_mount d (shift 3 ords) os vol (cv_Parameters req)
            (first_cap (cv_VolumeCapabilities req)) ''failed to mount nfs server: %v''
            (create_mounted d (shift 6 ords) os req vol perms) w))))"

section \<open>DeleteVolume\<close>

definition secrets_cap :: "visit \<Rightarrow> gomap \<Rightarrow> access_type option" where
  "secrets_cap ord secrets =
     (let mountOptions = getMountOptions ord secrets in
      if mountOptions \<noteq> '''' then Some (MountVolume [mountOptions]) else None)"

definition archivedPath :: "driver \<Rightarrow> nfsVolume \<Rightarrow> string" where
  "archivedPath d vol =
     FJoin [getInternalMountPath (d_workingMountDir d) vol, ''archived-'' @ vol_subDir vol]"

definition archive_move ::
  "driver \<Rightarrow> os \<Rightarrow> nfsVolume \<Rightarrow> 'api world \<Rightarrow> unit outcome \<times> 'api world" where
  "archive_move d os vol w =
     (let path = getInternalVolumePath (d_workingMountDir d) vol; archived = archivedPath d vol in
      case syscall (CRemoveAll archived) (\<lambda>h. os_removeAll os h archived) w of
        (Some e, w1) \<Rightarrow> (Fail (Status Internal ''failed to delete archived subdirectory %s: %v''), w1)
      | (None, w1) \<Rightarrow>
          (case syscall (CRename path archived) (\<lambda>h. os_rename os h path archived) w1 of
             (Some e, w2) \<Rightarrow> (Fail (Status Internal ''archive subdirectory(%s, %s) failed with %v''), w2)
           | (None, w2) \<Rightarrow> (Return (), w2)))"

definition delete_mounted ::
  "driver \<Rightarrow> os \<Rightarrow> nfsVolume \<Rightarrow> 'api world \<Rightarrow> unit outcome \<times> 'api world" where
  "delete_mounted d os vol w =
     (let path = getInternalVolumePath (d_workingMountDir d) vol in
      if EqualFold (vol_onDelete vol) archive then
        (if CHR ''/'' \<in> set (vol_subDir vol) then
           (let parentDir = Dir (archivedPath d vol) in
            case syscall (CMkdirAll parentDir 0x1FF) (\<lambda>h. os_mkdirAll os h parentDir 0x1FF) w of
              (Some e, w1) \<Rightarrow>
                (Fail (Status Internal ''create parent directory(%s) of %s failed with %v''), w1)
            | (None, w1) \<Rightarrow> archive_move d os vol w1)
         else archive_move d os vol w)
      else
        (case syscall (CRemoveAll path) (\<lambda>h. os_removeAll os h path) w of
           (Some e, w1) \<Rightarrow> (Fail (Status Internal ''delete subdirectory(%s) failed with %v''), w1)
         | (None, w1) \<Rightarrow> (Return (), w1)))"

definition effective_policy :: "driver \<Rightarrow> nfsVolume \<Rightarrow> nfsVolume" where
  "effective_policy d vol =
     (if vol_onDelete vol = '''' then vol\<lparr>vol_onDelete := d_defaultOnDeletePolicy d\<rparr> else vol)"

definition DeleteVolume ::
  "driver \<Rightarrow> orders \<Rightarrow> os \<Rightarrow> string \<Rightarrow> gomap \<Rightarrow> 'api world \<Rightarrow> unit outcome \<times> 'api world" where
  "DeleteVolume d ords os volumeID secrets w =
     (if volumeID = '''' then (Fail (Status InvalidArgument ''volume id is empty''), w)
      else
        (case getNfsVolFromID volumeID of
           Fail e \<Rightarrow> (Return (), w)
         | Panics m \<Rightarrow> (Panics m, w)
         | Return v \<Rightarrow>
             if vol_onDelete v = '''' \<and> d_cs d = None then (Panics nil_dereference, w)
             else
             (let volCap = secrets_cap (ords 0) secrets; vol = effective_policy d v in
              if \<not> EqualFold (vol_onDelete vol) retain
              then with_mount d (shift 1 ords) os vol [] volCap ''failed to mount nfs server: %v''
                (delete_mounted d os vol) w
              else (Return (), w))))"

section \<open>Snapshots\<close>

text \<open>The function \<open>validateSnapshot\<close> gives to \<open>filepath.WalkDir\<close>, and the walk, which stops at
  the first error.\<close>

fun validate_walk ::
  "string \<Rightarrow> string \<Rightarrow> (string \<times> string \<times> os_error option) list \<Rightarrow> go_error option" where
  "validate_walk root desired [] = None"
| "validate_walk root desired ((path, name, err) # visits) =
     (if path = root then validate_walk root desired visits
      else case err of
        Some e \<Rightarrow> Some (OsError e)
      | None \<Rightarrow>
          if name \<noteq> desired
          then Some (Status AlreadyExists
            ''snapshot with the same name but different source volume ID already exists: found %q, desired %q'')
          else validate_walk root desired visits)"

definition validateSnapshot ::
  "os \<Rightarrow> string \<Rightarrow> nfsSnapshot \<Rightarrow> 'api world \<Rightarrow> go_error option \<times> 'api world" where
  "validateSnapshot os snapInternalVolPath snap w =
     (case syscall (CWalkDir snapInternalVolPath) (\<lambda>h. os_walk os h snapInternalVolPath) w of
        (visits, w1) \<Rightarrow> (validate_walk snapInternalVolPath (archiveName snap) visits, w1))"

definition snapshot_archive ::
  "driver \<Rightarrow> os \<Rightarrow> nfsSnapshot \<Rightarrow> nfsVolume \<Rightarrow> 'api world \<Rightarrow> csi_snapshot outcome \<times> 'api world" where
  "snapshot_archive d os snap srcVol w =
     (let srcPath = getInternalVolumePath (d_workingMountDir d) srcVol;
          dstPath = snapshotArchive d snap in
      case run_copy os [''tar'', ''-C'', srcPath, ''-czvf'', dstPath, ''.'']
             ''failed to create archive for snapshot: %v: %v'' w of
        (Fail e, w1) \<Rightarrow> (Fail e, w1)
      | (Panics m, w1) \<Rightarrow> (Panics m, w1)
      | (Return _, w1) \<Rightarrow>
          (case syscall (CStat dstPath) (\<lambda>h. os_stat os h dstPath) w1 of (st, w2) \<Rightarrow>
           (case syscall CNow (os_now os) w2 of (now, w3) \<Rightarrow>
              (Return \<lparr>r_SnapshotId = snap_id snap, r_SourceVolumeId = vol_id srcVol,
                 r_SizeBytes = (case st of Inl _ \<Rightarrow> 0 | Inr sz \<Rightarrow> sz),
                 r_CreationTime = now, r_ReadyToUse = True\<rparr>, w3))))"

definition snapshot_mounted ::
  "driver \<Rightarrow> orders \<Rightarrow> os \<Rightarrow> nfsSnapshot \<Rightarrow> nfsVolume \<Rightarrow> 'api world
   \<Rightarrow> csi_snapshot outcome \<times> 'api world" where
  "snapshot_mounted d ords os snap srcVol w =
     (let path = getInternalVolumePath (d_workingMountDir d) (volumeFromSnapshot snap) in
      case syscall (CMkdirAll path 0x1FF) (\<lambda>h. os_mkdirAll os h path 0x1FF) w of
        (Some e, w1) \<Rightarrow> (Fail (Status Internal ''failed to make subdirectory: %v''), w1)
      | (None, w1) \<Rightarrow>
          (case validateSnapshot os path snap w1 of
             (Some e, w2) \<Rightarrow> (Fail e, w2)
           | (None, w2) \<Rightarrow>
               with_mount d ords os srcVol [] None ''failed to mount src nfs server: %v''
                 (snapshot_archive d os snap srcVol) w2))"

definition CreateSnapshot ::
  "driver \<Rightarrow> orders \<Rightarrow> os \<Rightarrow> CreateSnapshotRequest \<Rightarrow> 'api world
   \<Rightarrow> csi_snapshot outcome \<times> 'api world" where
  "CreateSnapshot d ords os req w =
     (if sn_Name req = ''''
      then (Fail (Status InvalidArgument ''CreateSnapshot name must be provided''), w)
      else if sn_SourceVolumeId req = ''''
      then (Fail (Status InvalidArgument ''CreateSnapshot source volume ID must be provided''), w)
      else
     (case getNfsVolFromID (sn_SourceVolumeId req) of
        Fail e \<Rightarrow> (Fail (Status NotFound ''failed to create source volume: %v''), w)
      | Panics m \<Rightarrow> (Panics m, w)
      | Return srcVol \<Rightarrow>
     (case newNFSSnapshot (ords 0) (sn_Name req) (sn_Parameters req) srcVol of
        Fail e \<Rightarrow> (Fail (Status NotFound ''failed to create nfsSnapshot: %v''), w)
      | Panics m \<Rightarrow> (Panics m, w)
      | Return snap \<Rightarrow>
          with_mount d (shift 1 ords) os (volumeFromSnapshot snap) [] None
            ''failed to mount snapshot nfs server: %v''
            (snapshot_mounted d (shift 4 ords) os snap srcVol) w)))"

definition delete_snapshot_mounted ::
  "driver \<Rightarrow> os \<Rightarrow> nfsVolume \<Rightarrow> 'api world \<Rightarrow> unit outcome \<times> 'api world" where
  "delete_snapshot_mounted d os vol w =
     (let path = getInternalVolumePath (d_workingMountDir d) vol in
      case syscall (CRemoveAll path) (\<lambda>h. os_removeAll os h path) w of
        (Some e, w1) \<Rightarrow> (Fail (Status Internal ''failed to delete subdirectory: %v''), w1)
      | (None, w1) \<Rightarrow> (Return (), w1))"

definition DeleteSnapshot ::
  "driver \<Rightarrow> orders \<Rightarrow> os \<Rightarrow> string \<Rightarrow> gomap \<Rightarrow> 'api world \<Rightarrow> unit outcome \<times> 'api world" where
  "DeleteSnapshot d ords os snapshotId secrets w =
     (if snapshotId = ''''
      then (Fail (Status InvalidArgument ''Snapshot ID is required for deletion''), w)
      else
        (case getNfsSnapFromID snapshotId of
           Fail e \<Rightarrow> (Return (), w)
         | Panics m \<Rightarrow> (Panics m, w)
         | Return snap \<Rightarrow>
             with_mount d (shift 1 ords) os (volumeFromSnapshot snap) []
               (secrets_cap (ords 0) secrets)
               ''failed to mount nfs server for snapshot deletion: %v''
               (delete_snapshot_mounted d os (volumeFromSnapshot snap)) w))"

section \<open>Lemmas\<close>

text \<open>The internal mount cannot succeed: its request carries no publish context, which the node
  server requires.\<close>

lemma internalMount_fails:
  "\<exists>r. internalMount d ords os vol ctx cap w = (r, w) \<and> \<not> is_return r \<and>
     (d_cs d \<noteq> None \<longrightarrow> d_ns d \<noteq> None \<longrightarrow> (\<forall>m. r \<noteq> Panics m))"
proof -
  have "map_of (np_PublishContext (internal_request d (ords 0) vol ctx cap)) NodeAnnotation = None"
    by (simp add: internal_request_def)
  from NodePublishVolume_no_ip [OF this, where ns = "d_ns d" and d = d and ord = "ords 1"
      and ord' = "ords 2" and os = os and w = w]
  show ?thesis unfolding internalMount_def by (cases "d_cs d") auto
qed

lemma with_mount_fails:
  "\<exists>r. with_mount d ords os vol ctx cap msg body w = (r, w) \<and> \<not> is_return r \<and>
     (d_cs d \<noteq> None \<longrightarrow> d_ns d \<noteq> None \<longrightarrow> r = Fail (Status Internal msg))"
proof -
  obtain r where "internalMount d ords os vol ctx cap w = (r, w)" "\<not> is_return r"
    "d_cs d \<noteq> None \<longrightarrow> d_ns d \<noteq> None \<longrightarrow> (\<forall>m. r \<noteq> Panics m)" using internalMount_fails by metis
  then show ?thesis by (cases r) (auto simp: with_mount_def)
qed

lemma getNfsVolFromID_no_panic: "getNfsVolFromID s \<noteq> Panics m"
  by (auto simp: getNfsVolFromID_def Let_def split: option.splits if_splits)

lemma getNfsSnapFromID_no_panic: "getNfsSnapFromID s \<noteq> Panics m"
  by (auto simp: getNfsSnapFromID_eq Let_def)

lemma DeleteVolume_result:
  assumes "volumeID \<noteq> ''''"
  shows "\<exists>r. DeleteVolume d ords os volumeID secrets w = (r, w) \<and>
    (is_return r \<longleftrightarrow> (\<forall>v. getNfsVolFromID volumeID = Return v \<longrightarrow>
       EqualFold (vol_onDelete (effective_policy d v)) retain \<and> (vol_onDelete v = '''' \<longrightarrow> d_cs d \<noteq> None)))"
proof (cases "getNfsVolFromID volumeID")
  case (Return v)
  then show ?thesis using assms
    by (auto simp: DeleteVolume_def Let_def intro: with_mount_fails [THEN ex_forward])
qed (use assms in \<open>auto simp: DeleteVolume_def getNfsVolFromID_no_panic\<close>)

text \<open>The archived directory is neither the volume's directory nor one above it.\<close>

lemma archived_not_above:
  assumes "d_workingMountDir d \<noteq> ''''" and "''..'' \<notin> set (Split (vol_subDir vol) (CHR ''/''))"
  shows "\<not> prefix (path_elems (archivedPath d vol))
    (path_elems (getInternalVolumePath (d_workingMountDir d) vol))"
proof -
  let ?m = "getInternalMountPath (d_workingMountDir d) vol"
  obtain e es where sp: "Split (vol_subDir vol) (CHR ''/'') = e # es"
    by (metis Split_nonempty neq_Nil_conv)
  have m: "?m \<noteq> []" by (simp add: getInternalMountPath_def FJoin_2_nonempty [OF assms(1)])
  have arch: "Split (''archived-'' @ vol_subDir vol) (CHR ''/'') = (''archived-'' @ e) # es"
    by (subst Split_append) (simp_all add: sp)
  then have "''..'' \<notin> set (Split (''archived-'' @ vol_subDir vol) (CHR ''/''))"
    using assms(2) sp by simp
  from path_elems_join_contained [OF m this] path_elems_join_contained [OF m assms(2)]
  show ?thesis
    by (auto simp: archivedPath_def getInternalVolumePath_def arch sp plain_elem_def
        dest!: prefix_length_le)
qed

lemma NodeGetVolumeStats_locks: "w_locks (snd (NodeGetVolumeStats ns os v path w)) = w_locks w"
proof -
  have get: "w_locks w' = w_locks w" if "stats_get os v w = (r, w')" for r w'
    using only_calls_frame(1) [OF conjunct2 [OF stats_get_frame [OF that]]] by simp
  have set: "w_locks (cache_set os v d w) = w_locks w" for d and w :: "'a world"
    by (simp add: cache_set_def syscall_def)
  have "w_locks (snd (measure_stats os v path w)) = w_locks w" for w :: "'a world"
    by (auto simp: measure_stats_def syscall_def set split: sum.splits)
  then show ?thesis
    by (auto simp: NodeGetVolumeStats_def split: prod.splits sum.splits option.splits dest: get)
qed

lemma with_mount_world: "snd (with_mount d ords os vol ctx cap msg body w) = w"
  using with_mount_fails [of d ords os vol ctx cap msg body w] by auto

lemma provisioning_world:
  "snd (CreateVolume d ords os vreq w) = w" "snd (DeleteVolume d ords os volumeID secrets w) = w"
  "snd (CreateSnapshot d ords os sreq w) = w" "snd (DeleteSnapshot d ords os s secrets w) = w"
  by (simp_all add: CreateVolume_def DeleteVolume_def CreateSnapshot_def DeleteSnapshot_def Let_def
      with_mount_world split: option.split sum.split outcome.split)

section \<open>Properties\<close>

text \<open>C31. Provisioning cannot succeed in this driver: its internal mount requests carry no publish
  context, which \<open>NodePublishVolume\<close> insists on, so \<open>CreateVolume\<close> and \<open>CreateSnapshot\<close> fail (or
  panic, when the driver runs without a node server) whatever the request and the environment, and
  leave everything as it was, although the driver advertises both capabilities.\<close>

theorem provisioning_never_succeeds:
  "(\<exists>r. CreateVolume d ords os req w = (r, w) \<and> \<not> is_return r) \<and>
   (\<exists>r. CreateSnapshot d ords os sreq w = (r, w) \<and> \<not> is_return r) \<and>
   (\<exists>caps. {ControllerServiceCapability_Rpc CREATE_DELETE_VOLUME,
      ControllerServiceCapability_Rpc CREATE_DELETE_SNAPSHOT}
     \<subseteq> set caps \<and>
      ControllerGetCapabilities ((fst (NewDriver version options))\<lparr>d_cs := Some cs\<rparr>) = Return caps)"
proof (intro conjI)
  show "\<exists>r. CreateVolume d ords os req w = (r, w) \<and> \<not> is_return r"
    using with_mount_fails
    by (fastforce simp: CreateVolume_def split: option.split sum.split outcome.split)
  show "\<exists>r. CreateSnapshot d ords os sreq w = (r, w) \<and> \<not> is_return r"
    using with_mount_fails
    by (fastforce simp: CreateSnapshot_def split: outcome.split)
qed (simp add: ControllerGetCapabilities_def NewDriver_def Let_def driver_fields_def
      NewControllerServiceCapability_def AddControllerServiceCapabilities_def
      AddNodeServiceCapabilities_def)

text \<open>C28. \<open>DeleteVolume\<close> never destroys data: whatever the request, the world is unchanged, since the
  internal mount that precedes the deletion is always refused.  It reports success exactly for
  identifiers it cannot decode and for volumes whose policy, the driver's default if they have none, is
  retain; without a controller server, reading the default panics.\<close>

theorem DeleteVolume_keeps_data:
  assumes "volumeID \<noteq> ''''"
  shows "\<exists>r. DeleteVolume d ords os volumeID secrets w = (r, w) \<and>
    (is_return r \<longleftrightarrow> (\<forall>v. getNfsVolFromID volumeID = Return v \<longrightarrow>
       EqualFold (vol_onDelete (effective_policy d v)) retain \<and> (vol_onDelete v = '''' \<longrightarrow> d_cs d \<noteq> None)))"
  by (rule DeleteVolume_result [OF assms])

theorem DeleteVolume_keeps_data_witness:
  "\<exists>r. DeleteVolume demo_driver (\<lambda>_. in_order) sample_os ''s#b#a#pv#retain'' [] sample_world =
      (r, sample_world) \<and>
    (is_return r \<longleftrightarrow> (\<forall>v. getNfsVolFromID ''s#b#a#pv#retain'' = Return v \<longrightarrow>
       EqualFold (vol_onDelete (effective_policy demo_driver v)) retain \<and>
       (vol_onDelete v = '''' \<longrightarrow> d_cs demo_driver \<noteq> None)))"
  by (rule DeleteVolume_keeps_data) simp

text \<open>A retain policy survives until deletion: for a volume created with policy retain (from the
  storage class or by default, in any letter case), \<open>DeleteVolume\<close> on its identifier succeeds
  without any call to the operating system.\<close>

lemma retain_policy_honoured:
  assumes "newNFSVolume ord ord' name sz params dflt = Return vol" and "wf_vol vol"
    and "EqualFold (vol_onDelete vol) retain"
  shows "DeleteVolume d ords os (vol_id vol) secrets w = (Return (), w)"
proof -
  have volId: "vol_id vol = getVolumeIDFromNfsVol vol" using newNFSVolume_cases [OF assms(1)] by metis
  then have dec: "getNfsVolFromID (vol_id vol) = Return (norm_vol vol)"
    by (simp add: vid.decode_encode [OF assms(2)])
  have "ToLower retain \<noteq> []" by code_simp
  then have "vol_onDelete vol \<noteq> []" using assms(3) by (auto simp: EqualFold_def ToLower_def)
  then have "EqualFold (vol_onDelete (effective_policy d (norm_vol vol))) retain"
    using assms(3) by (simp add: effective_policy_def norm_vol_def keptOnDelete_def)
  moreover have "vol_onDelete (norm_vol vol) \<noteq> ''''" using assms(3) \<open>vol_onDelete vol \<noteq> []\<close> by (simp add: norm_vol_def keptOnDelete_def)
  moreover have "vol_id vol \<noteq> ''''"
    unfolding volId getVolumeIDFromNfsVol_eq by simp
  ultimately show ?thesis using dec by (simp add: DeleteVolume_def Let_def)
qed

text \<open>Archiving keeps the data: the work that \<open>DeleteVolume\<close> does under the archive policy never
  removes the volume's directory or one above it, and it succeeds only after the directory has been
  renamed to its archived name.  The statement is about the work between the internal mount and
  unmount; in the driver as it stands that mount is always refused.\<close>

lemma archive_keeps_data:
  assumes "delete_mounted d os vol w = (r, w')" and "EqualFold (vol_onDelete vol) archive"
    and "d_workingMountDir d \<noteq> ''''" and "''..'' \<notin> set (Split (vol_subDir vol) (CHR ''/''))"
  shows "only_calls (\<lambda>c. \<forall>p. c = CRemoveAll p \<longrightarrow>
      \<not> prefix (path_elems p) (path_elems (getInternalVolumePath (d_workingMountDir d) vol))) w w' \<and>
    (is_return r \<longrightarrow> (\<exists>h. w_trace w' =
        h @ [CRename (getInternalVolumePath (d_workingMountDir d) vol) (archivedPath d vol)] \<and>
      os_rename os h (getInternalVolumePath (d_workingMountDir d) vol) (archivedPath d vol) = None))"
  using assms(1,2) archived_not_above [OF assms(3,4)]
  by (auto simp: delete_mounted_def archive_move_def Let_def
      split: if_splits prod.splits option.splits)

text \<open>A snapshot is restored from the archive it was written to: the snapshot decoded from the
  identifier that \<open>CreateSnapshot\<close> returns has the archive path that \<open>CreateSnapshot\<close> wrote.\<close>

lemma snapshot_archive_found:
  assumes "newNFSSnapshot ord name params vol = Return snap" and "wf_snap snap"
  shows "\<exists>snap'. getNfsSnapFromID (snap_id snap) = Return snap' \<and>
    snapshotArchive d snap' = snapshotArchive d snap"
proof -
  have "snap_id snap = getSnapshotIDFromNfsSnapshot snap"
    using assms(1)
    by (auto simp: newNFSSnapshot_def Let_def getSnapshotIDFromNfsSnapshot_eq
        split: outcome.splits if_splits)
  then have "getNfsSnapFromID (snap_id snap) = Return (norm_snap snap)"
    by (simp add: sid.decode_encode [OF assms(2)])
  moreover have "snapshotArchive d (norm_snap snap) = snapshotArchive d snap"
    by (simp add: snapshotArchive_def norm_snap_def archiveName_def getInternalVolumePath_def
        getInternalMountPath_def volumeFromSnapshot_def)
  ultimately show ?thesis by blast
qed

text \<open>The option \<open>--default-ondelete-policy\<close> has no effect: \<open>NewDriver\<close> does not copy it into
  the driver, so deleting a volume without a policy of its own does not succeed even when the driver
  was configured to retain such volumes.\<close>

lemma default_policy_ignored:
  assumes "o_DefaultOnDeletePolicy options = retain"
    and "getNfsVolFromID volumeID = Return v" and "vol_onDelete v = ''''" and "volumeID \<noteq> ''''"
  shows "\<not> is_return (fst (DeleteVolume
    ((fst (NewDriver version options))\<lparr>d_ns := ns, d_cs := cs\<rparr>) ords os volumeID secrets w))"
proof -
  let ?d = "(fst (NewDriver version options))\<lparr>d_ns := ns, d_cs := cs\<rparr>"
  have "d_defaultOnDeletePolicy ?d = ''''"
    by (simp add: NewDriver_def Let_def driver_fields_def AddControllerServiceCapabilities_def
        AddNodeServiceCapabilities_def)
  moreover have "\<not> EqualFold '''' retain" by code_simp
  ultimately have "\<not> EqualFold (vol_onDelete (effective_policy ?d v)) retain"
    using assms(3) by (simp add: effective_policy_def)
  with DeleteVolume_result [OF assms(4), of ?d ords os secrets w] assms(2)
  show ?thesis by (auto simp del: surjective_pairing)
qed

end
