(* ===== verification/GrpcServer.thy ===== *)
theory GrpcServer
  imports Driver
begin

text \<open>
  The life of the server of \<open>pkg/nfs/server.go\<close>: \<open>Start\<close>, \<open>Wait\<close>, \<open>Stop\<close> and \<open>ForceStop\<close>, the goroutine
  that runs \<open>serve\<close>, and the one that \<open>serve\<close> starts in test mode.  The caller is \<open>Driver.Run\<close>, which
  calls \<open>Start\<close> and then \<open>Wait\<close>; anyone may call \<open>Stop\<close> at any time.  The gRPC server is known by its
  documented behaviour: \<open>Serve\<close> returns nil once it has been stopped, an error if it is called after
  that, and an error if accepting connections fails.
\<close>

section \<open>Outcomes of start-up\<close>

text \<open>\<open>klog.Fatal\<close>, which ends the process, is the constructor \<open>Fatal\<close>.\<close>

datatype 'a startup = Up 'a | Fatal string | Crash string

section \<open>Registering the services\<close>

text \<open>A Go interface value: nil, or a pointer of a concrete type, which may itself be nil.\<close>

datatype 'a iface = NilInterface | Interface "'a option"

datatype service = IdentityService | ControllerService | NodeService

definition registered ::
  "'a iface \<Rightarrow> controller_server iface \<Rightarrow> node_server iface \<Rightarrow> service list" where
  "registered ids cs ns =
     (if ids \<noteq> NilInterface then [IdentityService] else []) @
     (if cs \<noteq> NilInterface then [ControllerService] else []) @
     (if ns \<noteq> NilInterface then [NodeService] else [])"

text \<open>\<open>serve\<close> up to the call of \<open>Serve\<close>; \<open>listen\<close> is \<open>net.Listen\<close>, true if it succeeds.\<close>

definition serve ::
  "os \<Rightarrow> (string \<Rightarrow> string \<Rightarrow> bool) \<Rightarrow> string \<Rightarrow> IdentityServer iface \<Rightarrow> controller_server iface
   \<Rightarrow> node_server iface \<Rightarrow> 'api world \<Rightarrow> service list startup \<times> 'api world" where
  "serve os listen endpoint ids cs ns w =
     (case ParseEndpoint endpoint of
        Fail e \<Rightarrow> (Fatal (err_text e), w)
      | Panics m \<Rightarrow> (Crash m, w)
      | Return (proto, rest) \<Rightarrow>
          (let addr = (if proto = ''unix'' then ''/'' @ rest else rest);
               (err, w1) = (if proto = ''unix''
                 then syscall (CRemove addr) (\<lambda>h. os_remove os h addr) w else (None, w))
           in if (case err of None \<Rightarrow> False | Some e \<Rightarrow> \<not> IsNotExist e)
              then (Fatal ''Failed to remove %s, error: %s'', w1)
              else if \<not> listen proto addr then (Fatal ''Failed to listen: %v'', w1)
              else (Up (registered ids cs ns), w1)))"

section \<open>The server object\<close>

datatype grpc_state = Created "service list" | Serving "service list" | Stopped

record nonBlockingGRPCServer =
  wg :: nat
  server :: "grpc_state option"

definition NewNonBlockingGRPCServer :: nonBlockingGRPCServer where
  "NewNonBlockingGRPCServer = \<lparr>wg = 0, server = None\<rparr>"

text \<open>\<open>Start\<close> adds one to the wait group; the goroutine it starts is part of the system below.\<close>

definition Start :: "nonBlockingGRPCServer \<Rightarrow> nonBlockingGRPCServer" where
  "Start s = s\<lparr>wg := wg s + 1\<rparr>"

text \<open>\<open>Wait\<close> returns when the counter of the wait group is zero.\<close>

definition Wait_returns :: "nonBlockingGRPCServer \<Rightarrow> bool" where
  "Wait_returns s \<longleftrightarrow> wg s = 0"

text \<open>\<open>s.wg.Done()\<close>.\<close>

definition wg_Done :: "nonBlockingGRPCServer \<Rightarrow> nonBlockingGRPCServer outcome" where
  "wg_Done s = (if wg s = 0 then Panics ''sync: negative WaitGroup counter'' else Return (s\<lparr>wg := wg s - 1\<rparr>))"

definition Stop :: "nonBlockingGRPCServer \<Rightarrow> nonBlockingGRPCServer outcome" where
  "Stop s = (case server s of None \<Rightarrow> Panics nil_dereference | Some _ \<Rightarrow> Return (s\<lparr>server := Some Stopped\<rparr>))"

definition ForceStop :: "nonBlockingGRPCServer \<Rightarrow> nonBlockingGRPCServer outcome" where
  "ForceStop s =
     (case server s of None \<Rightarrow> Panics nil_dereference | Some _ \<Rightarrow> Return (s\<lparr>server := Some Stopped\<rparr>))"

section \<open>The goroutines\<close>

datatype caller_pc = AtStart | AtWait | Returned

datatype serve_pc = NotRunning | Preparing | Prepared | AtServe | InServe | ServeDone

datatype stopper_pc = NoStopper | StopperWaits | StopperSleeps | StopperDone

text \<open>\<open>dead\<close> is the message of the fatal error or panic that ended the process.\<close>

record grpc_sys =
  gs :: nonBlockingGRPCServer
  caller :: caller_pc
  serving :: serve_pc
  stopper :: stopper_pc
  dead :: "string option"

definition grpc_init :: grpc_sys where
  "grpc_init = \<lparr>gs = NewNonBlockingGRPCServer, caller = AtStart, serving = NotRunning,
     stopper = NoStopper, dead = None\<rparr>"

definition serve_failed :: string where
  "serve_failed = ''Failed to serve grpc server: %v''"

text \<open>\<open>prep\<close> is the outcome of \<open>serve\<close> up to the registration of the services, as the definition
  \<open>serve\<close> above computes it.\<close>

inductive grpc_step :: "bool \<Rightarrow> service list startup \<Rightarrow> grpc_sys \<Rightarrow> grpc_sys \<Rightarrow> bool" for testMode prep where
  start: "dead s = None \<Longrightarrow> caller s = AtStart \<Longrightarrow>
     grpc_step testMode prep s (s\<lparr>gs := Start (gs s), caller := AtWait, serving := Preparing\<rparr>)"
| wait: "dead s = None \<Longrightarrow> caller s = AtWait \<Longrightarrow> Wait_returns (gs s) \<Longrightarrow>
     grpc_step testMode prep s (s\<lparr>caller := Returned\<rparr>)"
| prepared: "dead s = None \<Longrightarrow> serving s = Preparing \<Longrightarrow> prep = Up services \<Longrightarrow>
     grpc_step testMode prep s (s\<lparr>gs := (gs s)\<lparr>server := Some (Created services)\<rparr>, serving := Prepared\<rparr>)"
| prepare_fatal: "dead s = None \<Longrightarrow> serving s = Preparing \<Longrightarrow> prep = Fatal m \<Longrightarrow>
     grpc_step testMode prep s (s\<lparr>dead := Some m\<rparr>)"
| prepare_crash: "dead s = None \<Longrightarrow> serving s = Preparing \<Longrightarrow> prep = Crash m \<Longrightarrow>
     grpc_step testMode prep s (s\<lparr>dead := Some m\<rparr>)"
| test_mode: "dead s = None \<Longrightarrow> serving s = Prepared \<Longrightarrow> testMode \<Longrightarrow> wg_Done (gs s) = Return g \<Longrightarrow>
     grpc_step testMode prep s (s\<lparr>gs := g, stopper := StopperWaits, serving := AtServe\<rparr>)"
| test_panic: "dead s = None \<Longrightarrow> serving s = Prepared \<Longrightarrow> testMode \<Longrightarrow> wg_Done (gs s) = Panics m \<Longrightarrow>
     grpc_step testMode prep s (s\<lparr>dead := Some m\<rparr>)"
| production: "dead s = None \<Longrightarrow> serving s = Prepared \<Longrightarrow> \<not> testMode \<Longrightarrow>
     grpc_step testMode prep s (s\<lparr>serving := AtServe\<rparr>)"
| serve_begins: "dead s = None \<Longrightarrow> serving s = AtServe \<Longrightarrow> server (gs s) = Some (Created services) \<Longrightarrow>
     grpc_step testMode prep s (s\<lparr>gs := (gs s)\<lparr>server := Some (Serving services)\<rparr>, serving := InServe\<rparr>)"
| serve_stopped: "dead s = None \<Longrightarrow> serving s = AtServe \<Longrightarrow> server (gs s) = Some Stopped \<Longrightarrow>
     grpc_step testMode prep s (s\<lparr>dead := Some serve_failed\<rparr>)"
| serve_returns: "dead s = None \<Longrightarrow> serving s = InServe \<Longrightarrow> server (gs s) = Some Stopped \<Longrightarrow>
     grpc_step testMode prep s (s\<lparr>serving := ServeDone\<rparr>)"
| serve_error: "dead s = None \<Longrightarrow> serving s = InServe \<Longrightarrow> server (gs s) = Some (Serving services) \<Longrightarrow>
     grpc_step testMode prep s (s\<lparr>dead := Some serve_failed\<rparr>)"
| stopper_wakes: "dead s = None \<Longrightarrow> stopper s = StopperWaits \<Longrightarrow> Wait_returns (gs s) \<Longrightarrow>
     grpc_step testMode prep s (s\<lparr>stopper := StopperSleeps\<rparr>)"
| stopper_stops: "dead s = None \<Longrightarrow> stopper s = StopperSleeps \<Longrightarrow> Stop (gs s) = Return g \<Longrightarrow>
     grpc_step testMode prep s (s\<lparr>gs := g, stopper := StopperDone\<rparr>)"

text \<open>A call of \<open>Stop\<close> or \<open>ForceStop\<close> from outside.\<close>

inductive stop_call :: "grpc_sys \<Rightarrow> grpc_sys \<Rightarrow> bool" where
  graceful: "dead s = None \<Longrightarrow> Stop (gs s) = Return g \<Longrightarrow> stop_call s (s\<lparr>gs := g\<rparr>)"
| graceful_panic: "dead s = None \<Longrightarrow> Stop (gs s) = Panics m \<Longrightarrow> stop_call s (s\<lparr>dead := Some m\<rparr>)"
| force: "dead s = None \<Longrightarrow> ForceStop (gs s) = Return g \<Longrightarrow> stop_call s (s\<lparr>gs := g\<rparr>)"
| force_panic: "dead s = None \<Longrightarrow> ForceStop (gs s) = Panics m \<Longrightarrow> stop_call s (s\<lparr>dead := Some m\<rparr>)"

inductive grpc_reachable :: "bool \<Rightarrow> service list startup \<Rightarrow> grpc_sys \<Rightarrow> bool" for testMode prep where
  init: "grpc_reachable testMode prep grpc_init"
| step: "grpc_reachable testMode prep s \<Longrightarrow> grpc_step testMode prep s t \<Longrightarrow> grpc_reachable testMode prep t"
| stop: "grpc_reachable testMode prep s \<Longrightarrow> stop_call s t \<Longrightarrow> grpc_reachable testMode prep t"

section \<open>Invariants\<close>

lemmas server_defs [go_defs] =
  NewNonBlockingGRPCServer_def Start_def Wait_returns_def wg_Done_def Stop_def ForceStop_def

text \<open>How the counter, the program counters and the server object hang together.\<close>

definition grpc_inv :: "bool \<Rightarrow> service list startup \<Rightarrow> grpc_sys \<Rightarrow> bool" where
  "grpc_inv testMode prep s \<longleftrightarrow>
     wg (gs s) = (if serving s \<in> {Preparing, Prepared} \<or> serving s \<noteq> NotRunning \<and> \<not> testMode then 1 else 0) \<and>
     (caller s = AtStart \<longleftrightarrow> serving s = NotRunning) \<and>
     (caller s = Returned \<longrightarrow> testMode \<and> serving s \<in> {AtServe, InServe, ServeDone}) \<and>
     (server (gs s) = None \<longleftrightarrow> serving s \<in> {NotRunning, Preparing}) \<and>
     (stopper s \<noteq> NoStopper \<longleftrightarrow> testMode \<and> serving s \<in> {AtServe, InServe, ServeDone}) \<and>
     (serving s \<in> {Prepared, AtServe} \<longrightarrow> server (gs s) = Some Stopped \<or>
        (\<exists>services. prep = Up services \<and> server (gs s) = Some (Created services))) \<and>
     (serving s = InServe \<longrightarrow> server (gs s) = Some Stopped \<or>
        (\<exists>services. prep = Up services \<and> server (gs s) = Some (Serving services))) \<and>
     (serving s = ServeDone \<or> stopper s = StopperDone \<longrightarrow> server (gs s) = Some Stopped)"

lemma grpc_invD:
  assumes "grpc_inv testMode prep s"
  shows "caller s = AtStart \<longleftrightarrow> serving s = NotRunning"
    and "server (gs s) = None \<longleftrightarrow> serving s \<in> {NotRunning, Preparing}"
    and "stopper s \<noteq> NoStopper \<longleftrightarrow> testMode \<and> serving s \<in> {AtServe, InServe, ServeDone}"
    and "wg (gs s) =
      (if serving s \<in> {Preparing, Prepared} \<or> serving s \<noteq> NotRunning \<and> \<not> testMode then 1 else 0)"
    and "serving s \<in> {Prepared, AtServe} \<Longrightarrow> server (gs s) = Some Stopped \<or>
      (\<exists>services. prep = Up services \<and> server (gs s) = Some (Created services))"
    and "serving s = InServe \<Longrightarrow> server (gs s) = Some Stopped \<or>
      (\<exists>services. prep = Up services \<and> server (gs s) = Some (Serving services))"
    and "serving s = ServeDone \<Longrightarrow> server (gs s) = Some Stopped"
    and "caller s = Returned \<Longrightarrow> testMode"
  using assms unfolding grpc_inv_def by blast+

lemma grpc_inv_init: "grpc_inv testMode prep grpc_init"
  by (simp add: grpc_inv_def grpc_init_def NewNonBlockingGRPCServer_def)

lemma grpc_inv_step:
  assumes "grpc_step testMode prep s t" and "grpc_inv testMode prep s"
  shows "grpc_inv testMode prep t"
  using assms
proof (induction rule: grpc_step.induct)
  case (start s) then show ?case by (simp add: grpc_inv_def server_defs)
next
  case (wait s) then show ?case by (cases "serving s") (simp_all add: grpc_inv_def server_defs split: if_splits)
next
  case (prepared s services) then show ?case by (simp add: grpc_inv_def server_defs)
next
  case (prepare_fatal s m) then show ?case by (simp add: grpc_inv_def)
next
  case (prepare_crash s m) then show ?case by (simp add: grpc_inv_def)
next
  case (test_mode s g) then show ?case by (auto simp: grpc_inv_def server_defs)
next
  case (test_panic s m) then show ?case by (simp add: grpc_inv_def)
next
  case (production s) then show ?case by (auto simp: grpc_inv_def)
next
  case (serve_begins s services) then show ?case by (auto simp: grpc_inv_def)
next
  case (serve_stopped s) then show ?case by (simp add: grpc_inv_def)
next
  case (serve_returns s) then show ?case by (auto simp: grpc_inv_def)
next
  case (serve_error s services) then show ?case by (simp add: grpc_inv_def)
next
  case (stopper_wakes s) then show ?case by (auto simp: grpc_inv_def)
next
  case (stopper_stops s g) then show ?case by (auto simp: grpc_inv_def server_defs split: option.splits)
qed

lemma grpc_inv_dead [simp]: "grpc_inv testMode prep (s\<lparr>dead := d\<rparr>) = grpc_inv testMode prep s"
  by (simp add: grpc_inv_def)

lemma stop_call_effect:
  assumes "stop_call s t"
  shows "server (gs s) = None \<and> t = s\<lparr>dead := Some nil_dereference\<rparr> \<or>
    server (gs s) \<noteq> None \<and> t = s\<lparr>gs := (gs s)\<lparr>server := Some Stopped\<rparr>\<rparr>"
  using assms by cases (simp_all add: server_defs split: option.splits)

lemma grpc_inv_stop:
  assumes "stop_call s t" and "grpc_inv testMode prep s"
  shows "grpc_inv testMode prep t"
  using stop_call_effect [OF assms(1)]
proof
  assume "server (gs s) = None \<and> t = s\<lparr>dead := Some nil_dereference\<rparr>"
  then show ?thesis using assms(2) by simp
next
  assume "server (gs s) \<noteq> None \<and> t = s\<lparr>gs := (gs s)\<lparr>server := Some Stopped\<rparr>\<rparr>"
  moreover from this have "serving s \<noteq> NotRunning" "serving s \<noteq> Preparing"
    using grpc_invD(2) [OF assms(2)] by auto
  ultimately show ?thesis using assms(2) by (simp add: grpc_inv_def)
qed

lemma grpc_reachable_inv: "grpc_reachable testMode prep s \<Longrightarrow> grpc_inv testMode prep s"
  by (induction rule: grpc_reachable.induct) (auto intro: grpc_inv_init grpc_inv_step grpc_inv_stop)

section \<open>Termination\<close>

text \<open>Every goroutine only moves forward.\<close>

primrec caller_rank :: "caller_pc \<Rightarrow> nat" where
  "caller_rank AtStart = 2"
| "caller_rank AtWait = 1"
| "caller_rank Returned = 0"

primrec serve_rank :: "serve_pc \<Rightarrow> nat" where
  "serve_rank NotRunning = 5"
| "serve_rank Preparing = 4"
| "serve_rank Prepared = 3"
| "serve_rank AtServe = 2"
| "serve_rank InServe = 1"
| "serve_rank ServeDone = 0"

primrec stopper_rank :: "stopper_pc \<Rightarrow> nat" where
  "stopper_rank NoStopper = 3"
| "stopper_rank StopperWaits = 2"
| "stopper_rank StopperSleeps = 1"
| "stopper_rank StopperDone = 0"

definition grpc_rank :: "grpc_sys \<Rightarrow> nat" where
  "grpc_rank s = caller_rank (caller s) + serve_rank (serving s) + stopper_rank (stopper s) +
     (if dead s = None then 1 else 0)"

lemma grpc_step_rank:
  assumes "grpc_step testMode prep s t" and "grpc_inv testMode prep s"
  shows "grpc_rank t < grpc_rank s"
  using assms(1)
proof cases
  case start
  moreover from this have "serving s = NotRunning" using grpc_invD(1) [OF assms(2)] by simp
  ultimately show ?thesis by (simp add: grpc_rank_def)
next
  case (test_mode g)
  moreover from this have "stopper s = NoStopper" using grpc_invD(3) [OF assms(2)] by simp
  ultimately show ?thesis by (simp add: grpc_rank_def)
qed (simp_all add: grpc_rank_def)

lemma grpc_steps_rank:
  assumes "(grpc_step testMode prep ^^ n) s t" and "grpc_inv testMode prep s"
  shows "n + grpc_rank t \<le> grpc_rank s"
  using assms
proof (induction n arbitrary: s)
  case (Suc n)
  obtain u where u: "grpc_step testMode prep s u" "(grpc_step testMode prep ^^ n) u t"
    using relpowp_Suc_D2 [OF Suc.prems(1)] by blast
  show ?case
    using Suc.IH [OF u(2) grpc_inv_step [OF u(1) Suc.prems(2)]] grpc_step_rank [OF u(1) Suc.prems(2)]
    by simp
qed simp

lemma grpc_steps_inv:
  "(grpc_step testMode prep)\<^sup>*\<^sup>* s t \<Longrightarrow> grpc_inv testMode prep s \<Longrightarrow> grpc_inv testMode prep t"
  by (induction rule: rtranclp_induct) (auto intro: grpc_inv_step)

text \<open>The goroutine of \<open>serve\<close> can always move until it has returned; after that the stopper and the
  caller of \<open>Wait\<close> can.\<close>

lemma serve_progress:
  assumes "grpc_inv True prep s" and d: "dead s = None" and "serving s \<noteq> ServeDone"
  shows "\<exists>t. grpc_step True prep s t"
proof (cases "serving s")
  case NotRunning
  then have "caller s = AtStart" using grpc_invD(1) [OF assms(1)] by simp
  then show ?thesis using grpc_step.start [OF d] by blast
next
  case Preparing
  then show ?thesis
    using grpc_step.prepared [OF d Preparing] grpc_step.prepare_fatal [OF d Preparing]
      grpc_step.prepare_crash [OF d Preparing] by (cases prep) blast+
next
  case Prepared
  then have "wg_Done (gs s) = Return ((gs s)\<lparr>wg := 0\<rparr>)"
    using grpc_invD(4) [OF assms(1)] by (simp add: wg_Done_def)
  then show ?thesis using grpc_step.test_mode [OF d Prepared TrueI] by blast
next
  case AtServe
  then show ?thesis
    using grpc_invD(5) [OF assms(1)] grpc_step.serve_stopped [OF d AtServe]
      grpc_step.serve_begins [OF d AtServe] by blast
next
  case InServe
  then show ?thesis
    using grpc_invD(6) [OF assms(1)] grpc_step.serve_returns [OF d InServe]
      grpc_step.serve_error [OF d InServe] by blast
qed (use assms(3) in simp)

lemma served_progress:
  assumes "grpc_inv True prep s" and d: "dead s = None" and "serving s = ServeDone"
    and "\<not> (caller s = Returned \<and> stopper s = StopperDone)"
  shows "\<exists>t. grpc_step True prep s t"
proof -
  have z: "Wait_returns (gs s)" and stop: "Stop (gs s) = Return ((gs s)\<lparr>server := Some Stopped\<rparr>)"
    and st: "stopper s \<noteq> NoStopper" and ca: "caller s \<noteq> AtStart"
    using grpc_invD(1,3,4,7) [OF assms(1)] assms(3) by (simp_all add: Wait_returns_def Stop_def)
  show ?thesis
  proof (cases "stopper s")
    case StopperWaits then show ?thesis using grpc_step.stopper_wakes [OF d _ z] by blast
  next
    case StopperSleeps then show ?thesis using grpc_step.stopper_stops [OF d _ stop] by blast
  next
    case StopperDone
    with assms(4) ca have "caller s = AtWait" by (cases "caller s") auto
    then show ?thesis using grpc_step.wait [OF d _ z] by blast
  qed (use st in simp)
qed

text \<open>In test mode some goroutine can move until all have returned or the process has died.\<close>

lemma test_mode_progress:
  assumes "grpc_inv True prep s" and "\<nexists>t. grpc_step True prep s t"
  shows "dead s \<noteq> None \<or> caller s = Returned \<and> serving s = ServeDone \<and> stopper s = StopperDone"
  using serve_progress [OF assms(1)] served_progress [OF assms(1)] assms(2) by blast

section \<open>Concrete runs\<close>

text \<open>A server that has been started, served and been stopped.\<close>

definition stopped_run :: "service list \<Rightarrow> grpc_sys" where
  "stopped_run services = \<lparr>gs = \<lparr>wg = 1, server = Some Stopped\<rparr>, caller = AtWait, serving = ServeDone,
     stopper = NoStopper, dead = None\<rparr>"

lemma started_reachable:
  "grpc_reachable testMode prep (grpc_init\<lparr>gs := Start NewNonBlockingGRPCServer, caller := AtWait,
     serving := Preparing\<rparr>)"
  using grpc_reachable.step [OF grpc_reachable.init grpc_step.start [of grpc_init]]
  by (simp add: grpc_init_def)

lemma at_serve_reachable:
  "grpc_reachable False (Up services) \<lparr>gs = \<lparr>wg = 1, server = Some (Created services)\<rparr>, caller = AtWait,
     serving = AtServe, stopper = NoStopper, dead = None\<rparr>"
  using grpc_reachable.step [OF grpc_reachable.step [OF started_reachable [of False "Up services"]
    grpc_step.prepared] grpc_step.production]
  by (simp add: grpc_init_def server_defs)

lemma stopped_run_reachable: "grpc_reachable False (Up services) (stopped_run services)"
proof -
  have "grpc_reachable False (Up services) \<lparr>gs = \<lparr>wg = 1, server = Some (Serving services)\<rparr>,
      caller = AtWait, serving = InServe, stopper = NoStopper, dead = None\<rparr>"
    using grpc_reachable.step [OF at_serve_reachable grpc_step.serve_begins] by simp
  from grpc_reachable.stop [OF this stop_call.graceful]
  have "grpc_reachable False (Up services) \<lparr>gs = \<lparr>wg = 1, server = Some Stopped\<rparr>,
      caller = AtWait, serving = InServe, stopper = NoStopper, dead = None\<rparr>"
    by (simp add: Stop_def)
  from grpc_reachable.step [OF this grpc_step.serve_returns] show ?thesis by (simp add: stopped_run_def)
qed

text \<open>In test mode, when \<open>serve\<close> has released the wait group but not yet called \<open>Serve\<close>.\<close>

definition test_run :: "service list \<Rightarrow> caller_pc \<Rightarrow> stopper_pc \<Rightarrow> grpc_state \<Rightarrow> grpc_sys" where
  "test_run services c st g = \<lparr>gs = \<lparr>wg = 0, server = Some g\<rparr>, caller = c, serving = AtServe,
     stopper = st, dead = None\<rparr>"

lemma test_run_reachable:
  "grpc_reachable True (Up services) (test_run services AtWait StopperWaits (Created services))"
  using grpc_reachable.step [OF grpc_reachable.step [OF started_reachable [of True "Up services"]
    grpc_step.prepared] grpc_step.test_mode]
  by (simp add: grpc_init_def server_defs test_run_def)

section \<open>Properties\<close>

text \<open>C26. In production \<open>Wait\<close> never returns: whatever happens, calls of \<open>Stop\<close> included, the caller of
  \<open>Start\<close> and \<open>Wait\<close> stays blocked, because only test mode releases the wait group.  In the instance
  the server has been stopped and \<open>serve\<close> has returned, and \<open>Wait\<close>, which is documented to wait for the
  service to stop, is still blocked.\<close>

theorem wait_never_returns:
  assumes "grpc_reachable False prep s"
  shows "caller s \<noteq> Returned \<and> (caller s = AtWait \<longrightarrow> \<not> Wait_returns (gs s))"
proof -
  note inv = grpc_invD [OF grpc_reachable_inv [OF assms]]
  have "wg (gs s) = 1" if "caller s = AtWait" using inv(1,4) that by simp
  then show ?thesis using inv(8) by (auto simp: Wait_returns_def)
qed

theorem wait_never_returns_witness:
  "caller (stopped_run [NodeService]) = AtWait \<and> serving (stopped_run [NodeService]) = ServeDone \<and>
   \<not> Wait_returns (gs (stopped_run [NodeService]))"
  using wait_never_returns [OF stopped_run_reachable [of "[NodeService]"]]
  by (simp add: stopped_run_def)

text \<open>In test mode the server comes to an end by itself: from every reachable state a run of its
  goroutines has at most \<open>grpc_rank\<close> steps, and it ends only when the process has died or \<open>Run\<close> has
  returned, \<open>Serve\<close> has returned and the server is stopped.\<close>

lemma test_mode_terminates:
  assumes "grpc_reachable True prep s"
  shows "(\<forall>n t. (grpc_step True prep ^^ n) s t \<longrightarrow> n \<le> grpc_rank s) \<and>
    (\<forall>t. (grpc_step True prep)\<^sup>*\<^sup>* s t \<and> \<not> (\<exists>u. grpc_step True prep t u) \<longrightarrow>
       dead t \<noteq> None \<or>
       caller t = Returned \<and> serving t = ServeDone \<and> server (gs t) = Some Stopped)"
proof -
  have inv: "grpc_inv True prep s" by (rule grpc_reachable_inv [OF assms])
  have "n \<le> grpc_rank s" if "(grpc_step True prep ^^ n) s t" for n t
    using grpc_steps_rank [OF that inv] by simp
  moreover have "dead t \<noteq> None \<or>
      caller t = Returned \<and> serving t = ServeDone \<and> server (gs t) = Some Stopped"
    if "(grpc_step True prep)\<^sup>*\<^sup>* s t" "\<not> (\<exists>u. grpc_step True prep t u)" for t
    using test_mode_progress [OF grpc_steps_inv [OF that(1) inv] that(2)]
      grpc_invD(7) [OF grpc_steps_inv [OF that(1) inv]] by blast
  ultimately show ?thesis by blast
qed

text \<open>C38. The races of the server: \<open>Stop\<close> right after \<open>Start\<close> dereferences a nil pointer, since the
  goroutine has not created the server yet; in test mode \<open>Wait\<close> returns before \<open>Serve\<close> has been called;
  and when the stopper is faster than the call of \<open>Serve\<close>, the process dies of a fatal error.\<close>

theorem stop_races:
  "(\<exists>s. grpc_reachable testMode prep s \<and> serving s = Preparing \<and> dead s = Some nil_dereference) \<and>
   (\<exists>s. grpc_reachable True (Up services) s \<and> caller s = Returned \<and> serving s = AtServe) \<and>
   (\<exists>s. grpc_reachable True (Up services) s \<and> stopper s = StopperDone \<and> serving s = AtServe \<and>
      dead s = Some serve_failed)"
proof (intro conjI)
  show "\<exists>s. grpc_reachable testMode prep s \<and> serving s = Preparing \<and> dead s = Some nil_dereference"
    using grpc_reachable.stop [OF started_reachable stop_call.graceful_panic]
    by (fastforce simp: grpc_init_def server_defs)
  show "\<exists>s. grpc_reachable True (Up services) s \<and> caller s = Returned \<and> serving s = AtServe"
    using grpc_reachable.step [OF test_run_reachable grpc_step.wait]
    by (fastforce simp: test_run_def Wait_returns_def)
  have "grpc_reachable True (Up services) (test_run services AtWait StopperSleeps (Created services))"
    using grpc_reachable.step [OF test_run_reachable grpc_step.stopper_wakes]
    by (simp add: test_run_def Wait_returns_def)
  from grpc_reachable.step [OF this grpc_step.stopper_stops]
  have "grpc_reachable True (Up services) (test_run services AtWait StopperDone Stopped)"
    by (simp add: test_run_def Stop_def)
  from grpc_reachable.step [OF this grpc_step.serve_stopped]
  show "\<exists>s. grpc_reachable True (Up services) s \<and> stopper s = StopperDone \<and> serving s = AtServe \<and>
      dead s = Some serve_failed"
    by (fastforce simp: test_run_def)
qed

end
