(* ===== verification/Server.thy ===== *)
theory Server
  imports Provisioning GrpcServer
begin

text \<open>
  Start-up: the command line (\<open>cmd/nfsplugin/main.go\<close>), the construction of the servers
  (\<open>pkg/nfs/utils.go\<close>, \<open>pkg/nfs/nfs.go\<close>, \<open>pkg/lbcontroller/lbcontroller.go\<close>), and the identity
  server with the version information.
\<close>

section \<open>Version and identity\<close>

record VersionInfo =
  v_DriverName :: string
  v_DriverVersion :: string
  v_GitCommit :: string
  v_BuildDate :: string
  v_GoVersion :: string
  v_Compiler :: string
  v_Platform :: string

text \<open>What is fixed when the program is built: the linker variables and the Go runtime.\<close>

record build =
  b_driverVersion :: string
  b_gitCommit :: string
  b_buildDate :: string
  b_goVersion :: string
  b_compiler :: string
  b_GOOS :: string
  b_GOARCH :: string

definition GetVersion :: "build \<Rightarrow> string \<Rightarrow> VersionInfo" where
  "GetVersion b driverName =
     \<lparr>v_DriverName = driverName, v_DriverVersion = b_driverVersion b, v_GitCommit = b_gitCommit b,
      v_BuildDate = b_buildDate b, v_GoVersion = b_goVersion b, v_Compiler = b_compiler b,
      v_Platform = b_GOOS b @ ''/'' @ b_GOARCH b\<rparr>"

text \<open>\<open>yaml.Marshal\<close> is a parameter.\<close>

definition GetVersionYAML ::
  "(VersionInfo \<Rightarrow> go_error + string) \<Rightarrow> build \<Rightarrow> string \<Rightarrow> go_error + string" where
  "GetVersionYAML marshal b driverName =
     (case marshal (GetVersion b driverName) of
        Inl e \<Rightarrow> Inl e
      | Inr marshalled \<Rightarrow> Inr (TrimSpace marshalled))"

definition GetPluginInfo :: "IdentityServer \<Rightarrow> (string \<times> string) outcome" where
  "GetPluginInfo ids =
     (let d = ids_Driver ids in
      if d_name d = '''' then Fail (Status Unavailable ''Driver name not configured'')
      else if d_version d = '''' then Fail (Status Unavailable ''Driver is missing version'')
      else Return (d_name d, d_version d))"

definition Probe :: "bool outcome" where
  "Probe = Return True"

datatype plugin_cap = CONTROLLER_SERVICE

definition GetPluginCapabilities :: "plugin_cap list outcome" where
  "GetPluginCapabilities = Return [CONTROLLER_SERVICE]"

section \<open>The controller server\<close>

text \<open>What the cluster answers at start-up: whether the in-cluster configuration and the client can
  be built, and the list of nodes.\<close>

record cluster =
  k_configOk :: bool
  k_clientOk :: bool
  k_nodes :: "api_error + node list"

definition NewLBController :: "cluster \<Rightarrow> string list \<Rightarrow> ipmap startup" where
  "NewLBController k ipList =
     (if \<not> k_configOk k then Fatal ''Failed to create config: %v''
      else if \<not> k_clientOk k then Fatal ''Failed to create client: %v''
      else
        (case resyncIPMap (k_nodes k) ipList of
           Return m \<Rightarrow> Up m
         | Fail e \<Rightarrow> Fatal ''Failed to resync LB Controller cache: %v''
         | Panics m \<Rightarrow> Crash m))"

text \<open>The controller server and the initial map of its load balancing controller.\<close>

definition NewControllerServer :: "cluster \<Rightarrow> driver \<Rightarrow> (controller_server \<times> ipmap) startup" where
  "NewControllerServer k d =
     (if d_ipList d \<noteq> [] then
        (case NewLBController k (d_ipList d) of
           Up m \<Rightarrow> Up (\<lparr>cs_hasLB = True\<rparr>, m)
         | Fatal m \<Rightarrow> Fatal m
         | Crash m \<Rightarrow> Crash m)
      else Up (\<lparr>cs_hasLB = False\<rparr>, []))"

section \<open>Running the driver\<close>

definition start_controller ::
  "cluster \<Rightarrow> driver \<Rightarrow> 'api world \<Rightarrow> (driver \<times> 'api world) startup" where
  "start_controller k d w =
     (if d_runControllerServer d then
        (case NewControllerServer k d of
           Up (cs, m) \<Rightarrow> Up (d\<lparr>d_cs := Some cs\<rparr>, w\<lparr>w_ipMap := m\<rparr>)
         | Fatal m \<Rightarrow> Fatal m
         | Crash m \<Rightarrow> Crash m)
      else Up (d, w))"

text \<open>\<open>Run\<close>: \<open>force\<close> says whether the mounter of \<open>mount.New\<close> implements
  \<open>MounterForceUnmounter\<close>; the type assertion on Linux panics otherwise.  The concrete pointers
  \<open>n.cs\<close> and \<open>n.ns\<close> become interface values when they are passed to \<open>Start\<close>.\<close>

definition Run ::
  "build \<Rightarrow> (VersionInfo \<Rightarrow> go_error + string) \<Rightarrow> bool \<Rightarrow> cluster \<Rightarrow> os
   \<Rightarrow> (string \<Rightarrow> string \<Rightarrow> bool) \<Rightarrow> driver \<Rightarrow> 'api world
   \<Rightarrow> (driver \<times> service list) startup \<times> 'api world" where
  "Run b marshal force k os listen d w =
     (case GetVersionYAML marshal b (d_name d) of
        Inl e \<Rightarrow> (Fatal (err_text e), w)
      | Inr _ \<Rightarrow>
          if b_GOOS b = ''linux'' \<and> \<not> force then (Crash ''interface conversion'', w)
          else
            (let d1 = (if d_runNodeServer d then d\<lparr>d_ns := Some (NewNodeServer force)\<rparr> else d) in
             case start_controller k d1 w of
               Fatal m \<Rightarrow> (Fatal m, w)
             | Crash m \<Rightarrow> (Crash m, w)
             | Up (d2, w2) \<Rightarrow>
                 (case serve os listen (d_endpoint d2) (Interface (Some (NewDefaultIdentityServer d2)))
                         (Interface (d_cs d2)) (Interface (d_ns d2)) w2 of
                    (Up services, w3) \<Rightarrow> (Up (d2, services), w3)
                  | (Fatal m, w3) \<Rightarrow> (Fatal m, w3)
                  | (Crash m, w3) \<Rightarrow> (Crash m, w3))))"

section \<open>The command line\<close>

text \<open>The flags that \<open>main\<close> declares and uses.\<close>

record flags =
  f_endpoint :: string
  f_nodeID :: string
  f_mountPermissions :: "64 word"
  f_driverName :: string
  f_workingMountDir :: string
  f_defaultOnDeletePolicy :: string
  f_volStatsCacheExpireInMinutes :: "64 word"
  f_ipAddresses :: string
  f_runControllerServer :: bool
  f_runNodeServer :: bool
  f_runNfsServices :: bool

definition DefaultDriverName :: string where
  "DefaultDriverName = ''nfs.csi.k8s.io''"

definition default_flags :: flags where
  "default_flags =
     \<lparr>f_endpoint = ''unix://tmp/csi.sock'', f_nodeID = '''', f_mountPermissions = 0,
      f_driverName = DefaultDriverName, f_workingMountDir = ''/tmp'', f_defaultOnDeletePolicy = '''',
      f_volStatsCacheExpireInMinutes = 10, f_ipAddresses = '''', f_runControllerServer = False,
      f_runNodeServer = False, f_runNfsServices = False\<rparr>"

definition driver_options :: "flags \<Rightarrow> DriverOptions" where
  "driver_options f =
     \<lparr>o_NodeID = f_nodeID f, o_DriverName = f_driverName f, o_Endpoint = f_endpoint f,
      o_MountPermissions = f_mountPermissions f, o_WorkingMountDir = f_workingMountDir f,
      o_DefaultOnDeletePolicy = f_defaultOnDeletePolicy f,
      o_VolStatsCacheExpireInMinutes = f_volStatsCacheExpireInMinutes f,
      o_IPList = [],
      o_RunControllerServer = f_runControllerServer f,
      o_RunNodeServer = f_runNodeServer f\<rparr>"

text \<open>\<open>handle\<close>: it builds the driver and runs it from a fresh state.  The statistics cache and the
  lock table come from \<open>NewDriver\<close>; the API server is given.\<close>

definition handle ::
  "build \<Rightarrow> (VersionInfo \<Rightarrow> go_error + string) \<Rightarrow> bool \<Rightarrow> cluster \<Rightarrow> os
   \<Rightarrow> (string \<Rightarrow> string \<Rightarrow> bool) \<Rightarrow> flags \<Rightarrow> 'api
   \<Rightarrow> ((driver \<times> service list) \<times> 'api world) startup" where
  "handle b marshal force k os listen f api =
     (if f_runControllerServer f \<and> f_ipAddresses f = '''' then
        Fatal ''NFS LB CSI Driver controller requires atleast one valid IP address for the target NFS server(s)''
      else
        (let options = (driver_options f)\<lparr>o_IPList := Split (f_ipAddresses f) (CHR '','')\<rparr>;
             (d, l, c) = NewDriver (b_driverVersion b) options in
         case Run b marshal force k os listen d
                \<lparr>w_locks = l, w_trace = [], w_stats = c, w_ipMap = [], w_api = api\<rparr> of
           (Up ds, w) \<Rightarrow> Up (ds, w)
         | (Fatal m, _) \<Rightarrow> Fatal m
         | (Crash m, _) \<Rightarrow> Crash m))"

text \<open>\<open>main\<close> starts the NFS services script only when it does not run the controller server.\<close>

definition NfsServicesStartCmd :: string where
  "NfsServicesStartCmd = ''/nfs_services_start.sh''"

definition main_starts :: "flags \<Rightarrow> string list" where
  "main_starts f =
     (if f_runNfsServices f \<and> \<not> f_runControllerServer f then [NfsServicesStartCmd] else [])"

section \<open>A small deployment\<close>

text \<open>For the witnesses: a build, a cluster with one annotated node, and the flags of a controller
  only deployment.\<close>

definition demo_build :: build where
  "demo_build = \<lparr>b_driverVersion = ''v1'', b_gitCommit = ''c'', b_buildDate = ''d'', b_goVersion = ''go'',
     b_compiler = ''gc'', b_GOOS = ''linux'', b_GOARCH = ''amd64''\<rparr>"

definition demo_cluster :: cluster where
  "demo_cluster = \<lparr>k_configOk = True, k_clientOk = True,
     k_nodes = Inr [\<lparr>Name = ''n1'', Annotations = Some [(NodeAnnotation, ''10.0.0.1'')],
       ResourceVersion = 1\<rparr>]\<rparr>"

definition controller_flags :: "string \<Rightarrow> flags" where
  "controller_flags ips = default_flags\<lparr>f_ipAddresses := ips, f_runControllerServer := True\<rparr>"

definition demo_start :: "string \<Rightarrow> ((driver \<times> service list) \<times> node world) startup" where
  "demo_start ips =
     handle demo_build (\<lambda>_. Inr ''yaml'') True demo_cluster sample_os (\<lambda>_ _. True)
       (controller_flags ips) \<lparr>Name = ''n2'', Annotations = None, ResourceVersion = 0\<rparr>"

primrec is_up :: "'a startup \<Rightarrow> bool" where
  "is_up (Up x) = True"
| "is_up (Fatal m) = False"
| "is_up (Crash m) = False"

primrec the_up :: "'a startup \<Rightarrow> 'a option" where
  "the_up (Up x) = Some x"
| "the_up (Fatal m) = None"
| "the_up (Crash m) = None"

section \<open>Lemmas\<close>

lemma NewDriver_d [simp]:
  "d_runControllerServer (fst (NewDriver v opts)) = o_RunControllerServer opts"
  "d_runNodeServer (fst (NewDriver v opts)) = o_RunNodeServer opts"
  "d_ipList (fst (NewDriver v opts)) = o_IPList opts"
  "d_workingMountDir (fst (NewDriver v opts)) = o_WorkingMountDir opts"
  "d_ns (fst (NewDriver v opts)) = None" "d_cs (fst (NewDriver v opts)) = None"
  "fst (snd (NewDriver v opts)) = {}"
  by (simp_all add: NewDriver_def Let_def driver_fields_def AddControllerServiceCapabilities_def
      AddNodeServiceCapabilities_def NewVolumeLocks_def)

lemma serve_Up:
  assumes "serve os listen ep (Interface ids) (Interface cs) (Interface ns) w = (Up services, w')"
  shows "services = [IdentityService, ControllerService, NodeService] \<and>
    w_ipMap w' = w_ipMap w \<and> w_locks w' = w_locks w"
  using assms
  by (auto simp: serve_def registered_def Let_def syscall_def
      split: outcome.splits prod.splits if_splits option.splits)

lemma start_controller_Up:
  assumes "start_controller k d w = Up (d', w')"
  shows "d_ns d' = d_ns d \<and> d_workingMountDir d' = d_workingMountDir d \<and> w_locks w' = w_locks w \<and>
    (d_runControllerServer d \<longrightarrow> (\<exists>cs. NewControllerServer k d = Up (cs, w_ipMap w') \<and> d_cs d' = Some cs)) \<and>
    (\<not> d_runControllerServer d \<longrightarrow> d_cs d' = d_cs d \<and> w_ipMap w' = w_ipMap w)"
  using assms by (auto simp: start_controller_def split: if_splits startup.splits prod.splits)

lemma Run_Up:
  assumes "Run b marshal force k os listen d w = (Up (d', services), w')"
  shows "services = [IdentityService, ControllerService, NodeService] \<and> w_locks w' = w_locks w \<and>
    d_ns d' = (if d_runNodeServer d then Some (NewNodeServer force) else d_ns d) \<and>
    d_workingMountDir d' = d_workingMountDir d \<and>
    (d_runControllerServer d \<longrightarrow>
      (\<exists>cs. NewControllerServer k d = Up (cs, w_ipMap w') \<and> d_cs d' = Some cs)) \<and>
    (\<not> d_runControllerServer d \<longrightarrow> d_cs d' = d_cs d \<and> w_ipMap w' = w_ipMap w)"
proof -
  let ?d1 = "if d_runNodeServer d then d\<lparr>d_ns := Some (NewNodeServer force)\<rparr> else d"
  obtain w2 where start: "start_controller k ?d1 w = Up (d', w2)"
    and serve: "serve os listen (d_endpoint d') (Interface (Some (NewDefaultIdentityServer d')))
      (Interface (d_cs d')) (Interface (d_ns d')) w2 = (Up services, w')"
    using assms unfolding Run_def Let_def
    by (cases "start_controller k ?d1 w")
      (auto split: sum.splits if_split_asm startup.splits prod.splits)
  have ns: "NewControllerServer k ?d1 = NewControllerServer k d"
    by (simp add: NewControllerServer_def)
  show ?thesis
    using start_controller_Up [OF start] serve_Up [OF serve] by (simp add: ns split: if_split_asm)
qed

lemma handle_Up:
  assumes "handle b marshal force k os listen f api = Up ((d, services), w)"
  shows "services = [IdentityService, ControllerService, NodeService] \<and> w_locks w = {} \<and>
    d_ns d = (if f_runNodeServer f then Some (NewNodeServer force) else None) \<and>
    d_workingMountDir d = f_workingMountDir f \<and>
    (f_runControllerServer f \<longrightarrow> f_ipAddresses f \<noteq> '''' \<and> d_cs d \<noteq> None \<and>
      (\<exists>m. NewLBController k (Split (f_ipAddresses f) (CHR '','')) = Up m \<and>
         d_cs d = Some \<lparr>cs_hasLB = True\<rparr> \<and> w_ipMap w = m)) \<and>
    (\<not> f_runControllerServer f \<longrightarrow> d_cs d = None \<and> w_ipMap w = [])"
proof -
  let ?opts = "(driver_options f)\<lparr>o_IPList := Split (f_ipAddresses f) (CHR '','')\<rparr>"
  let ?n = "NewDriver (b_driverVersion b) ?opts"
  have run: "Run b marshal force k os listen (fst ?n)
      \<lparr>w_locks = fst (snd ?n), w_trace = [], w_stats = snd (snd ?n), w_ipMap = [], w_api = api\<rparr>
    = (Up (d, services), w)"
    and ips: "\<not> (f_runControllerServer f \<and> f_ipAddresses f = '''')"
    using assms
    by (auto simp: handle_def Let_def simp del: NewDriver_d
        split: if_splits prod.splits startup.splits)
  show ?thesis
    using Run_Up [OF run] ips
    by (auto simp: driver_options_def NewControllerServer_def split: startup.splits)
qed

lemma is_up_cases: "is_up s \<Longrightarrow> \<exists>d services w. s = Up ((d, services), w)"
  by (cases s) auto

section \<open>Properties\<close>

text \<open>C21. When the controller comes up, its load balancing map is right: it has exactly the
  configured IPs, at least one, and each is counted once for every node of the cluster that carries
  its annotation.  No volume lock is held.\<close>

theorem controller_starts_with_counts:
  assumes "handle b marshal force k os listen f api = Up ((d, services), w)"
    and "f_runControllerServer f"
  shows "d_cs d = Some \<lparr>cs_hasLB = True\<rparr> \<and> w_locks w = {} \<and> w_ipMap w \<noteq> [] \<and>
    (\<exists>ns. k_nodes k = Inr ns \<and>
      (\<forall>ip. map_of (w_ipMap w) ip =
        (if ip \<in> set (Split (f_ipAddresses f) (CHR '',''))
         then Some (int (length (filter (\<lambda>n. assigned_ip n = Some ip) ns))) else None)))"
proof -
  let ?ips = "Split (f_ipAddresses f) (CHR '','')"
  obtain ns where cs: "d_cs d = Some \<lparr>cs_hasLB = True\<rparr>" "w_locks w = {}" and ns: "k_nodes k = Inr ns"
    and m: "w_ipMap w = fold resync_node ns (initIPMap ?ips)"
    using handle_Up [OF assms(1)] assms(2)
    by (auto simp: NewLBController_def resyncIPMap_def split: if_splits outcome.splits sum.splits)
  have counts: "map_of (w_ipMap w) ip = (if ip \<in> set ?ips
      then Some (int (length (filter (\<lambda>n. assigned_ip n = Some ip) ns))) else None)" for ip
    by (simp add: m map_of_resync)
  obtain ip where "ip \<in> set ?ips" by (metis Split_nonempty last_in_set)
  with counts [of ip] have "w_ipMap w \<noteq> []" by auto
  with cs ns counts show ?thesis by blast
qed

theorem controller_starts_with_counts_witness:
  "\<exists>d services w ns. demo_start ''10.0.0.1,10.0.0.2'' = Up ((d, services), w) \<and>
    d_cs d = Some \<lparr>cs_hasLB = True\<rparr> \<and> w_locks w = {} \<and> k_nodes demo_cluster = Inr ns \<and>
    map_of (w_ipMap w) ''10.0.0.1'' =
      Some (int (length (filter (\<lambda>n. assigned_ip n = Some ''10.0.0.1'') ns)))"
proof -
  let ?ips = "''10.0.0.1,10.0.0.2''"
  have "is_up (demo_start ?ips)" by code_simp
  then obtain d services w where up: "demo_start ?ips = Up ((d, services), w)"
    using is_up_cases by blast
  have "f_runControllerServer (controller_flags ?ips)"
    and ip: "''10.0.0.1'' \<in> set (Split (f_ipAddresses (controller_flags ?ips)) (CHR '',''))"
    by code_simp+
  from controller_starts_with_counts [OF up [unfolded demo_start_def] this(1)] ip up
  show ?thesis by fastforce
qed

text \<open>The list of server IPs is not checked: a trailing comma in \<open>--ip-addresses\<close> configures
  the empty string as a server, and the next node without an assignment is given it.\<close>

lemma trailing_comma_assigns_empty_ip:
  "\<exists>d services w w'. demo_start ''10.0.0.1,'' = Up ((d, services), w) \<and>
    ControllerPublishVolume (d_cs d) (\<lambda>_. Inr (w_api w)) (\<lambda>n _. (None, n)) in_order
      \<lparr>cp_VolumeId = ''v'', cp_NodeId = ''n2'', cp_VolumeCapability = Some (MountVolume [])\<rparr> w =
      (Return [(NodeAnnotation, '''')], w')"
proof -
  let ?pub = "\<lambda>((d, services), w). fst (ControllerPublishVolume (d_cs d) (\<lambda>_. Inr (w_api w))
    (\<lambda>n _. (None, n)) in_order
    \<lparr>cp_VolumeId = ''v'', cp_NodeId = ''n2'', cp_VolumeCapability = Some (MountVolume [])\<rparr> w)"
  have "map_option ?pub (the_up (demo_start ''10.0.0.1,'')) = Some (Return [(NodeAnnotation, '''')])"
    by code_simp
  moreover have "is_up (demo_start ''10.0.0.1,'')" by code_simp
  then obtain d services w where "demo_start ''10.0.0.1,'' = Up ((d, services), w)"
    using is_up_cases by blast
  ultimately show ?thesis by (auto simp: prod_eq_iff)
qed

end
