(* ===== verification/Process.thy ===== *)
theory Process
  imports Server
begin

text \<open>
  The process of \<open>cmd/nfsplugin/main.go\<close>: \<open>main\<close> starts the helper script, runs \<open>handle\<close> in a goroutine
  and waits for \<open>SIGTERM\<close>; \<open>NewLBController\<close> sets up a second signal handler, the vendored
  \<open>SetupSignalHandler\<close> of \<open>controller-runtime\<close>, whose context stops the informer.  The goroutines
  interleave in any order, and signals arrive at any time.
\<close>

section \<open>State\<close>

datatype os_signal = SIGTERM | SIGINT

datatype exit_status = ExitCode int | KilledBySignal

datatype main_pc = MainBegin | MainHandle | MainNotify | MainWait | MainCancel | MainExit

datatype handle_pc = HandleNotRunning | Handling | HandleWaits

text \<open>The goroutine of \<open>SetupSignalHandler\<close>, which waits for a first and then for a second signal.\<close>

datatype handler_pc = NoHandler | FirstSignal | SecondSignal

datatype helper = NoHelper | HelperRunning | HelperSignalled

text \<open>\<open>main_chan\<close> is the channel of \<open>main\<close>, which holds one signal, \<open>handler_chan\<close> the number of
  signals in the handler's channel, which holds two; a signal that finds its channel full is
  dropped.  \<open>terms\<close> counts the \<open>SIGTERM\<close> signals that have arrived.\<close>

record process =
  main_at :: main_pc
  handle_at :: handle_pc
  handler_at :: handler_pc
  helper :: helper
  notified :: bool
  main_chan :: bool
  handler_chan :: nat
  cancelled :: bool
  informer_stopped :: bool
  exit_status :: "exit_status option"
  terms :: nat

definition process_init :: process where
  "process_init = \<lparr>main_at = MainBegin, handle_at = HandleNotRunning, handler_at = NoHandler,
     helper = NoHelper, notified = False, main_chan = False, handler_chan = 0, cancelled = False,
     informer_stopped = False, exit_status = None, terms = 0\<rparr>"

section \<open>Steps\<close>

text \<open>\<open>helperOk\<close> says whether \<open>cmd.Start\<close> succeeds, \<open>up\<close> is the outcome of \<open>handle\<close> up to its waiting
  for the server.  A fatal log message exits with 255, a panic with 2.  The goroutine that watches the
  command's context runs the command's \<open>Cancel\<close> function, which signals the helper.\<close>

inductive proc_step :: "flags \<Rightarrow> bool \<Rightarrow> 'a startup \<Rightarrow> process \<Rightarrow> process \<Rightarrow> bool" for f helperOk up where
  main_helper: "exit_status s = None \<Longrightarrow> main_at s = MainBegin \<Longrightarrow> main_starts f \<noteq> [] \<Longrightarrow> helperOk \<Longrightarrow>
     proc_step f helperOk up s (s\<lparr>helper := HelperRunning, main_at := MainHandle\<rparr>)"
| main_helper_fails: "exit_status s = None \<Longrightarrow> main_at s = MainBegin \<Longrightarrow> main_starts f \<noteq> [] \<Longrightarrow> \<not> helperOk \<Longrightarrow>
     proc_step f helperOk up s (s\<lparr>exit_status := Some (ExitCode 255)\<rparr>)"
| main_no_helper: "exit_status s = None \<Longrightarrow> main_at s = MainBegin \<Longrightarrow> main_starts f = [] \<Longrightarrow>
     proc_step f helperOk up s (s\<lparr>main_at := MainHandle\<rparr>)"
| main_handle: "exit_status s = None \<Longrightarrow> main_at s = MainHandle \<Longrightarrow>
     proc_step f helperOk up s (s\<lparr>handle_at := Handling, main_at := MainNotify\<rparr>)"
| main_notify: "exit_status s = None \<Longrightarrow> main_at s = MainNotify \<Longrightarrow>
     proc_step f helperOk up s (s\<lparr>notified := True, main_at := MainWait\<rparr>)"
| main_signal: "exit_status s = None \<Longrightarrow> main_at s = MainWait \<Longrightarrow> main_chan s \<Longrightarrow>
     proc_step f helperOk up s (s\<lparr>main_chan := False, main_at := MainCancel\<rparr>)"
| main_cancel: "exit_status s = None \<Longrightarrow> main_at s = MainCancel \<Longrightarrow>
     proc_step f helperOk up s (s\<lparr>cancelled := True, main_at := MainExit\<rparr>)"
| main_exit: "exit_status s = None \<Longrightarrow> main_at s = MainExit \<Longrightarrow>
     proc_step f helperOk up s (s\<lparr>exit_status := Some (ExitCode 0)\<rparr>)"
| watch_context: "exit_status s = None \<Longrightarrow> cancelled s \<Longrightarrow> helper s = HelperRunning \<Longrightarrow>
     proc_step f helperOk up s (s\<lparr>helper := HelperSignalled\<rparr>)"
| handle_signals: "exit_status s = None \<Longrightarrow> handle_at s = Handling \<Longrightarrow> f_runControllerServer f \<Longrightarrow>
     handler_at s = NoHandler \<Longrightarrow> proc_step f helperOk up s (s\<lparr>handler_at := FirstSignal\<rparr>)"
| handle_up: "exit_status s = None \<Longrightarrow> handle_at s = Handling \<Longrightarrow> up = Up x \<Longrightarrow>
     (f_runControllerServer f \<Longrightarrow> handler_at s \<noteq> NoHandler) \<Longrightarrow>
     proc_step f helperOk up s (s\<lparr>handle_at := HandleWaits\<rparr>)"
| handle_fatal: "exit_status s = None \<Longrightarrow> handle_at s = Handling \<Longrightarrow> up = Fatal m \<Longrightarrow>
     proc_step f helperOk up s (s\<lparr>exit_status := Some (ExitCode 255)\<rparr>)"
| handle_crash: "exit_status s = None \<Longrightarrow> handle_at s = Handling \<Longrightarrow> up = Crash m \<Longrightarrow>
     proc_step f helperOk up s (s\<lparr>exit_status := Some (ExitCode 2)\<rparr>)"
| handler_first: "exit_status s = None \<Longrightarrow> handler_at s = FirstSignal \<Longrightarrow> handler_chan s > 0 \<Longrightarrow>
     proc_step f helperOk up s (s\<lparr>handler_chan := handler_chan s - 1, informer_stopped := True,
       handler_at := SecondSignal\<rparr>)"
| handler_second: "exit_status s = None \<Longrightarrow> handler_at s = SecondSignal \<Longrightarrow> handler_chan s > 0 \<Longrightarrow>
     proc_step f helperOk up s (s\<lparr>exit_status := Some (ExitCode 1)\<rparr>)"

text \<open>Who receives a signal.  A signal that nobody asked for has its default effect.\<close>

definition handled :: "os_signal \<Rightarrow> process \<Rightarrow> bool" where
  "handled sg s \<longleftrightarrow> sg = SIGTERM \<and> notified s \<or> handler_at s \<noteq> NoHandler"

definition deliver :: "os_signal \<Rightarrow> process \<Rightarrow> process" where
  "deliver sg s =
     (let s1 = s\<lparr>terms := terms s + (if sg = SIGTERM then 1 else 0)\<rparr> in
      if handled sg s then
        s1\<lparr>main_chan := main_chan s \<or> sg = SIGTERM \<and> notified s,
           handler_chan := (if handler_at s = NoHandler then handler_chan s else min 2 (handler_chan s + 1))\<rparr>
      else s1\<lparr>exit_status := Some KilledBySignal\<rparr>)"

text \<open>The server may also die while it serves, with a fatal error or with a panic in a handler.\<close>

inductive proc_reachable :: "flags \<Rightarrow> bool \<Rightarrow> 'a startup \<Rightarrow> process \<Rightarrow> bool" for f helperOk up where
  init: "proc_reachable f helperOk up process_init"
| step: "proc_reachable f helperOk up s \<Longrightarrow> proc_step f helperOk up s t \<Longrightarrow> proc_reachable f helperOk up t"
| signal: "proc_reachable f helperOk up s \<Longrightarrow> exit_status s = None \<Longrightarrow>
     proc_reachable f helperOk up (deliver sg s)"
| serve_error: "proc_reachable f helperOk up s \<Longrightarrow> exit_status s = None \<Longrightarrow> handle_at s = HandleWaits \<Longrightarrow>
     proc_reachable f helperOk up (s\<lparr>exit_status := Some (ExitCode 255)\<rparr>)"
| serve_panic: "proc_reachable f helperOk up s \<Longrightarrow> exit_status s = None \<Longrightarrow> handle_at s = HandleWaits \<Longrightarrow>
     proc_reachable f helperOk up (s\<lparr>exit_status := Some (ExitCode 2)\<rparr>)"

section \<open>Invariants\<close>

definition proc_inv :: "flags \<Rightarrow> process \<Rightarrow> bool" where
  "proc_inv f s \<longleftrightarrow>
     (notified s \<longleftrightarrow> main_at s \<in> {MainWait, MainCancel, MainExit}) \<and>
     (main_chan s \<or> main_at s \<in> {MainCancel, MainExit} \<longrightarrow> terms s > 0) \<and>
     (cancelled s \<longleftrightarrow> main_at s = MainExit) \<and>
     (exit_status s = Some (ExitCode 0) \<longrightarrow> main_at s = MainExit) \<and>
     (handler_at s \<noteq> NoHandler \<longrightarrow> f_runControllerServer f)"

lemma proc_inv_step:
  assumes "proc_step f helperOk up s t" and "proc_inv f s"
  shows "proc_inv f t"
  using assms by cases (simp_all add: proc_inv_def)

lemma proc_inv_deliver: "proc_inv f s \<Longrightarrow> exit_status s = None \<Longrightarrow> proc_inv f (deliver sg s)"
  by (cases sg) (auto simp: proc_inv_def deliver_def Let_def)

lemma proc_reachable_inv: "proc_reachable f helperOk up s \<Longrightarrow> proc_inv f s"
proof (induction rule: proc_reachable.induct)
  case init
  then show ?case by (simp add: proc_inv_def process_init_def)
next
  case (serve_error s)
  then show ?case by (simp add: proc_inv_def)
next
  case (serve_panic s)
  then show ?case by (simp add: proc_inv_def)
qed (auto intro: proc_inv_step proc_inv_deliver)

section \<open>Termination\<close>

primrec main_rank :: "main_pc \<Rightarrow> nat" where
  "main_rank MainBegin = 5"
| "main_rank MainHandle = 4"
| "main_rank MainNotify = 3"
| "main_rank MainWait = 2"
| "main_rank MainCancel = 1"
| "main_rank MainExit = 0"

primrec handle_rank :: "handle_pc \<Rightarrow> nat" where
  "handle_rank HandleNotRunning = 2"
| "handle_rank Handling = 1"
| "handle_rank HandleWaits = 0"

primrec handler_rank :: "handler_pc \<Rightarrow> nat" where
  "handler_rank NoHandler = 2"
| "handler_rank FirstSignal = 1"
| "handler_rank SecondSignal = 0"

primrec helper_rank :: "helper \<Rightarrow> nat" where
  "helper_rank NoHelper = 2"
| "helper_rank HelperRunning = 1"
| "helper_rank HelperSignalled = 0"

definition proc_rank :: "process \<Rightarrow> nat" where
  "proc_rank s = main_rank (main_at s) + handle_rank (handle_at s) + handler_rank (handler_at s) +
     helper_rank (helper s) + (if exit_status s = None then 1 else 0)"

lemma rank_le: "handle_rank h \<le> 2" "handler_rank g \<le> 2" "helper_rank e \<le> 2"
  by ((cases h; simp), (cases g; simp), (cases e; simp))

text \<open>The goroutine of \<open>handle\<close> starts when \<open>main\<close> gets there, the helper before that.\<close>

definition proc_order :: "process \<Rightarrow> bool" where
  "proc_order s \<longleftrightarrow>
     (main_at s \<in> {MainBegin, MainHandle} \<longrightarrow> handle_at s = HandleNotRunning) \<and>
     (main_at s = MainBegin \<longrightarrow> helper s = NoHelper)"

lemma proc_order_step: "proc_step f helperOk up s t \<Longrightarrow> proc_order s \<Longrightarrow> proc_order t"
  by (induction rule: proc_step.induct) (auto simp: proc_order_def)

lemma proc_reachable_order: "proc_reachable f helperOk up s \<Longrightarrow> proc_order s"
proof (induction rule: proc_reachable.induct)
  case (step s t)
  then show ?case by (auto intro: proc_order_step)
qed (auto simp: proc_order_def process_init_def deliver_def Let_def)

lemma proc_step_rank:
  assumes "proc_step f helperOk up s t" and "proc_order s"
  shows "proc_rank t < proc_rank s"
  using assms by cases (simp_all add: proc_rank_def proc_order_def)

lemma proc_steps_rank:
  assumes "(proc_step f helperOk up ^^ n) s t" and "proc_order s"
  shows "n + proc_rank t \<le> proc_rank s"
  using assms
proof (induction n arbitrary: s)
  case (Suc n)
  obtain u where u: "proc_step f helperOk up s u" "(proc_step f helperOk up ^^ n) u t"
    using relpowp_Suc_D2 [OF Suc.prems(1)] by blast
  show ?case
    using Suc.IH [OF u(2) proc_order_step [OF u(1) Suc.prems(2)]] proc_step_rank [OF u(1) Suc.prems(2)]
    by simp
qed simp

text \<open>Once \<open>SIGTERM\<close> is in the channel of \<open>main\<close>, \<open>main\<close> can always move until the process has ended.\<close>

definition terminating :: "process \<Rightarrow> bool" where
  "terminating s \<longleftrightarrow> main_at s = MainWait \<and> main_chan s \<or> main_at s \<in> {MainCancel, MainExit}"

lemma terminating_step: "proc_step f helperOk up s t \<Longrightarrow> terminating s \<Longrightarrow> terminating t"
  by (induction rule: proc_step.induct) (auto simp: terminating_def)

lemma terminating_steps: "(proc_step f helperOk up)\<^sup>*\<^sup>* s t \<Longrightarrow> terminating s \<Longrightarrow> terminating t"
  by (induction rule: rtranclp_induct) (auto intro: terminating_step)

lemma terminating_moves:
  assumes "terminating s" and "exit_status s = None"
  shows "\<exists>t. proc_step f helperOk up s t"
  using assms(1) proc_step.main_signal [OF assms(2)] proc_step.main_cancel [OF assms(2)]
    proc_step.main_exit [OF assms(2)]
  unfolding terminating_def by blast

lemma deliver_terminating:
  assumes "proc_inv f s" and "notified s"
  shows "terminating (deliver SIGTERM s)"
  using assms by (auto simp: proc_inv_def terminating_def deliver_def handled_def Let_def)

section \<open>Concrete runs\<close>

definition helper_flags :: flags where
  "helper_flags = default_flags\<lparr>f_runNodeServer := True, f_runNfsServices := True\<rparr>"

text \<open>The states of a process that has started completely, with and without the helper.\<close>

definition node_waiting :: process where
  "node_waiting = process_init\<lparr>helper := HelperRunning, handle_at := Handling, notified := True,
     main_at := MainWait\<rparr>"

definition controller_waiting :: process where
  "controller_waiting = process_init\<lparr>handle_at := HandleWaits, notified := True, main_at := MainWait,
     handler_at := FirstSignal\<rparr>"

lemma node_waiting_reachable: "proc_reachable helper_flags True up node_waiting"
proof -
  have "main_starts helper_flags \<noteq> []"
    by (simp add: main_starts_def helper_flags_def default_flags_def)
  then have "proc_step helper_flags True up process_init
      (process_init\<lparr>helper := HelperRunning, main_at := MainHandle\<rparr>)"
    by (intro proc_step.main_helper) (simp_all add: process_init_def)
  from proc_reachable.step [OF proc_reachable.init this]
  have "proc_reachable helper_flags True up (process_init\<lparr>helper := HelperRunning, main_at := MainHandle\<rparr>)" .
  from proc_reachable.step [OF proc_reachable.step [OF this proc_step.main_handle] proc_step.main_notify]
  show ?thesis by (simp add: node_waiting_def process_init_def)
qed

lemma controller_waiting_reachable:
  assumes "f_runControllerServer f"
  shows "proc_reachable f helperOk (Up x) controller_waiting"
proof -
  have "main_starts f = []" using assms by (simp add: main_starts_def)
  then have "proc_step f helperOk (Up x) process_init (process_init\<lparr>main_at := MainHandle\<rparr>)"
    by (intro proc_step.main_no_helper) (simp_all add: process_init_def)
  from proc_reachable.step [OF proc_reachable.init this]
  have "proc_reachable f helperOk (Up x) (process_init\<lparr>main_at := MainHandle\<rparr>)" .
  from proc_reachable.step [OF proc_reachable.step [OF this proc_step.main_handle] proc_step.main_notify]
  have "proc_reachable f helperOk (Up x)
      (process_init\<lparr>handle_at := Handling, notified := True, main_at := MainWait\<rparr>)"
    by (simp add: process_init_def)
  from proc_reachable.step [OF this proc_step.handle_signals] assms
  have "proc_reachable f helperOk (Up x)
      (process_init\<lparr>handle_at := Handling, notified := True, main_at := MainWait, handler_at := FirstSignal\<rparr>)"
    by (simp add: process_init_def)
  from proc_reachable.step [OF this proc_step.handle_up] show ?thesis
    by (simp add: process_init_def controller_waiting_def)
qed

text \<open>The node process has received \<open>SIGTERM\<close> and exited before its helper was signalled.\<close>

definition node_exited :: process where
  "node_exited = \<lparr>main_at = MainExit, handle_at = Handling, handler_at = NoHandler,
     helper = HelperRunning, notified = True, main_chan = False, handler_chan = 0, cancelled = True,
     informer_stopped = False, exit_status = Some (ExitCode 0), terms = 1\<rparr>"

lemma node_exited_reachable: "proc_reachable helper_flags True up node_exited"
proof -
  have "proc_reachable helper_flags True up (deliver SIGTERM node_waiting)"
    by (rule proc_reachable.signal [OF node_waiting_reachable]) (simp add: node_waiting_def process_init_def)
  then have "proc_reachable helper_flags True up (node_waiting\<lparr>main_chan := True, terms := 1\<rparr>)"
    by (simp add: deliver_def handled_def node_waiting_def process_init_def)
  from proc_reachable.step [OF this proc_step.main_signal]
  have "proc_reachable helper_flags True up (node_waiting\<lparr>terms := 1, main_at := MainCancel\<rparr>)"
    by (simp add: node_waiting_def process_init_def)
  from proc_reachable.step [OF this proc_step.main_cancel]
  have "proc_reachable helper_flags True up (node_waiting\<lparr>terms := 1, cancelled := True, main_at := MainExit\<rparr>)"
    by (simp add: node_waiting_def process_init_def)
  from proc_reachable.step [OF this proc_step.main_exit] show ?thesis
    by (simp add: node_waiting_def process_init_def node_exited_def)
qed

section \<open>Properties\<close>

text \<open>C22. \<open>SIGTERM\<close> ends the process: if it arrives when \<open>main\<close> has asked for it, then however the
  goroutines go on they take boundedly many steps, and they can stop only when the process has exited.\<close>

theorem sigterm_ends_process:
  assumes "proc_reachable f helperOk up s" and "exit_status s = None" and "notified s"
  shows "(\<forall>n t. (proc_step f helperOk up ^^ n) (deliver SIGTERM s) t \<longrightarrow> n \<le> 9) \<and>
    (\<forall>t. (proc_step f helperOk up)\<^sup>*\<^sup>* (deliver SIGTERM s) t \<and> \<not> (\<exists>u. proc_step f helperOk up t u) \<longrightarrow>
       exit_status t \<noteq> None)"
proof -
  have r: "proc_reachable f helperOk up (deliver SIGTERM s)"
    by (rule proc_reachable.signal [OF assms(1,2)])
  have ending: "terminating (deliver SIGTERM s)"
    by (rule deliver_terminating [OF proc_reachable_inv [OF assms(1)] assms(3)])
  then have "main_rank (main_at (deliver SIGTERM s)) \<le> 2" by (auto simp: terminating_def)
  then have "proc_rank (deliver SIGTERM s) \<le> 9"
    using rank_le(1) [of "handle_at (deliver SIGTERM s)"] rank_le(2) [of "handler_at (deliver SIGTERM s)"]
      rank_le(3) [of "helper (deliver SIGTERM s)"]
    by (simp add: proc_rank_def)
  then have "n \<le> 9" if "(proc_step f helperOk up ^^ n) (deliver SIGTERM s) t" for n t
    using proc_steps_rank [OF that proc_reachable_order [OF r]] by simp
  moreover have "exit_status t \<noteq> None"
    if "(proc_step f helperOk up)\<^sup>*\<^sup>* (deliver SIGTERM s) t" "\<not> (\<exists>u. proc_step f helperOk up t u)" for t
    using terminating_moves [OF terminating_steps [OF that(1) ending]] that(2) by blast
  ultimately show ?thesis by blast
qed

theorem sigterm_ends_process_witness:
  "\<exists>t. proc_step helper_flags True (Up ()) (deliver SIGTERM node_waiting) t \<and>
     (\<forall>n u. (proc_step helper_flags True (Up ()) ^^ n) (deliver SIGTERM node_waiting) u \<longrightarrow> n \<le> 9)"
proof -
  have "terminating (deliver SIGTERM node_waiting)" "exit_status (deliver SIGTERM node_waiting) = None"
    by (simp_all add: terminating_def deliver_def handled_def node_waiting_def process_init_def)
  then obtain t where "proc_step helper_flags True (Up ()) (deliver SIGTERM node_waiting) t"
    using terminating_moves by blast
  moreover have "exit_status node_waiting = None" "notified node_waiting"
    by (simp_all add: node_waiting_def process_init_def)
  ultimately show ?thesis
    using sigterm_ends_process [OF node_waiting_reachable [of "Up ()"]] by blast
qed

text \<open>The process reports success only after \<open>SIGTERM\<close>, and then the context that stops the helper
  has been cancelled.  Every other way out has a status other than 0.\<close>

lemma success_only_after_sigterm:
  assumes "proc_reachable f helperOk up s" and "exit_status s = Some (ExitCode 0)"
  shows "terms s > 0 \<and> cancelled s"
  using proc_reachable_inv [OF assms(1)] assms(2) by (simp add: proc_inv_def)

text \<open>The helper may outlive the process: \<open>main\<close> cancels the context and exits at once, without
  waiting for the goroutine that sends the signal.\<close>

lemma helper_may_outlive_main:
  "\<exists>s. proc_reachable helper_flags True up s \<and> exit_status s = Some (ExitCode 0) \<and> helper s = HelperRunning"
  using node_exited_reachable [of up] by (intro exI [of _ node_exited]) (simp add: node_exited_def)


end
