(* ===== verification/Requests.thy ===== *)
theory Requests
  imports Process
begin

text \<open>
  The process as a server of requests: every call of the three services (\<open>identityserver.go\<close>,
  \<open>controllerserver.go\<close>, \<open>nodeserver.go\<close>) behind the registration and the logging interceptor of
  \<open>server.go\<close>, and runs of requests from start-up on.  Nothing between gRPC and the handlers recovers
  from a panic, so a panic ends the process.
\<close>

section \<open>Requests and responses\<close>

datatype request =
    GetPluginInfoReq | GetPluginCapabilitiesReq | ProbeReq
  | CreateVolumeReq CreateVolumeRequest
  | DeleteVolumeReq string gomap
  | ControllerPublishVolumeReq ControllerPublishVolumeRequest
  | ControllerUnpublishVolumeReq string string
  | ValidateVolumeCapabilitiesReq string "access_type list"
  | ListVolumesReq | GetCapacityReq | ControllerGetCapabilitiesReq
  | CreateSnapshotReq CreateSnapshotRequest
  | DeleteSnapshotReq string gomap
  | ListSnapshotsReq | ControllerExpandVolumeReq | ControllerGetVolumeReq | ControllerModifyVolumeReq
  | NodeStageVolumeReq | NodeUnstageVolumeReq
  | NodePublishVolumeReq NodePublishVolumeRequest
  | NodeUnpublishVolumeReq string string
  | NodeGetVolumeStatsReq string string
  | NodeExpandVolumeReq | NodeGetCapabilitiesReq | NodeGetInfoReq

datatype response =
    Done
  | PluginInfo "string \<times> string"
  | PluginCapabilities "plugin_cap list"
  | Ready bool
  | VolumeResponse csi_volume
  | PublishContext gomap
  | Confirmed "access_type list"
  | ControllerCapabilities "ControllerServiceCapability list"
  | SnapshotResponse csi_snapshot
  | NodeCapabilities "NodeServiceCapability list"
  | NodeInfo string
  | VolumeStats stats_response

text \<open>What a request meets outside the process: the lister and the updater of the API server, the order
  of each loop over a map, and the operating system.\<close>

record 'api env =
  e_get :: lister
  e_upd :: "'api updater"
  e_ords :: orders
  e_os :: os

definition env_ok :: "'api env \<Rightarrow> bool" where
  "env_ok e \<longleftrightarrow> (\<forall>n. range_ok (e_ords e n))"

section \<open>Dispatch\<close>

fun service_of :: "request \<Rightarrow> service" where
  "service_of GetPluginInfoReq = IdentityService"
| "service_of GetPluginCapabilitiesReq = IdentityService"
| "service_of ProbeReq = IdentityService"
| "service_of NodeStageVolumeReq = NodeService"
| "service_of NodeUnstageVolumeReq = NodeService"
| "service_of (NodePublishVolumeReq _) = NodeService"
| "service_of (NodeUnpublishVolumeReq _ _) = NodeService"
| "service_of (NodeGetVolumeStatsReq _ _) = NodeService"
| "service_of NodeExpandVolumeReq = NodeService"
| "service_of NodeGetCapabilitiesReq = NodeService"
| "service_of NodeGetInfoReq = NodeService"
| "service_of _ = ControllerService"

fun full_method :: "request \<Rightarrow> string" where
  "full_method GetPluginInfoReq = ''/csi.v1.Identity/GetPluginInfo''"
| "full_method GetPluginCapabilitiesReq = ''/csi.v1.Identity/GetPluginCapabilities''"
| "full_method ProbeReq = ''/csi.v1.Identity/Probe''"
| "full_method (CreateVolumeReq _) = ''/csi.v1.Controller/CreateVolume''"
| "full_method (DeleteVolumeReq _ _) = ''/csi.v1.Controller/DeleteVolume''"
| "full_method (ControllerPublishVolumeReq _) = ''/csi.v1.Controller/ControllerPublishVolume''"
| "full_method (ControllerUnpublishVolumeReq _ _) = ''/csi.v1.Controller/ControllerUnpublishVolume''"
| "full_method (ValidateVolumeCapabilitiesReq _ _) = ''/csi.v1.Controller/ValidateVolumeCapabilities''"
| "full_method ListVolumesReq = ''/csi.v1.Controller/ListVolumes''"
| "full_method GetCapacityReq = ''/csi.v1.Controller/GetCapacity''"
| "full_method ControllerGetCapabilitiesReq = ''/csi.v1.Controller/ControllerGetCapabilities''"
| "full_method (CreateSnapshotReq _) = ''/csi.v1.Controller/CreateSnapshot''"
| "full_method (DeleteSnapshotReq _ _) = ''/csi.v1.Controller/DeleteSnapshot''"
| "full_method ListSnapshotsReq = ''/csi.v1.Controller/ListSnapshots''"
| "full_method ControllerExpandVolumeReq = ''/csi.v1.Controller/ControllerExpandVolume''"
| "full_method ControllerGetVolumeReq = ''/csi.v1.Controller/ControllerGetVolume''"
| "full_method ControllerModifyVolumeReq = ''/csi.v1.Controller/ControllerModifyVolume''"
| "full_method NodeStageVolumeReq = ''/csi.v1.Node/NodeStageVolume''"
| "full_method NodeUnstageVolumeReq = ''/csi.v1.Node/NodeUnstageVolume''"
| "full_method (NodePublishVolumeReq _) = ''/csi.v1.Node/NodePublishVolume''"
| "full_method (NodeUnpublishVolumeReq _ _) = ''/csi.v1.Node/NodeUnpublishVolume''"
| "full_method (NodeGetVolumeStatsReq _ _) = ''/csi.v1.Node/NodeGetVolumeStats''"
| "full_method NodeExpandVolumeReq = ''/csi.v1.Node/NodeExpandVolume''"
| "full_method NodeGetCapabilitiesReq = ''/csi.v1.Node/NodeGetCapabilities''"
| "full_method NodeGetInfoReq = ''/csi.v1.Node/NodeGetInfo''"

definition answer :: "('a \<Rightarrow> response) \<Rightarrow> 'a outcome \<times> 'w \<Rightarrow> response outcome \<times> 'w" where
  "answer f = map_prod (map_outcome f) id"

text \<open>The services are methods of the driver's identity, controller and node server.\<close>

fun handler :: "driver \<Rightarrow> 'api env \<Rightarrow> request \<Rightarrow> 'api world \<Rightarrow> response outcome \<times> 'api world" where
  "handler d e GetPluginInfoReq w = answer PluginInfo (GetPluginInfo (NewDefaultIdentityServer d), w)"
| "handler d e GetPluginCapabilitiesReq w = answer PluginCapabilities (GetPluginCapabilities, w)"
| "handler d e ProbeReq w = answer Ready (Probe, w)"
| "handler d e (CreateVolumeReq req) w =
     answer VolumeResponse (CreateVolume d (e_ords e) (e_os e) req w)"
| "handler d e (DeleteVolumeReq volumeID secrets) w =
     answer (\<lambda>_. Done) (DeleteVolume d (e_ords e) (e_os e) volumeID secrets w)"
| "handler d e (ControllerPublishVolumeReq req) w =
     answer PublishContext (ControllerPublishVolume (d_cs d) (e_get e) (e_upd e) (e_ords e 0) req w)"
| "handler d e (ControllerUnpublishVolumeReq volumeID nodeID) w =
     answer (\<lambda>_. Done) (ControllerUnpublishVolume (d_cs d) (e_get e) (e_upd e) volumeID nodeID w)"
| "handler d e (ValidateVolumeCapabilitiesReq volumeID caps) w =
     answer Confirmed (ValidateVolumeCapabilities volumeID caps, w)"
| "handler d e ListVolumesReq w = answer (\<lambda>_. Done) (ListVolumes, w)"
| "handler d e GetCapacityReq w = answer (\<lambda>_. Done) (GetCapacity, w)"
| "handler d e ControllerGetCapabilitiesReq w =
     answer ControllerCapabilities (ControllerGetCapabilities d, w)"
| "handler d e (CreateSnapshotReq req) w =
     answer SnapshotResponse (CreateSnapshot d (e_ords e) (e_os e) req w)"
| "handler d e (DeleteSnapshotReq snapshotID secrets) w =
     answer (\<lambda>_. Done) (DeleteSnapshot d (e_ords e) (e_os e) snapshotID secrets w)"
| "handler d e ListSnapshotsReq w = answer (\<lambda>_. Done) (ListSnapshots, w)"
| "handler d e ControllerExpandVolumeReq w = answer (\<lambda>_. Done) (ControllerExpandVolume, w)"
| "handler d e ControllerGetVolumeReq w = answer (\<lambda>_. Done) (ControllerGetVolume, w)"
| "handler d e ControllerModifyVolumeReq w = answer (\<lambda>_. Done) (ControllerModifyVolume, w)"
| "handler d e NodeStageVolumeReq w = answer (\<lambda>_. Done) (NodeStageVolume, w)"
| "handler d e NodeUnstageVolumeReq w = answer (\<lambda>_. Done) (NodeUnstageVolume, w)"
| "handler d e (NodePublishVolumeReq req) w =
     answer (\<lambda>_. Done) (NodePublishVolume (d_ns d) d (e_ords e 0) (e_ords e 1) (e_os e) req w)"
| "handler d e (NodeUnpublishVolumeReq volumeID targetPath) w =
     answer (\<lambda>_. Done) (NodeUnpublishVolume (d_ns d) (e_os e) volumeID targetPath w)"
| "handler d e (NodeGetVolumeStatsReq volumeID volumePath) w =
     answer VolumeStats (NodeGetVolumeStats (d_ns d) (e_os e) volumeID volumePath w)"
| "handler d e NodeExpandVolumeReq w = answer (\<lambda>_. Done) (NodeExpandVolume, w)"
| "handler d e NodeGetCapabilitiesReq w = answer NodeCapabilities (NodeGetCapabilities (d_ns d) d, w)"
| "handler d e NodeGetInfoReq w = answer NodeInfo (NodeGetInfo (d_ns d) d, w)"

text \<open>A request for a service that is not registered does not reach the driver.\<close>

definition dispatch ::
  "driver \<times> service list \<Rightarrow> 'api env \<times> request \<Rightarrow> 'api world \<Rightarrow> response outcome \<times> 'api world" where
  "dispatch srv eq w =
     (case (srv, eq) of ((d, services), (e, rq)) \<Rightarrow>
        if service_of rq \<in> set services then fst (logGRPC (full_method rq) (handler d e rq) w)
        else (Fail (Status Unimplemented ''unknown service %v''), w))"

primrec panicked :: "'a outcome \<Rightarrow> bool" where
  "panicked (Return x) = False"
| "panicked (Fail e) = False"
| "panicked (Panics m) = True"

section \<open>Runs of requests\<close>

text \<open>One request after the other, until one of them panics.\<close>

primrec run_requests :: "('q \<Rightarrow> 'w \<Rightarrow> 'r outcome \<times> 'w) \<Rightarrow> 'q list \<Rightarrow> 'w \<Rightarrow> 'r outcome list \<times> 'w" where
  "run_requests rpc [] w = ([], w)"
| "run_requests rpc (q # qs) w =
     (case rpc q w of (r, w1) \<Rightarrow>
        if panicked r then ([r], w1)
        else (case run_requests rpc qs w1 of (rs, w2) \<Rightarrow> (r # rs, w2)))"

text \<open>What a server of requests promises: an invariant of its state, kept by every request, and a
  relation between the states before and after.\<close>

locale request_server =
  fixes rpc :: "'q \<Rightarrow> 'w \<Rightarrow> 'r outcome \<times> 'w"
    and ok :: "'q \<Rightarrow> bool"
    and inv :: "'w \<Rightarrow> bool"
    and effect :: "'q set \<Rightarrow> 'w \<Rightarrow> 'w \<Rightarrow> bool"
  assumes keeps: "ok q \<Longrightarrow> inv w \<Longrightarrow> rpc q w = (r, w') \<Longrightarrow> inv w'"
    and step_effect: "ok q \<Longrightarrow> inv w \<Longrightarrow> rpc q w = (r, w') \<Longrightarrow> effect {q} w w'"
    and effect_refl: "effect {} w w"
    and effect_trans: "effect A w w1 \<Longrightarrow> effect B w1 w2 \<Longrightarrow> effect (A \<union> B) w w2"
    and effect_mono: "A \<subseteq> B \<Longrightarrow> effect A w w' \<Longrightarrow> effect B w w'"
begin

lemma run_keeps:
  "run_requests rpc qs w = (rs, w') \<Longrightarrow> inv w \<Longrightarrow> list_all ok qs \<Longrightarrow> inv w' \<and> effect (set qs) w w'"
proof (induction qs arbitrary: w rs w')
  case Nil
  then show ?case by (simp add: effect_refl)
next
  case (Cons q qs)
  obtain r w1 where s: "rpc q w = (r, w1)" by fastforce
  have ok: "ok q" "list_all ok qs" using Cons.prems(3) by simp_all
  have w1: "inv w1" "effect {q} w w1"
    using keeps [OF ok(1) Cons.prems(2) s] step_effect [OF ok(1) Cons.prems(2) s] by blast+
  show ?case
  proof (cases "panicked r")
    case True
    then have "w' = w1" using Cons.prems(1) s by simp
    then show ?thesis using w1 effect_mono [of "{q}" "set (q # qs)"] by simp
  next
    case False
    obtain rs' w2 where run: "run_requests rpc qs w1 = (rs', w2)" by fastforce
    then have "w2 = w'" using Cons.prems(1) s False by simp
    then show ?thesis
      using Cons.IH [OF run w1(1) ok(2)] effect_trans [OF w1(2), of "set qs" w2] by simp
  qed
qed

text \<open>Every response of a run was given in a state with the invariant.\<close>

lemma run_response:
  assumes "run_requests rpc qs w = (rs, w')" and "inv w" and "list_all ok qs" and "r \<in> set rs"
  shows "\<exists>q\<in>set qs. \<exists>u u'. inv u \<and> rpc q u = (r, u')"
  using assms
proof (induction qs arbitrary: w rs w')
  case (Cons q qs)
  obtain r1 w1 where s: "rpc q w = (r1, w1)" by fastforce
  obtain rs' w2 where run: "run_requests rpc qs w1 = (rs', w2)" by fastforce
  have "inv w1" using keeps [OF _ Cons.prems(2) s] Cons.prems(3) by simp
  note IH = Cons.IH [OF run this]
  have "r = r1 \<or> r \<in> set rs'" using Cons.prems(1,4) s run by (auto split: if_splits)
  then show ?case using IH Cons.prems(2,3) s by auto
qed simp

end

section \<open>What a request may do\<close>

text \<open>The calls to the operating system that a request may make, the codes its errors may have, and
  the server it needs.\<close>

fun request_call :: "request \<Rightarrow> oscall \<Rightarrow> bool" where
  "request_call (NodePublishVolumeReq req) c = publish_call req c"
| "request_call (NodeUnpublishVolumeReq volumeID targetPath) c = cleanup_call targetPath c"
| "request_call (NodeGetVolumeStatsReq volumeID volumePath) c =
     (c \<in> {CNow, CLstat volumePath, CGetMetrics volumePath})"
| "request_call _ c = False"

fun reply_codes :: "request \<Rightarrow> code set" where
  "reply_codes GetPluginInfoReq = {Unavailable}"
| "reply_codes GetPluginCapabilitiesReq = {}"
| "reply_codes ProbeReq = {}"
| "reply_codes (CreateVolumeReq req) = {InvalidArgument, Internal}"
| "reply_codes (DeleteVolumeReq volumeID secrets) = {InvalidArgument, Internal}"
| "reply_codes (ControllerPublishVolumeReq req) = {InvalidArgument, Aborted, Internal}"
| "reply_codes (ControllerUnpublishVolumeReq volumeID nodeID) = {InvalidArgument, Aborted, Internal}"
| "reply_codes (ValidateVolumeCapabilitiesReq volumeID caps) = {InvalidArgument}"
| "reply_codes ControllerGetCapabilitiesReq = {}"
| "reply_codes (CreateSnapshotReq req) = {InvalidArgument, NotFound, Internal}"
| "reply_codes (DeleteSnapshotReq snapshotID secrets) = {InvalidArgument, Internal}"
| "reply_codes (NodePublishVolumeReq req) = {InvalidArgument, Aborted, Internal, PermissionDenied}"
| "reply_codes (NodeUnpublishVolumeReq volumeID targetPath) = {InvalidArgument, Aborted, Internal}"
| "reply_codes (NodeGetVolumeStatsReq volumeID volumePath) = {InvalidArgument, NotFound, Internal}"
| "reply_codes NodeGetCapabilitiesReq = {}"
| "reply_codes NodeGetInfoReq = {}"
| "reply_codes _ = {Unimplemented}"

fun provisioning :: "request \<Rightarrow> bool" where
  "provisioning (CreateVolumeReq req) = True"
| "provisioning (DeleteVolumeReq volumeID secrets) = True"
| "provisioning (CreateSnapshotReq req) = True"
| "provisioning (DeleteSnapshotReq snapshotID secrets) = True"
| "provisioning _ = False"

fun needs_node_server :: "request \<Rightarrow> bool" where
  "needs_node_server (NodePublishVolumeReq req) = True"
| "needs_node_server (NodeUnpublishVolumeReq volumeID targetPath) = True"
| "needs_node_server (NodeGetVolumeStatsReq volumeID volumePath) = True"
| "needs_node_server NodeGetCapabilitiesReq = True"
| "needs_node_server NodeGetInfoReq = True"
| "needs_node_server rq = provisioning rq"

fun needs_controller_server :: "request \<Rightarrow> bool" where
  "needs_controller_server (ControllerPublishVolumeReq req) = True"
| "needs_controller_server (ControllerUnpublishVolumeReq volumeID nodeID) = True"
| "needs_controller_server ControllerGetCapabilitiesReq = True"
| "needs_controller_server rq = provisioning rq"

section \<open>Lemmas: what a request leaves alone\<close>

text \<open>The part of the state that no request changes, and the calls it made.\<close>

definition frame :: "(oscall \<Rightarrow> bool) \<Rightarrow> 'api world \<Rightarrow> 'api world \<Rightarrow> bool" where
  "frame P w w' \<longleftrightarrow> w_locks w' = w_locks w \<and> known_ips (w_ipMap w') = known_ips (w_ipMap w) \<and>
     cache_ttl (w_stats w') = cache_ttl (w_stats w) \<and>
     (\<exists>cs. w_trace w' = w_trace w @ cs \<and> (\<forall>c\<in>set cs. P c))"

lemma frame_refl [simp]: "frame P w w"
  by (simp add: frame_def)

lemma frame_only_calls: "only_calls P w w' \<Longrightarrow> frame P w w'"
  by (auto simp: only_calls_def frame_def)

lemma frame_trans: "frame P w w1 \<Longrightarrow> frame P w1 w2 \<Longrightarrow> frame P w w2"
  by (fastforce simp: frame_def)

lemma frame_syscall: "P c \<Longrightarrow> frame P w (w\<lparr>w_trace := w_trace w @ [c]\<rparr>)"
  by (simp add: frame_def)

lemma frame_with_lock:
  assumes "with_lock key body w = (r, w')" and "\<And>w r w'. body w = (r, w') \<Longrightarrow> frame P w w'"
  shows "frame P w w'"
  using assms(1)
proof (cases rule: with_lock_cases)
  case (run w1)
  then show ?thesis using assms(2) [OF run(2)] by (auto simp: frame_def)
qed simp

lemma assign_call_frame:
  "assign_call cs get upd ord n v w = (r, w') \<Longrightarrow> range_ok ord \<Longrightarrow> frame P w w'"
  by (auto simp: assign_call_def frame_def split: if_splits prod.splits dest: AssignIPToNode_known_ips)

lemma RemoveIPFromNode_known_ips:
  "RemoveIPFromNode get upd n v m a = (r, m', a') \<Longrightarrow> known_ips m' = known_ips m"
  by (auto simp: RemoveIPFromNode_def remove_locked_def known_ips_iff insert_absorb
      split: sum.splits option.splits if_splits prod.splits api_error.splits)

lemma remove_call_frame: "remove_call cs get upd n v w = (r, w') \<Longrightarrow> frame P w w'"
  by (auto simp: remove_call_def frame_def split: if_splits prod.splits dest: RemoveIPFromNode_known_ips)

lemma ControllerPublishVolume_frame:
  "ControllerPublishVolume cs get upd ord req w = (r, w') \<Longrightarrow> range_ok ord \<Longrightarrow> frame P w w'"
  by (auto simp: ControllerPublishVolume_def split: if_splits option.splits
      elim!: frame_with_lock intro: assign_call_frame)

lemma ControllerUnpublishVolume_frame:
  "ControllerUnpublishVolume cs get upd v n w = (r, w') \<Longrightarrow> frame P w w'"
  by (auto simp: ControllerUnpublishVolume_def split: if_splits option.splits
      elim!: frame_with_lock intro: remove_call_frame)

lemma stats_get_frame_of:
  assumes "stats_get os v w = (r, w')" and "P CNow"
  shows "frame P w w'"
proof -
  have only: "only_calls (\<lambda>c. c = CNow) w (w'\<lparr>w_stats := w_stats w\<rparr>)"
    using stats_get_frame [OF assms(1)] by blast
  obtain cs where "w_trace w' = w_trace w @ cs" "\<forall>c\<in>set cs. c = CNow"
    using frame_only_calls [OF only] by (auto simp: frame_def)
  moreover have "w_locks w' = w_locks w" "w_ipMap w' = w_ipMap w"
    using only_calls_frame(1,3) [OF only] by simp_all
  ultimately show ?thesis using assms(2) stats_get_ttl_eq [OF assms(1)] by (auto simp: frame_def)
qed

lemma cache_set_frame_of: "P CNow \<Longrightarrow> frame P w (cache_set os v d w)"
  by (simp add: frame_def cache_set_def syscall_def)

lemma measure_stats_frame:
  assumes "measure_stats os v path w = (r, w')" and "P CNow" "P (CLstat path)" "P (CGetMetrics path)"
  shows "frame P w w'"
proof -
  let ?w1 = "w\<lparr>w_trace := w_trace w @ [CLstat path]\<rparr>"
  let ?w2 = "?w1\<lparr>w_trace := w_trace ?w1 @ [CGetMetrics path]\<rparr>"
  have f: "frame P w ?w1" "frame P ?w1 ?w2" using assms(3,4) by (simp_all add: frame_def)
  have "w' = ?w1 \<or> w' = ?w2 \<or> (\<exists>resp. w' = cache_set os v resp ?w2)"
    using assms(1) by (auto simp: measure_stats_def split: sum.splits prod.splits if_splits)
  then show ?thesis
    using f frame_trans [OF f] frame_trans [OF frame_trans [OF f] cache_set_frame_of [where P = P, OF assms(2)]]
    by blast
qed

lemma NodeGetVolumeStats_frame:
  assumes "NodeGetVolumeStats ns os v path w = (r, w')"
    and "P CNow" "P (CLstat path)" "P (CGetMetrics path)"
  shows "frame P w w'"
proof -
  note get = stats_get_frame_of [where P = P, OF _ assms(2)]
    and measure = measure_stats_frame [where P = P, OF _ assms(2-4)]
  consider "w' = w" | r1 where "stats_get os v w = (r1, w')"
    | r1 w1 where "stats_get os v w = (r1, w1)" "measure_stats os v path w1 = (r, w')"
    using assms(1)
    by (auto simp: NodeGetVolumeStats_def split: if_splits prod.splits sum.splits option.splits)
  then show ?thesis by cases (auto dest: get measure intro: frame_trans [OF get measure])
qed

lemma answer_eq: "answer f (r, w) = (map_outcome f r, w)"
  by (simp add: answer_def)

lemma answerE:
  assumes "answer f x = (r, w')"
  obtains r0 where "x = (r0, w')" "r = map_outcome f r0"
  using assms by (cases x) (auto simp: answer_def)

lemma provisioning_same:
  "CreateVolume d ords os vreq w = (r, w') \<Longrightarrow> w' = w" "DeleteVolume d ords os v s w = (r1, w') \<Longrightarrow> w' = w"
  "CreateSnapshot d ords os sreq w = (r2, w') \<Longrightarrow> w' = w" "DeleteSnapshot d ords os v s w = (r1, w') \<Longrightarrow> w' = w"
  using provisioning_world by (metis snd_conv)+

lemma handler_frame:
  assumes "handler d e rq w = (r, w')" and "env_ok e"
  shows "frame (request_call rq) w w'"
proof (cases rq)
  case (NodePublishVolumeReq req)
  then show ?thesis using assms(1)
    by (auto elim!: answerE intro!: frame_only_calls dest!: NodePublishVolume_calls
        simp: fun_eq_iff elim: only_calls_mono)
next
  case (NodeUnpublishVolumeReq v t)
  then show ?thesis using assms(1)
    by (auto elim!: answerE intro!: frame_only_calls dest!: NodeUnpublishVolume_calls
        elim: only_calls_mono)
next
  case (NodeGetVolumeStatsReq v path)
  then show ?thesis using assms(1) by (auto elim!: answerE NodeGetVolumeStats_frame)
next
  case (ControllerPublishVolumeReq req)
  then show ?thesis using assms by (auto simp: env_ok_def elim!: answerE ControllerPublishVolume_frame)
next
  case (ControllerUnpublishVolumeReq v n)
  then show ?thesis using assms(1) by (auto elim!: answerE ControllerUnpublishVolume_frame)
qed (use assms(1) in \<open>auto simp: answer_eq elim!: answerE dest!: provisioning_same\<close>)

section \<open>Lemmas: panics\<close>

lemma panicked_map [simp]: "panicked (map_outcome f r) = panicked r"
  by (cases r) simp_all

lemma with_lock_panic:
  assumes "with_lock key body w = (r, w')" and "panicked r"
  shows "\<exists>w0 w1. body w0 = (r, w1) \<and> w_ipMap w0 = w_ipMap w"
  using assms(1)
proof (cases rule: with_lock_cases)
  case (run w1)
  then show ?thesis by (intro exI [of _ "w\<lparr>w_locks := insert key (w_locks w)\<rparr>"] exI [of _ w1]) simp
qed (use assms(2) in simp)

lemma AssignIPToNode_panic:
  "AssignIPToNode get upd ord n v m a = (r, m', a') \<Longrightarrow> panicked r \<Longrightarrow> range_ok ord \<Longrightarrow> m = []"
  by (auto simp: lb_defs sorted_ips_Nil split: sum.splits option.splits if_splits list.splits prod.splits)

lemma ControllerPublishVolume_panic:
  assumes "ControllerPublishVolume cs get upd ord req w = (r, w')" and "panicked r" and "range_ok ord"
  shows "cs = None \<or> cs = Some \<lparr>cs_hasLB = False\<rparr> \<or> w_ipMap w = []"
proof (cases cs)
  case (Some cs')
  then obtain w0 w1 where call: "assign_call cs' get upd ord (cp_NodeId req) (cp_VolumeId req) w0 = (r, w1)"
    and "w_ipMap w0 = w_ipMap w"
    using assms(1,2) with_lock_panic
    by (fastforce simp: ControllerPublishVolume_def split: if_splits)
  then show ?thesis using Some assms(2,3) AssignIPToNode_panic [OF _ _ assms(3)]
    by (cases cs') (fastforce simp: assign_call_def split: if_splits prod.splits outcome.splits)
qed simp

lemma ControllerUnpublishVolume_panic:
  assumes "ControllerUnpublishVolume cs get upd v n w = (r, w')" and "panicked r"
  shows "cs = None \<or> cs = Some \<lparr>cs_hasLB = False\<rparr>"
proof (cases cs)
  case (Some cs')
  then obtain w0 w1 where call: "remove_call cs' get upd n v w0 = (r, w1)"
    using assms(1,2) with_lock_panic
    by (fastforce simp: ControllerUnpublishVolume_def split: if_splits)
  then show ?thesis using Some assms(2)
    by (cases cs') (auto simp: remove_call_def RemoveIPFromNode_def remove_locked_def
        split: if_splits prod.splits outcome.splits sum.splits option.splits api_error.splits)
qed simp

lemma NodePublishVolume_panic:
  "NodePublishVolume ns d ord ord' os req w = (r, w') \<Longrightarrow> panicked r \<Longrightarrow> ns = None"
  using NodePublishVolume_no_panic by (cases r) auto

lemma NodeUnpublishVolume_panic:
  assumes "NodeUnpublishVolume ns os v t w = (r, w')" and "panicked r"
  shows "ns = None"
proof (cases ns)
  case (Some s)
  then have "with_lock (nodeLockKey v t) (unpublish_locked s os t) w = (r, w')"
    using assms by (auto simp: NodeUnpublishVolume_def split: if_splits)
  from with_lock_panic [OF this assms(2)] show ?thesis using assms(2)
    by (auto simp: unpublish_locked_def split: if_splits prod.splits option.splits)
qed

lemma NodeGetVolumeStats_panic:
  "NodeGetVolumeStats ns os v path w = (r, w') \<Longrightarrow> panicked r \<Longrightarrow> ns = None"
  by (auto simp: NodeGetVolumeStats_def measure_stats_def
      split: if_splits prod.splits sum.splits option.splits)

lemma with_mount_panic:
  "with_mount d ords os vol ctx cap msg body w = (r, w') \<Longrightarrow> panicked r \<Longrightarrow> d_cs d = None \<or> d_ns d = None"
  using with_mount_fails [of d ords os vol ctx cap msg body w] by auto

lemma newNFSVolume_no_panic: "newNFSVolume ord ord' name sz params dflt \<noteq> Panics m"
proof -
  have "validate_loop vs v \<noteq> Panics m" for vs v m by (induction vs) auto
  then have "validateOnDeleteValue v \<noteq> Panics m" for v m by (auto simp: validateOnDeleteValue_def)
  then show ?thesis by (auto simp: newNFSVolume_def Let_def split: outcome.splits)
qed

lemma snap_param_loop_no_panic: "snap_param_loop params sb \<noteq> Panics m"
  by (induction params sb rule: snap_param_loop.induct) auto

lemma newNFSSnapshot_no_panic: "newNFSSnapshot ord name params vol \<noteq> Panics m"
  by (auto simp: newNFSSnapshot_def Let_def snap_param_loop_no_panic split: outcome.splits)

lemmas no_panics = newNFSVolume_no_panic newNFSSnapshot_no_panic getNfsVolFromID_no_panic
  getNfsSnapFromID_no_panic

lemma provisioning_panic:
  "CreateVolume d ords os vreq w = (r, w') \<Longrightarrow> panicked r \<Longrightarrow> d_cs d = None \<or> d_ns d = None"
  "DeleteVolume d ords os v s w = (r1, w') \<Longrightarrow> panicked r1 \<Longrightarrow> d_cs d = None \<or> d_ns d = None"
  "CreateSnapshot d ords os sreq w = (r2, w') \<Longrightarrow> panicked r2 \<Longrightarrow> d_cs d = None \<or> d_ns d = None"
  "DeleteSnapshot d ords os v s w = (r1, w') \<Longrightarrow> panicked r1 \<Longrightarrow> d_cs d = None \<or> d_ns d = None"
  by (auto simp: CreateVolume_def DeleteVolume_def CreateSnapshot_def DeleteSnapshot_def Let_def no_panics
      split: if_splits option.splits sum.splits outcome.splits dest: with_mount_panic)

text \<open>The handlers that only look at the request and the driver.\<close>

lemmas plain_handler_defs = GetPluginInfo_def GetPluginCapabilities_def Probe_def
  ValidateVolumeCapabilities_def ListVolumes_def GetCapacity_def ControllerGetCapabilities_def
  ListSnapshots_def ControllerExpandVolume_def ControllerGetVolume_def ControllerModifyVolume_def
  NodeStageVolume_def NodeUnstageVolume_def NodeExpandVolume_def NodeGetCapabilities_def NodeGetInfo_def

lemma handler_panic:
  assumes "handler d e rq w = (r, w')" and "panicked r" and "env_ok e"
  shows "d_ns d = None \<and> needs_node_server rq \<or>
    needs_controller_server rq \<and> (d_cs d = None \<or> d_cs d = Some \<lparr>cs_hasLB = False\<rparr> \<or> w_ipMap w = [])"
proof (cases rq)
  case (ControllerPublishVolumeReq req)
  then show ?thesis using assms
    by (auto simp: env_ok_def simp del: not_None_eq elim!: answerE dest!: ControllerPublishVolume_panic)
next
  case (ControllerUnpublishVolumeReq v n)
  then show ?thesis using assms(1,2) by (auto elim!: answerE dest!: ControllerUnpublishVolume_panic)
next
  case (NodePublishVolumeReq req)
  then show ?thesis using assms(1,2) by (auto elim!: answerE dest!: NodePublishVolume_panic)
next
  case (NodeUnpublishVolumeReq v t)
  then show ?thesis using assms(1,2) by (auto elim!: answerE dest!: NodeUnpublishVolume_panic)
next
  case (NodeGetVolumeStatsReq v path)
  then show ?thesis using assms(1,2) by (auto elim!: answerE dest!: NodeGetVolumeStats_panic)
qed (use assms(1,2) in \<open>auto simp: answer_eq plain_handler_defs Let_def elim!: answerE
    dest: provisioning_panic split: if_splits option.splits\<close>)

section \<open>Lemmas: error codes\<close>

definition status_in :: "code set \<Rightarrow> 'a outcome \<Rightarrow> bool" where
  "status_in C r \<longleftrightarrow> (\<forall>e. r = Fail e \<longrightarrow> (\<exists>c m. e = Status c m \<and> c \<in> C))"

lemma status_in_simps [simp]:
  "status_in C (Return x)" "status_in C (Panics m)"
  "status_in C (Fail (Status c m)) \<longleftrightarrow> c \<in> C" "status_in C (map_outcome f r) = status_in C r"
  by (auto simp: status_in_def) (cases r; simp)+

lemma status_in_with_lock:
  assumes "with_lock key body w = (r, w')" and "\<And>w r w'. body w = (r, w') \<Longrightarrow> status_in C r"
    and "Aborted \<in> C"
  shows "status_in C r"
  using assms(1) by (cases rule: with_lock_cases) (use assms(2,3) in auto)

text \<open>The errors of the mounter have one of the codes, once \<open>NodePublishVolume\<close> has classified them.\<close>

definition mount_codes :: "os \<Rightarrow> code set \<Rightarrow> bool" where
  "mount_codes os C \<longleftrightarrow> (\<forall>h source t fs opts e. os_mount os h source t fs opts = Some e \<longrightarrow>
     status_in C (Fail (mount_error e) :: unit outcome))"

lemma publish_mounted_codes:
  "publish_mounted os t p w = (r, w') \<Longrightarrow> {InvalidArgument, Internal} \<subseteq> C \<Longrightarrow> status_in C r"
  by (auto simp: publish_mounted_def split: prod.splits option.splits if_splits sum.splits)

lemma publish_target_codes:
  "publish_target os source t p w = (r, w') \<Longrightarrow> {InvalidArgument, Internal} \<subseteq> C \<Longrightarrow> mount_codes os C \<Longrightarrow>
    status_in C r"
  by (auto simp: publish_target_def publish_mount_def mount_codes_def Let_def
      split: prod.splits option.splits if_splits dest: publish_mounted_codes)

lemma publish_locked_codes:
  assumes "publish_locked d ord ord' os req volCap w = (r, w')"
    and "{InvalidArgument, Internal} \<subseteq> C" and "mount_codes os C"
  shows "status_in C r"
  using assms publish_target_codes [OF _ assms(2,3)]
  by (auto simp: publish_locked_def publish_context_def split: sum.splits if_splits option.splits
      dest!: context_loop_error)

lemma NodePublishVolume_codes_of:
  assumes "NodePublishVolume ns d ord ord' os req w = (r, w')"
    and "{InvalidArgument, Aborted, Internal} \<subseteq> C" and "mount_codes os C"
  shows "status_in C r"
  using assms
  by (auto simp: NodePublishVolume_def split: option.splits if_splits
      elim!: status_in_with_lock publish_locked_codes)

lemma NodePublishVolume_codes:
  "NodePublishVolume ns d ord ord' os req w = (r, w') \<Longrightarrow>
    status_in {InvalidArgument, Aborted, Internal, PermissionDenied} r"
  by (erule NodePublishVolume_codes_of) (auto simp: mount_codes_def mount_error_def)

lemma NodeUnpublishVolume_codes:
  "NodeUnpublishVolume ns os v t w = (r, w') \<Longrightarrow> status_in {InvalidArgument, Aborted, Internal} r"
  by (auto simp: NodeUnpublishVolume_def unpublish_locked_def split: option.splits if_splits prod.splits
      elim!: status_in_with_lock)

lemma NodeGetVolumeStats_codes:
  "NodeGetVolumeStats ns os v path w = (r, w') \<Longrightarrow> status_in {InvalidArgument, NotFound, Internal} r"
  by (auto simp: NodeGetVolumeStats_def measure_stats_def usage_of_metrics_def quantity_def
      split: if_splits prod.splits sum.splits option.splits)

lemma ControllerPublishVolume_codes:
  "ControllerPublishVolume cs get upd ord req w = (r, w') \<Longrightarrow>
    status_in {InvalidArgument, Aborted, Internal} r"
  by (auto simp: ControllerPublishVolume_def assign_call_def
      split: option.splits if_splits prod.splits outcome.splits elim!: status_in_with_lock)

lemma ControllerUnpublishVolume_codes:
  "ControllerUnpublishVolume cs get upd v n w = (r, w') \<Longrightarrow>
    status_in {InvalidArgument, Aborted, Internal} r"
  by (auto simp: ControllerUnpublishVolume_def remove_call_def
      split: option.splits if_splits prod.splits outcome.splits elim!: status_in_with_lock)

lemma with_mount_codes:
  assumes "with_mount d ords os vol ctx cap msg body w = (r, w')" and "Internal \<in> C"
  shows "status_in C r"
proof -
  obtain r0 where "internalMount d ords os vol ctx cap w = (r0, w)" "\<not> is_return r0"
    using internalMount_fails by metis
  then show ?thesis using assms by (cases r0) (auto simp: with_mount_def)
qed

lemma create_params_loop_codes:
  "create_params_loop params perms = Inl e \<Longrightarrow> \<exists>m. e = Status InvalidArgument m"
  by (induction params perms rule: create_params_loop.induct)
    (auto split: if_splits option.splits)

lemma provisioning_codes:
  "CreateVolume d ords os vreq w = (r, w') \<Longrightarrow> status_in {InvalidArgument, Internal} r"
  "DeleteVolume d ords os v s w = (r1, w') \<Longrightarrow> status_in {InvalidArgument, Internal} r1"
  "CreateSnapshot d ords os sreq w = (r2, w') \<Longrightarrow> status_in {InvalidArgument, NotFound, Internal} r2"
  "DeleteSnapshot d ords os v s w = (r1, w') \<Longrightarrow> status_in {InvalidArgument, Internal} r1"
  by (auto simp: CreateVolume_def DeleteVolume_def CreateSnapshot_def DeleteSnapshot_def Let_def
      split: if_splits option.splits sum.splits outcome.splits
      dest!: create_params_loop_codes elim!: with_mount_codes)

lemma handler_codes:
  assumes "handler d e rq w = (r, w')"
  shows "status_in (reply_codes rq) r"
proof -
  note codes = NodePublishVolume_codes NodeUnpublishVolume_codes NodeGetVolumeStats_codes
    ControllerPublishVolume_codes ControllerUnpublishVolume_codes provisioning_codes
  show ?thesis
    by (cases rq) (use assms in \<open>auto simp: answer_eq plain_handler_defs Let_def elim!: answerE dest!: codes
      split: if_splits option.splits\<close>)
qed

section \<open>The driver as a server of requests\<close>

definition server_inv :: "string set \<Rightarrow> int \<Rightarrow> 'api world \<Rightarrow> bool" where
  "server_inv ips ttl w \<longleftrightarrow>
     w_locks w = {} \<and> known_ips (w_ipMap w) = ips \<and> cache_ttl (w_stats w) = ttl"

definition calls_of :: "('api env \<times> request) set \<Rightarrow> 'api world \<Rightarrow> 'api world \<Rightarrow> bool" where
  "calls_of Q w w' \<longleftrightarrow>
     (\<exists>cs. w_trace w' = w_trace w @ cs \<and> (\<forall>c\<in>set cs. \<exists>(e, rq)\<in>Q. request_call rq c))"

lemma dispatch_eq:
  "dispatch (d, services) (e, rq) w =
     (if service_of rq \<in> set services then handler d e rq w
      else (Fail (Status Unimplemented ''unknown service %v''), w))"
  by (simp add: dispatch_def logGRPC_def Let_def split: prod.split)

lemma dispatch_frame:
  "dispatch (d, services) (e, rq) w = (r, w') \<Longrightarrow> env_ok e \<Longrightarrow> frame (request_call rq) w w'"
  by (auto simp: dispatch_eq dest: handler_frame split: if_splits)

lemma calls_of_trans:
  assumes "calls_of A w w1" and "calls_of B w1 w2"
  shows "calls_of (A \<union> B) w w2"
proof -
  obtain cs ds where "w_trace w1 = w_trace w @ cs" "\<forall>c\<in>set cs. \<exists>(e, rq)\<in>A. request_call rq c"
    "w_trace w2 = w_trace w1 @ ds" "\<forall>c\<in>set ds. \<exists>(e, rq)\<in>B. request_call rq c"
    using assms by (auto simp: calls_of_def)
  then show ?thesis unfolding calls_of_def
    by (intro exI [of _ "cs @ ds"]) (simp add: ball_Un bex_Un)
qed

interpretation rs: request_server "dispatch srv" "\<lambda>q. env_ok (fst q)" "server_inv ips ttl" calls_of
  for srv :: "driver \<times> service list" and ips ttl
proof unfold_locales
  fix q r and w w' :: "'a world"
  assume *: "env_ok (fst q)" "server_inv ips ttl w" "dispatch srv q w = (r, w')"
  obtain d services e rq where "srv = (d, services)" "q = (e, rq)" by (metis prod.collapse)
  with * have "frame (request_call rq) w w'" using dispatch_frame by simp
  with * \<open>q = (e, rq)\<close> show "server_inv ips ttl w'" "calls_of {q} w w'"
    by (auto simp: frame_def server_inv_def calls_of_def)
next
  fix A B :: "('a env \<times> request) set" and w w' :: "'a world"
  assume "A \<subseteq> B" "calls_of A w w'"
  then show "calls_of B w w'" unfolding calls_of_def by blast
qed (auto simp: calls_of_def [of "{}"] intro: calls_of_trans)

lemma request_call_no_removal:
  "\<not> request_call rq (CRemoveAll p)" "\<not> request_call rq (CRename p p')"
  by (cases rq; simp add: cleanup_call_def)+

text \<open>The state that \<open>handle\<close> leaves satisfies the invariant.\<close>

lemma handle_inv:
  assumes "handle b marshal force k os listen f api = Up (srv, w)"
  shows "server_inv (if f_runControllerServer f then set (Split (f_ipAddresses f) (CHR '','')) else {})
    (cache_ttl (w_stats w)) w"
proof -
  obtain d services where srv: "srv = (d, services)" by fastforce
  note up = handle_Up [OF assms [unfolded srv]]
  have "known_ips (w_ipMap w) = set (Split (f_ipAddresses f) (CHR '',''))" if c: "f_runControllerServer f"
  proof -
    have "\<exists>ns. fold resync_node ns (initIPMap (Split (f_ipAddresses f) (CHR '',''))) = w_ipMap w"
      using up c by (auto simp: NewLBController_def resyncIPMap_def split: if_splits outcome.splits sum.splits)
    then obtain ns where "w_ipMap w = fold resync_node ns (initIPMap (Split (f_ipAddresses f) (CHR '','')))"
      by metis
    then show ?thesis by (auto simp: known_ips_iff ip_known_def map_of_resync split: if_splits)
  qed
  then show ?thesis using up by (auto simp: server_inv_def known_ips_def)
qed

section \<open>A small deployment\<close>

definition demo_env :: "node env" where
  "demo_env = \<lparr>e_get = (\<lambda>_. Inr \<lparr>Name = ''n2'', Annotations = None, ResourceVersion = 0\<rparr>),
     e_upd = (\<lambda>n _. (None, n)), e_ords = (\<lambda>_. in_order), e_os = sample_os\<rparr>"

definition demo_requests :: "(node env \<times> request) list" where
  "demo_requests =
     [(demo_env, ControllerPublishVolumeReq \<lparr>cp_VolumeId = ''v'', cp_NodeId = ''n2'',
        cp_VolumeCapability = Some (MountVolume [])\<rparr>),
      (demo_env, DeleteVolumeReq ''s#b#a#pv#'' [])]"

definition demo_run :: "response outcome list option" where
  "demo_run = map_option (\<lambda>(srv, w). fst (run_requests (dispatch srv) demo_requests w))
     (the_up (demo_start ''10.0.0.2''))"

lemma demo_run_eq: "demo_run = Some [Return (PublishContext [(NodeAnnotation, ''10.0.0.2'')]),
    Panics nil_dereference]"
  by code_simp

lemma demo_env_ok: "env_ok demo_env"
  by (simp add: env_ok_def demo_env_def)

lemma demo_up:
  obtains srv w0 rs w where "demo_start ''10.0.0.2'' = Up (srv, w0)"
    "run_requests (dispatch srv) demo_requests w0 = (rs, w)"
    "rs = [Return (PublishContext [(NodeAnnotation, ''10.0.0.2'')]), Panics nil_dereference]"
proof -
  obtain srv w0 where up: "demo_start ''10.0.0.2'' = Up (srv, w0)"
    using demo_run_eq by (cases "demo_start ''10.0.0.2''") (auto simp: demo_run_def)
  moreover obtain rs w where run: "run_requests (dispatch srv) demo_requests w0 = (rs, w)" by fastforce
  moreover have "demo_run = Some rs" by (simp add: demo_run_def up run)
  then have "rs = [Return (PublishContext [(NodeAnnotation, ''10.0.0.2'')]), Panics nil_dereference]"
    using demo_run_eq by (metis option.inject)
  ultimately show ?thesis by (rule that)
qed

section \<open>Properties\<close>

text \<open>C23. A process stays healthy and keeps to its place: after any sequence of requests from start-up
  on, whatever the API server and the operating system answer, no volume lock is held, the load
  balancing map has exactly the configured IPs, and the time to live of the cache is unchanged.  Every call it made to the
  operating system belongs to one of the requests: to the target of a publish or unpublish request or
  to the path of a statistics request.  Nothing was ever removed with its contents or renamed.\<close>

theorem requests_keep_to_their_place:
  assumes "handle b marshal force k os listen f api = Up (srv, w0)"
    and "run_requests (dispatch srv) qs w0 = (rs, w)" and "\<forall>q\<in>set qs. env_ok (fst q)"
  shows "w_locks w = {} \<and>
    known_ips (w_ipMap w) = (if f_runControllerServer f then set (Split (f_ipAddresses f) (CHR '','')) else {}) \<and>
    cache_ttl (w_stats w) = cache_ttl (w_stats w0) \<and>
    (\<exists>cs. w_trace w = w_trace w0 @ cs \<and>
      (\<forall>c\<in>set cs. (\<exists>(e, rq)\<in>set qs. request_call rq c) \<and>
        (\<forall>p. c \<noteq> CRemoveAll p) \<and> (\<forall>p p'. c \<noteq> CRename p p')))"
proof -
  have "list_all (\<lambda>q. env_ok (fst q)) qs" using assms(3) by (simp add: list_all_iff)
  from rs.run_keeps [OF assms(2) handle_inv [OF assms(1)] this]
  have inv: "server_inv (if f_runControllerServer f then set (Split (f_ipAddresses f) (CHR '','')) else {})
      (cache_ttl (w_stats w0)) w" and calls: "calls_of (set qs) w0 w" by blast+
  have "(\<forall>p. c \<noteq> CRemoveAll p) \<and> (\<forall>p p'. c \<noteq> CRename p p')"
    if "\<exists>(e, rq)\<in>set qs. request_call rq c" for c
    using that request_call_no_removal by fast
  moreover obtain cs where "w_trace w = w_trace w0 @ cs"
    "\<forall>c\<in>set cs. \<exists>(e, rq)\<in>set qs. request_call rq c" using calls by (auto simp: calls_of_def)
  ultimately have "\<exists>cs. w_trace w = w_trace w0 @ cs \<and>
      (\<forall>c\<in>set cs. (\<exists>(e, rq)\<in>set qs. request_call rq c) \<and>
        (\<forall>p. c \<noteq> CRemoveAll p) \<and> (\<forall>p p'. c \<noteq> CRename p p'))"
    by (intro exI [of _ cs]) simp
  with inv show ?thesis by (simp add: server_inv_def)
qed

theorem requests_keep_to_their_place_witness:
  "\<exists>srv w0 rs w. demo_start ''10.0.0.2'' = Up (srv, w0) \<and>
     run_requests (dispatch srv) demo_requests w0 = (rs, w) \<and>
     rs = [Return (PublishContext [(NodeAnnotation, ''10.0.0.2'')]), Panics nil_dereference] \<and>
     w_locks w = {} \<and> known_ips (w_ipMap w) = {''10.0.0.2''}"
proof -
  obtain srv w0 rs w where up: "demo_start ''10.0.0.2'' = Up (srv, w0)"
    "run_requests (dispatch srv) demo_requests w0 = (rs, w)"
    "rs = [Return (PublishContext [(NodeAnnotation, ''10.0.0.2'')]), Panics nil_dereference]"
    by (rule demo_up)
  have "f_runControllerServer (controller_flags ''10.0.0.2'')"
    "set (Split (f_ipAddresses (controller_flags ''10.0.0.2'')) (CHR '','')) = {''10.0.0.2''}"
    by code_simp+
  then have "w_locks w = {}" "known_ips (w_ipMap w) = {''10.0.0.2''}"
    using requests_keep_to_their_place [OF up(1) [unfolded demo_start_def] up(2)] demo_env_ok
    by (simp_all add: demo_requests_def)
  with up show ?thesis by blast
qed

text \<open>C24. Which requests can end the process: in a run of requests from start-up on, a panic can only
  come from a request that needs the node server in a process without one, or the controller server in
  a process without one.  A process with both servers never panics.\<close>

theorem panics_only_without_server:
  assumes "handle b marshal force k os listen f api = Up (srv, w0)"
    and "run_requests (dispatch srv) qs w0 = (rs, w)" and "\<forall>q\<in>set qs. env_ok (fst q)"
    and "Panics m \<in> set rs"
  shows "\<exists>(e, rq)\<in>set qs. \<not> f_runNodeServer f \<and> needs_node_server rq \<or>
    \<not> f_runControllerServer f \<and> needs_controller_server rq"
proof -
  obtain d services where srv: "srv = (d, services)" by fastforce
  note up = handle_Up [OF assms(1) [unfolded srv]]
  have "list_all (\<lambda>q. env_ok (fst q)) qs" using assms(3) by (simp add: list_all_iff)
  from rs.run_response [OF assms(2) handle_inv [OF assms(1)] this assms(4)]
  obtain q u u' where q: "q \<in> set qs" "dispatch srv q u = (Panics m, u')"
    and inv: "server_inv (if f_runControllerServer f then set (Split (f_ipAddresses f) (CHR '','')) else {})
      (cache_ttl (w_stats w0)) u" by blast
  obtain e rq where erq: "q = (e, rq)" by fastforce
  have "handler d e rq u = (Panics m, u')" using q(2) by (simp add: srv erq dispatch_eq split: if_splits)
  moreover have "env_ok e" using assms(3) q(1) erq by force
  moreover have "w_ipMap u \<noteq> []" if "f_runControllerServer f"
    using inv that by (auto simp: server_inv_def known_ips_def)
  ultimately have "\<not> f_runNodeServer f \<and> needs_node_server rq \<or>
    \<not> f_runControllerServer f \<and> needs_controller_server rq"
    using handler_panic [of d e rq u "Panics m" u'] up by (auto split: if_splits)
  then show ?thesis using q(1) erq by blast
qed

theorem panics_only_without_server_witness:
  "\<not> f_runNodeServer (controller_flags ''10.0.0.2'') \<and>
   (\<exists>(e, rq)\<in>set demo_requests. needs_node_server rq)"
proof -
  obtain srv w0 rs w where up: "demo_start ''10.0.0.2'' = Up (srv, w0)"
    "run_requests (dispatch srv) demo_requests w0 = (rs, w)"
    "rs = [Return (PublishContext [(NodeAnnotation, ''10.0.0.2'')]), Panics nil_dereference]"
    by (rule demo_up)
  have "f_runControllerServer (controller_flags ''10.0.0.2'')"
    "\<not> f_runNodeServer (controller_flags ''10.0.0.2'')" by code_simp+
  with panics_only_without_server [OF up(1) [unfolded demo_start_def] up(2), of nil_dereference]
    up(3) demo_env_ok show ?thesis by (auto simp: demo_requests_def)
qed

text \<open>C40. One request can crash a deployed controller: in a process with a controller server and no node
  server, which is how the charts run it, deleting any volume that is not retained panics, since the
  internal mount uses the nil node server.\<close>

theorem delete_crashes_controller:
  assumes "handle b marshal force k os listen f api = Up (srv, w0)"
    and "f_runControllerServer f" and "\<not> f_runNodeServer f" and "f_workingMountDir f \<noteq> ''''"
    and "volumeID \<noteq> ''''" and "getNfsVolFromID volumeID = Return v"
    and "\<not> EqualFold (vol_onDelete (effective_policy (fst srv) v)) retain"
  shows "dispatch srv (e, DeleteVolumeReq volumeID secrets) w = (Panics nil_dereference, w)"
proof -
  obtain d services where srv: "srv = (d, services)" by fastforce
  have up: "services = [IdentityService, ControllerService, NodeService]" "d_ns d = None"
    "d_workingMountDir d = f_workingMountDir f" "d_cs d \<noteq> None"
    using handle_Up [OF assms(1) [unfolded srv]] assms(2,3) by auto
  let ?vol = "effective_policy d v"
  have vid: "vol_id ?vol \<noteq> ''''"
    using assms(5,6) by (auto simp: getNfsVolFromID_def effective_policy_def Let_def split: option.splits if_splits)
  have "internalMount d ords os' ?vol ctx cap w = (Panics nil_dereference, w)" for ords os' ctx cap
    using up(2,4) vid FJoin_2_nonempty [of "d_workingMountDir d"] up(3) assms(4)
    by (simp add: internalMount_def NodePublishVolume_def internal_request_def getInternalMountPath_def)
  then have "DeleteVolume d (e_ords e) (e_os e) volumeID secrets w = (Panics nil_dereference, w)"
    using assms(5-7) up(4) by (simp add: DeleteVolume_def Let_def with_mount_def srv)
  then show ?thesis by (simp add: srv dispatch_eq up(1) answer_eq)
qed

theorem delete_crashes_controller_witness:
  "\<exists>srv w0. demo_start ''10.0.0.2'' = Up (srv, w0) \<and>
     dispatch srv (demo_env, DeleteVolumeReq ''s#b#a#pv#'' []) w0 = (Panics nil_dereference, w0)"
proof -
  obtain srv w0 where up: "demo_start ''10.0.0.2'' = Up (srv, w0)" by (rule demo_up)
  let ?v = "\<lparr>vol_id = ''s#b#a#pv#'', vol_server = ''s'', vol_baseDir = ''b'', vol_subDir = ''a'',
     vol_size = 0, vol_uuid = ''pv'', vol_onDelete = ''''\<rparr>"
  have flags: "f_runControllerServer (controller_flags ''10.0.0.2'')"
    "\<not> f_runNodeServer (controller_flags ''10.0.0.2'')"
    "f_workingMountDir (controller_flags ''10.0.0.2'') \<noteq> ''''"
    and dec: "getNfsVolFromID ''s#b#a#pv#'' = Return ?v" by code_simp+
  have "map_option (\<lambda>(srv, w). EqualFold (vol_onDelete (effective_policy (fst srv) ?v)) retain)
      (the_up (demo_start ''10.0.0.2'')) = Some False" by code_simp
  then have "\<not> EqualFold (vol_onDelete (effective_policy (fst srv) ?v)) retain" by (simp add: up)
  from delete_crashes_controller [OF up [unfolded demo_start_def] flags _ dec this]
  show ?thesis using up by blast
qed

text \<open>C30. Every error that a running process answers with is a gRPC status, and its code is one of those
  listed for the request: \<open>reply_codes\<close>.  In particular no call answers with \<open>AlreadyExists\<close>.\<close>

theorem errors_are_statuses:
  assumes "handle b marshal force k os listen f api = Up (srv, w0)"
    and "dispatch srv (e, rq) w = (Fail err, w')"
  shows "\<exists>c m. err = Status c m \<and> c \<in> reply_codes rq \<and> c \<noteq> AlreadyExists"
proof -
  obtain d services where srv: "srv = (d, services)" by fastforce
  have "services = [IdentityService, ControllerService, NodeService]"
    using handle_Up [OF assms(1) [unfolded srv]] by blast
  then have "service_of rq \<in> set services" by (cases "service_of rq") simp_all
  with assms(2) have "handler d e rq w = (Fail err, w')" by (simp add: srv dispatch_eq)
  from handler_codes [OF this] obtain c m where "err = Status c m" "c \<in> reply_codes rq"
    by (auto simp: status_in_def)
  moreover have "AlreadyExists \<notin> reply_codes rq" by (cases rq) simp_all
  ultimately show ?thesis by blast
qed

theorem errors_are_statuses_witness:
  "\<exists>srv w0 c m. demo_start ''10.0.0.2'' = Up (srv, w0) \<and>
     dispatch srv (demo_env, ListVolumesReq) w0 = (Fail (Status c m), w0) \<and> c = Unimplemented"
proof -
  obtain srv w0 where up: "demo_start ''10.0.0.2'' = Up (srv, w0)" by (rule demo_up)
  have "map_option (\<lambda>(srv, w). fst (dispatch srv (demo_env, ListVolumesReq) w))
      (the_up (demo_start ''10.0.0.2'')) = Some (Fail (Status Unimplemented []))" by code_simp
  then have "fst (dispatch srv (demo_env, ListVolumesReq) w0) = Fail (Status Unimplemented [])"
    by (simp add: up)
  then have d: "dispatch srv (demo_env, ListVolumesReq) w0 =
      (Fail (Status Unimplemented []), snd (dispatch srv (demo_env, ListVolumesReq) w0))"
    by (metis prod.collapse)
  obtain d' services where srv: "srv = (d', services)" by fastforce
  have "snd (dispatch srv (demo_env, ListVolumesReq) w0) = w0" by (simp add: srv dispatch_eq answer_eq)
  with d errors_are_statuses [OF up [unfolded demo_start_def] d] up show ?thesis by auto
qed

end
