(* ===== verification/LinuxMounter.thy ===== *)
theory LinuxMounter
  imports Requests
begin

text \<open>
  The mounter of production: \<open>Mounter\<close> of the vendored \<open>mount_linux.go\<close>, with the helpers it uses of
  \<open>mount.go\<close> and \<open>mount_helper_unix.go\<close>.  It runs \<open>mount\<close>, \<open>umount\<close> and \<open>systemd-run\<close> and reads file
  attributes and the table of mounts; what these give is the argument \<open>kernel\<close>.  \<open>linux_os\<close> puts the
  mounter in the place of the one that the handlers take as an argument.
\<close>

section \<open>The kernel and the programs\<close>

text \<open>What running a command gives: its combined output, the text of the error, whether the process
  itself succeeded, and the text of its exit status.\<close>

record cmd_result =
  c_output :: string
  c_err :: "string option"
  c_success :: bool
  c_exit :: string

datatype statx_error = NoStatx | StatxError os_error

record statx_info =
  Attributes_mask :: "64 word"
  Attributes :: "64 word"
  Dev_major :: "32 word"
  Dev_minor :: "32 word"

text \<open>The functions see the calls that the driver made before; \<open>k_run\<close> also sees the commands that were
  run for the same call.  \<open>k_timedOut\<close> says whether a command ran into its time limit, \<open>k_mountedFast\<close> is
  \<open>MountedFast\<close> of \<open>moby/sys/mountinfo\<close>: mounted, sure, error.\<close>

record kernel =
  k_lookPath :: "oscall list \<Rightarrow> string \<Rightarrow> bool"
  k_run :: "oscall list \<Rightarrow> string list list \<Rightarrow> string list \<Rightarrow> cmd_result"
  k_timedOut :: "oscall list \<Rightarrow> string list \<Rightarrow> int \<Rightarrow> bool"
  k_statx :: "oscall list \<Rightarrow> string \<Rightarrow> statx_error + statx_info"
  k_stat :: "oscall list \<Rightarrow> string \<Rightarrow> os_error + 64 word"
  k_access :: "oscall list \<Rightarrow> string \<Rightarrow> bool"
  k_mountedFast :: "oscall list \<Rightarrow> string \<Rightarrow> bool \<times> bool \<times> os_error option"
  k_evalSymlinks :: "oscall list \<Rightarrow> string \<Rightarrow> os_error + string"
  k_procMounts :: "oscall list \<Rightarrow> os_error + string"
  k_mkdirTemp :: "os_error + string"

definition newline :: string where
  "newline = [CHR 0x0A]"

definition errNoChildProcesses :: string where
  "errNoChildProcesses = ''wait: no child processes''"

definition errNotMounted :: string where
  "errNotMounted = ''not mounted''"

definition plain_error :: "string \<Rightarrow> os_error" where
  "plain_error m = \<lparr>kind = EOther, text_of = m\<rparr>"

section \<open>Mount options and arguments\<close>

definition checkForNetDev :: "string list \<Rightarrow> string list \<Rightarrow> bool" where
  "checkForNetDev options sensitiveOptions \<longleftrightarrow>
     ''_netdev'' \<in> set options \<or> ''_netdev'' \<in> set sensitiveOptions"

definition MakeBindOptsSensitive ::
  "string list \<Rightarrow> string list \<Rightarrow> bool \<times> string list \<times> string list \<times> string list" where
  "MakeBindOptsSensitive options sensitiveOptions =
     (''bind'' \<in> set options \<or> ''bind'' \<in> set sensitiveOptions,
      ''bind'' # (if checkForNetDev options sensitiveOptions then [''_netdev''] else []),
      [''bind'', ''remount''] @ filter (\<lambda>opt. opt \<noteq> ''bind'' \<and> opt \<noteq> ''remount'') options,
      filter (\<lambda>opt. opt \<noteq> ''bind'' \<and> opt \<noteq> ''remount'') sensitiveOptions)"

definition sensitiveOptionsRemoved :: string where
  "sensitiveOptionsRemoved = ''<masked>''"

definition sanitizedOptionsForLogging :: "string list \<Rightarrow> string list \<Rightarrow> string" where
  "sanitizedOptionsForLogging options sensitiveOptions =
     Join options '','' @
     (if options \<noteq> [] \<and> sensitiveOptions \<noteq> [] then '','' else '''') @
     (if sensitiveOptions \<noteq> []
      then concat (replicate (length sensitiveOptions - 1) (sensitiveOptionsRemoved @ '','')) @
        sensitiveOptionsRemoved
      else '''')"

definition MakeMountArgsSensitiveWithMountFlags ::
  "string \<Rightarrow> string \<Rightarrow> string \<Rightarrow> string list \<Rightarrow> string list \<Rightarrow> string list \<Rightarrow> string list \<times> string" where
  "MakeMountArgsSensitiveWithMountFlags source target fstype options sensitiveOptions mountFlags =
     (let args1 = mountFlags; log1 = Join mountFlags '' '';
          args2 = (if fstype \<noteq> '''' then args1 @ [''-t'', fstype] else args1);
          log2 = (if fstype \<noteq> '''' then log1 @ Join args2 '' '' else log1);
          hasOpts = options \<noteq> [] \<or> sensitiveOptions \<noteq> [];
          args3 = (if hasOpts then args2 @ [''-o'', Join (options @ sensitiveOptions) '',''] else args2);
          log3 = (if hasOpts then log2 @ '' -o '' @ sanitizedOptionsForLogging options sensitiveOptions else log2);
          args4 = (if source \<noteq> '''' then args3 @ [source] else args3);
          log4 = (if source \<noteq> '''' then log3 @ '' '' @ source else log3)
      in (args4 @ [target], log4 @ '' '' @ target))"

definition AddSystemdScopeSensitive ::
  "string \<Rightarrow> string \<Rightarrow> string \<Rightarrow> string list \<Rightarrow> string \<Rightarrow> string \<times> string list \<times> string" where
  "AddSystemdScopeSensitive systemdRunPath mountName command args mountArgsLogStr =
     (let systemdRunArgs =
        [''--description=Kubernetes transient mount for '' @ mountName, ''--scope'', ''--'', command]
      in (systemdRunPath, systemdRunArgs @ args, Join systemdRunArgs '' '' @ '' '' @ mountArgsLogStr))"

section \<open>The mounter\<close>

record Mounter =
  mounterPath :: string
  withSystemd :: "bool option"
  trySystemd :: bool
  withSafeNotMountedBehavior :: bool

text \<open>A call of the mounter changes the mounter, which remembers whether there is systemd, and runs
  commands.\<close>

record mounter_run =
  the_mounter :: Mounter
  cmds :: "string list list"

definition run_cmd :: "kernel \<Rightarrow> oscall list \<Rightarrow> string list \<Rightarrow> mounter_run \<Rightarrow> cmd_result \<times> mounter_run" where
  "run_cmd K h args s = (k_run K h (cmds s) args, s\<lparr>cmds := cmds s @ [args]\<rparr>)"

definition detectSafeNotMountedBehavior :: "kernel \<Rightarrow> oscall list \<Rightarrow> bool" where
  "detectSafeNotMountedBehavior K h =
     (case k_mkdirTemp K of
        Inl e \<Rightarrow> False
      | Inr path \<Rightarrow>
          let r = k_run K h [] [''umount'', path]
          in c_err r \<noteq> None \<and> Contains (c_output r) errNotMounted)"

definition NewMounter :: "kernel \<Rightarrow> oscall list \<Rightarrow> string \<Rightarrow> Mounter" where
  "NewMounter K h path =
     \<lparr>mounterPath = path, withSystemd = None, trySystemd = True,
      withSafeNotMountedBehavior = detectSafeNotMountedBehavior K h\<rparr>"

definition systemd_probe :: "string list" where
  "systemd_probe = [''systemd-run'', ''--description=Kubernetes systemd probe'', ''--scope'', ''true'']"

definition detectSystemd :: "kernel \<Rightarrow> oscall list \<Rightarrow> mounter_run \<Rightarrow> bool \<times> mounter_run" where
  "detectSystemd K h s =
     (if \<not> k_lookPath K h ''systemd-run'' then (False, s)
      else (case run_cmd K h systemd_probe s of (r, s1) \<Rightarrow> (c_err r = None, s1)))"

definition hasSystemd :: "kernel \<Rightarrow> oscall list \<Rightarrow> mounter_run \<Rightarrow> bool \<times> mounter_run" where
  "hasSystemd K h s =
     (let m = the_mounter s;
          s1 = (if \<not> trySystemd m then s\<lparr>the_mounter := m\<lparr>withSystemd := Some False\<rparr>\<rparr> else s)
      in case withSystemd (the_mounter s1) of
           Some b \<Rightarrow> (b, s1)
         | None \<Rightarrow>
             (case detectSystemd K h s1 of (b, s2) \<Rightarrow>
                (b, s2\<lparr>the_mounter := (the_mounter s2)\<lparr>withSystemd := Some b\<rparr>\<rparr>)))"

definition defaultMountCommand :: string where
  "defaultMountCommand = ''mount''"

definition doMount ::
  "kernel \<Rightarrow> oscall list \<Rightarrow> string \<Rightarrow> string \<Rightarrow> string \<Rightarrow> string \<Rightarrow> string \<Rightarrow> string list \<Rightarrow> string list \<Rightarrow> string list
   \<Rightarrow> bool \<Rightarrow> mounter_run \<Rightarrow> os_error option \<times> mounter_run" where
  "doMount K h path mountCmd source target fstype options sensitiveOptions mountFlags systemdMountRequired s =
     (let (args, log) =
            MakeMountArgsSensitiveWithMountFlags source target fstype options sensitiveOptions mountFlags;
          (cmd1, args1, log1) =
            (if path \<noteq> '''' then (path, mountCmd # args, mountCmd @ '' '' @ log) else (mountCmd, args, log));
          (systemd, s1) = (if systemdMountRequired then hasSystemd K h s else (False, s));
          (cmd2, args2, log2) =
            (if systemd then AddSystemdScopeSensitive ''systemd-run'' target cmd1 args1 log1
             else (cmd1, args1, log1));
          (r, s2) = run_cmd K h (cmd2 # args2) s1
      in case c_err r of
           None \<Rightarrow> (None, s2)
         | Some err \<Rightarrow>
             if err = errNoChildProcesses \<and> c_success r then (None, s2)
             else
               let err' = (if err = errNoChildProcesses then c_exit r else err)
               in (Some (plain_error (''mount failed: '' @ err' @ newline @ ''Mounting command: '' @ cmd2 @
                     newline @ ''Mounting arguments: '' @ log2 @ newline @ ''Output: '' @ c_output r)), s2))"

definition MountSensitive ::
  "kernel \<Rightarrow> oscall list \<Rightarrow> string \<Rightarrow> string \<Rightarrow> string \<Rightarrow> string list \<Rightarrow> string list \<Rightarrow> mounter_run
   \<Rightarrow> os_error option \<times> mounter_run" where
  "MountSensitive K h source target fstype options sensitiveOptions s =
     (let (bind, bindOpts, bindRemountOpts, bindRemountOptsSensitive) =
            MakeBindOptsSensitive options sensitiveOptions;
          m = the_mounter s
      in if bind then
           (case doMount K h '''' defaultMountCommand source target fstype bindOpts
                   bindRemountOptsSensitive [] (trySystemd m) s of
              (Some e, s1) \<Rightarrow> (Some e, s1)
            | (None, s1) \<Rightarrow>
                doMount K h '''' defaultMountCommand source target fstype bindRemountOpts
                  bindRemountOptsSensitive [] (trySystemd m) s1)
         else
           doMount K h (if fstype \<in> {''nfs'', ''glusterfs'', ''ceph'', ''cifs''} then mounterPath m else '''')
             defaultMountCommand source target fstype options sensitiveOptions [] (trySystemd m) s)"

definition Mount ::
  "kernel \<Rightarrow> oscall list \<Rightarrow> string \<Rightarrow> string \<Rightarrow> string \<Rightarrow> string list \<Rightarrow> mounter_run
   \<Rightarrow> os_error option \<times> mounter_run" where
  "Mount K h source target fstype options = MountSensitive K h source target fstype options []"

section \<open>Unmounting\<close>

definition checkUmountError :: "string \<Rightarrow> cmd_result \<Rightarrow> string \<Rightarrow> bool \<Rightarrow> os_error option" where
  "checkUmountError target r err safe =
     (if err = errNoChildProcesses \<and> c_success r then None
      else if safe \<and> Contains (c_output r) errNotMounted then None
      else Some (plain_error (''unmount failed: '' @ (if err = errNoChildProcesses then c_exit r else err) @
        newline @ ''Unmounting arguments: '' @ target @ newline @ ''Output: '' @ c_output r)))"

definition Unmount :: "kernel \<Rightarrow> oscall list \<Rightarrow> Mounter \<Rightarrow> string \<Rightarrow> os_error option" where
  "Unmount K h m target =
     (let r = k_run K h [] [''umount'', target]
      in case c_err r of
           None \<Rightarrow> None
         | Some err \<Rightarrow> checkUmountError target r err (withSafeNotMountedBehavior m))"

datatype umount_error = DeadlineExceeded | UmountFailed os_error

definition tryUnmount :: "kernel \<Rightarrow> oscall list \<Rightarrow> string \<Rightarrow> bool \<Rightarrow> int \<Rightarrow> umount_error option" where
  "tryUnmount K h target safe unmountTimeout =
     (let r = k_run K h [] [''umount'', target]
      in if k_timedOut K h [''umount'', target] unmountTimeout then Some DeadlineExceeded
         else case c_err r of
                None \<Rightarrow> None
              | Some err \<Rightarrow> map_option UmountFailed (checkUmountError target r err safe))"

definition forceUmount :: "kernel \<Rightarrow> oscall list \<Rightarrow> string \<Rightarrow> bool \<Rightarrow> os_error option" where
  "forceUmount K h target safe =
     (let r = k_run K h [[''umount'', target]] [''umount'', ''-f'', target]
      in case c_err r of None \<Rightarrow> None | Some err \<Rightarrow> checkUmountError target r err safe)"

definition UnmountWithForce :: "kernel \<Rightarrow> oscall list \<Rightarrow> Mounter \<Rightarrow> string \<Rightarrow> int \<Rightarrow> os_error option" where
  "UnmountWithForce K h m target umountTimeout =
     (case tryUnmount K h target (withSafeNotMountedBehavior m) umountTimeout of
        None \<Rightarrow> None
      | Some DeadlineExceeded \<Rightarrow> forceUmount K h target (withSafeNotMountedBehavior m)
      | Some (UmountFailed e) \<Rightarrow> Some e)"

section \<open>Mount points\<close>

definition STATX_ATTR_MOUNT_ROOT :: "64 word" where
  "STATX_ATTR_MOUNT_ROOT = 0x2000"

definition isLikelyNotMountPointStat :: "kernel \<Rightarrow> oscall list \<Rightarrow> string \<Rightarrow> bool \<times> os_error option" where
  "isLikelyNotMountPointStat K h file =
     (case k_stat K h file of
        Inl e \<Rightarrow> (True, Some e)
      | Inr dev \<Rightarrow>
          (case k_stat K h (Dir (TrimSuffix file ''/'')) of
             Inl e \<Rightarrow> (True, Some e)
           | Inr rootDev \<Rightarrow> if dev \<noteq> rootDev then (False, None) else (True, None)))"

definition isLikelyNotMountPointStatx ::
  "kernel \<Rightarrow> oscall list \<Rightarrow> string \<Rightarrow> bool \<times> statx_error option" where
  "isLikelyNotMountPointStatx K h file =
     (case k_statx K h file of
        Inl e \<Rightarrow> (True, Some e)
      | Inr stat \<Rightarrow>
          if Attributes_mask stat \<noteq> 0 \<and> Attributes_mask stat AND STATX_ATTR_MOUNT_ROOT \<noteq> 0
          then (Attributes stat AND STATX_ATTR_MOUNT_ROOT = 0, None)
          else
            (case k_statx K h (Dir (TrimSuffix file ''/'')) of
               Inl e \<Rightarrow> (True, Some e)
             | Inr rootStat \<Rightarrow>
                 (Dev_major stat = Dev_major rootStat \<and> Dev_minor stat = Dev_minor rootStat, None)))"

definition IsLikelyNotMountPoint :: "kernel \<Rightarrow> oscall list \<Rightarrow> string \<Rightarrow> bool \<times> os_error option" where
  "IsLikelyNotMountPoint K h file =
     (case isLikelyNotMountPointStatx K h file of
        (_, Some NoStatx) \<Rightarrow> isLikelyNotMountPointStat K h file
      | (notMountPoint, Some (StatxError e)) \<Rightarrow> (notMountPoint, Some e)
      | (notMountPoint, None) \<Rightarrow> (notMountPoint, None))"

record MountPoint =
  mp_Device :: string
  mp_Path :: string
  mp_Type :: string
  mp_Opts :: "string list"
  mp_Freq :: int
  mp_Pass :: int

definition expectedNumFieldsPerLine :: nat where
  "expectedNumFieldsPerLine = 6"

definition parse_mount_line :: "string \<Rightarrow> os_error + MountPoint" where
  "parse_mount_line line =
     (let fields = Fields line in
      if length fields \<noteq> expectedNumFieldsPerLine
      then Inl (plain_error ''wrong number of fields (expected %d, got %d)'')
      else
        (case (ParseInt (fields ! 4) 10 0, ParseInt (fields ! 5) 10 0) of
           (Some freq, Some pass) \<Rightarrow>
             Inr \<lparr>mp_Device = fields ! 0, mp_Path = fields ! 1, mp_Type = fields ! 2,
                  mp_Opts = Split (fields ! 3) (CHR '',''), mp_Freq = freq, mp_Pass = pass\<rparr>
         | _ \<Rightarrow> Inl (plain_error ''strconv.Atoi: parsing'')))"

fun parse_mount_lines :: "string list \<Rightarrow> os_error + MountPoint list" where
  "parse_mount_lines [] = Inr []"
| "parse_mount_lines (line # lines) =
     (if line = '''' then parse_mount_lines lines
      else
        (case parse_mount_line line of
           Inl e \<Rightarrow> Inl e
         | Inr mp \<Rightarrow>
             (case parse_mount_lines lines of Inl e \<Rightarrow> Inl e | Inr mps \<Rightarrow> Inr (mp # mps))))"

definition parseProcMounts :: "string \<Rightarrow> os_error + MountPoint list" where
  "parseProcMounts content = parse_mount_lines (Split content (CHR 0x0A))"

definition ListMounts :: "kernel \<Rightarrow> oscall list \<Rightarrow> os_error + MountPoint list" where
  "ListMounts K h =
     (case k_procMounts K h of Inl e \<Rightarrow> Inl e | Inr content \<Rightarrow> parseProcMounts content)"

definition isMountPointMatch :: "MountPoint \<Rightarrow> string \<Rightarrow> bool" where
  "isMountPointMatch mp dir \<longleftrightarrow> TrimSuffix (mp_Path mp) (CHR 0x5C # ''040(deleted)'') = dir"

text \<open>\<open>fs.ErrNotExist\<close>.\<close>

definition ErrNotExist :: os_error where
  "ErrNotExist = \<lparr>kind = ENotExist, text_of = ''file does not exist''\<rparr>"

definition IsMountPoint :: "kernel \<Rightarrow> oscall list \<Rightarrow> string \<Rightarrow> os_error + bool" where
  "IsMountPoint K h file =
     (case k_mountedFast K h file of
        (isMnt, sure, isMntErr) \<Rightarrow>
          if sure \<and> isMntErr = None then Inr isMnt
          else if (case isMntErr of None \<Rightarrow> False | Some e \<Rightarrow> IsNotExist e) then Inl ErrNotExist
          else if (case isMntErr of None \<Rightarrow> False | Some e \<Rightarrow> \<not> IsPermission e) then Inl (the isMntErr)
          else
            (case k_evalSymlinks K h file of
               Inl e \<Rightarrow> Inl (if IsNotExist e then ErrNotExist else e)
             | Inr resolvedFile \<Rightarrow>
                 (case ListMounts K h of
                    Inl e \<Rightarrow> Inl e
                  | Inr mountPoints \<Rightarrow> Inr (list_ex (\<lambda>mp. isMountPointMatch mp resolvedFile) mountPoints))))"

definition ESTALE :: os_error where
  "ESTALE = \<lparr>kind = ECorrupted, text_of = ''stale NFS file handle''\<rparr>"

definition PathExists :: "kernel \<Rightarrow> oscall list \<Rightarrow> string \<Rightarrow> bool \<times> os_error option" where
  "PathExists K h path =
     (case k_stat K h path of
        Inr _ \<Rightarrow> (True, None)
      | Inl e \<Rightarrow>
          if IsNotExist e then (if k_access K h path then (True, Some ESTALE) else (False, None))
          else if IsCorruptedMnt e then (True, Some e)
          else (False, Some e))"

section \<open>The operating system of the driver\<close>

text \<open>The mounter after the calls of the driver: only \<open>Mount\<close> changes it.\<close>

fun mounter_after :: "kernel \<Rightarrow> Mounter \<Rightarrow> oscall list \<Rightarrow> oscall list \<Rightarrow> Mounter" where
  "mounter_after K m h [] = m"
| "mounter_after K m h (CMount source target fstype options # cs) =
     mounter_after K (the_mounter (snd (Mount K h source target fstype options \<lparr>the_mounter = m, cmds = []\<rparr>)))
       (h @ [CMount source target fstype options]) cs"
| "mounter_after K m h (c # cs) = mounter_after K m (h @ [c]) cs"

text \<open>The clean-up calls \<open>UnmountWithForce\<close> with a limit of 30 seconds.\<close>

definition linux_os :: "kernel \<Rightarrow> Mounter \<Rightarrow> os \<Rightarrow> os" where
  "linux_os K m os =
     os\<lparr>os_isLikelyNotMountPoint := IsLikelyNotMountPoint K,
        os_isMountPoint := IsMountPoint K,
        os_pathExists := PathExists K,
        os_mount := (\<lambda>h source target fstype options.
          fst (Mount K h source target fstype options \<lparr>the_mounter = mounter_after K m [] h, cmds = []\<rparr>)),
        os_unmount := (\<lambda>h. Unmount K h m),
        os_unmountWithForce := (\<lambda>h target. UnmountWithForce K h m target 30000000000),
        os_canSkip := withSafeNotMountedBehavior m\<rparr>"

section \<open>The table of mounts\<close>

text \<open>A line of \<open>/proc/mounts\<close> for an entry, and the entries that have one.\<close>

definition mount_entry :: "MountPoint \<Rightarrow> string" where
  "mount_entry mp = Join [mp_Device mp, mp_Path mp, mp_Type mp, Join (mp_Opts mp) '','',
     show_int (mp_Freq mp), show_int (mp_Pass mp)] '' ''"

definition entry_ok :: "MountPoint \<Rightarrow> bool" where
  "entry_ok mp \<longleftrightarrow> list_all field_ok [mp_Device mp, mp_Path mp, mp_Type mp, Join (mp_Opts mp) '',''] \<and>
     list_all (\<lambda>opt. CHR '','' \<notin> set opt) (mp_Opts mp) \<and> mp_Opts mp \<noteq> [] \<and>
     0 \<le> mp_Freq mp \<and> mp_Freq mp < 2 ^ 63 \<and> 0 \<le> mp_Pass mp \<and> mp_Pass mp < 2 ^ 63"

lemma mount_entry_line:
  assumes "entry_ok mp"
  shows "mount_entry mp \<noteq> ''''" and "CHR 0x0A \<notin> set (mount_entry mp)"
proof -
  show "mount_entry mp \<noteq> ''''" by (simp add: mount_entry_def)
  have field: "\<not> space_char c" if "c \<in> set w" "w \<in> {mp_Device mp, mp_Path mp, mp_Type mp, Join (mp_Opts mp) '','',
      show_int (mp_Freq mp), show_int (mp_Pass mp)}" for c w
    using that assms show_int_field [of "mp_Freq mp"] show_int_field [of "mp_Pass mp"]
    by (auto simp: entry_ok_def field_ok_def list_ex_iff)
  show "CHR 0x0A \<notin> set (mount_entry mp)"
  proof
    assume "CHR 0x0A \<in> set (mount_entry mp)"
    from subsetD [OF set_Join this [unfolded mount_entry_def]] show False
      using field by (fastforce simp: space_char_def)
  qed
qed

lemma parse_mount_line_entry:
  assumes "entry_ok mp"
  shows "parse_mount_line (mount_entry mp) = Inr mp"
proof -
  have "Fields (mount_entry mp) = [mp_Device mp, mp_Path mp, mp_Type mp, Join (mp_Opts mp) '','',
      show_int (mp_Freq mp), show_int (mp_Pass mp)]"
    unfolding mount_entry_def using assms by (intro Fields_Join) (auto simp: entry_ok_def show_int_field)
  moreover have "Split (Join (mp_Opts mp) '','') (CHR '','') = mp_Opts mp"
    using assms by (intro Split_Join) (auto simp: entry_ok_def list_all_iff)
  ultimately show ?thesis using assms
    by (simp add: parse_mount_line_def expectedNumFieldsPerLine_def ParseInt_show_int entry_ok_def)
qed

text \<open>Reading the table gives back its entries.\<close>

lemma parseProcMounts_roundtrip:
  "list_all entry_ok mps \<Longrightarrow> parseProcMounts (concat (map (\<lambda>mp. mount_entry mp @ newline) mps)) = Inr mps"
proof (induction mps)
  case (Cons mp mps)
  then show ?case using parse_mount_line_entry [of mp] mount_entry_line [of mp]
    by (simp add: parseProcMounts_def newline_def Split_append_sep Split_no_sep)
qed (simp add: parseProcMounts_def)

section \<open>The commands of a mount\<close>

text \<open>The command line of one mount, directly and in a scope of systemd; the option lists that \<open>Mount\<close>
  passes on, two for a bind mount; and when a command counts as successful.\<close>

definition mount_line :: "string \<Rightarrow> string \<Rightarrow> string list \<Rightarrow> string list" where
  "mount_line source target options =
     [''mount'', ''-t'', ''nfs''] @ (if options = [] then [] else [''-o'', Join options '','']) @ [source, target]"

definition in_scope :: "string \<Rightarrow> string list \<Rightarrow> string list" where
  "in_scope target cmd =
     [''systemd-run'', ''--description=Kubernetes transient mount for '' @ target, ''--scope'', ''--''] @ cmd"

definition mount_steps :: "string list \<Rightarrow> string list list" where
  "mount_steps options =
     (if ''bind'' \<in> set options
      then [''bind'' # (if ''_netdev'' \<in> set options then [''_netdev''] else []),
            [''bind'', ''remount''] @ filter (\<lambda>opt. opt \<noteq> ''bind'' \<and> opt \<noteq> ''remount'') options]
      else [options])"

definition succeeded :: "cmd_result \<Rightarrow> bool" where
  "succeeded r \<longleftrightarrow> c_err r = None \<or> c_err r = Some errNoChildProcesses \<and> c_success r"

text \<open>A mount was run with success, after the calls \<open>h\<close> of the driver and other commands for the same
  call.\<close>

definition mount_ran :: "kernel \<Rightarrow> oscall list \<Rightarrow> string \<Rightarrow> string \<Rightarrow> string list \<Rightarrow> bool" where
  "mount_ran K h source target options \<longleftrightarrow>
     (\<exists>before cmd. cmd \<in> {mount_line source target options, in_scope target (mount_line source target options)} \<and>
        succeeded (k_run K h before cmd))"

lemma hasSystemd_mounterPath:
  "hasSystemd K h s = (b, s') \<Longrightarrow> mounterPath (the_mounter s') = mounterPath (the_mounter s)"
  by (auto simp: hasSystemd_def detectSystemd_def run_cmd_def Let_def split: if_splits option.splits prod.splits)

lemma doMount_error:
  "doMount K h path cmd source target fstype options sensitive flags sys s = (Some e, s') \<Longrightarrow> kind e = EOther"
  by (auto simp: doMount_def Let_def plain_error_def split: prod.splits option.splits if_splits)

lemma doMount_mounterPath:
  "doMount K h path cmd source target fstype options sensitive flags sys s = (r, s') \<Longrightarrow>
    mounterPath (the_mounter s') = mounterPath (the_mounter s)"
  by (auto simp: doMount_def Let_def run_cmd_def split: prod.splits option.splits if_splits
      dest: hasSystemd_mounterPath)

lemma Mount_error: "Mount K h source target fstype options s = (Some e, s') \<Longrightarrow> kind e = EOther"
  by (auto simp: Mount_def MountSensitive_def Let_def split: prod.splits option.splits if_splits
      dest: doMount_error)

lemma Mount_mounterPath:
  "Mount K h source target fstype options s = (r, s') \<Longrightarrow>
    mounterPath (the_mounter s') = mounterPath (the_mounter s)"
  by (auto simp: Mount_def MountSensitive_def Let_def split: prod.splits option.splits if_splits
      dest!: doMount_mounterPath)

lemma mounter_after_mounterPath: "mounterPath (mounter_after K m h cs) = mounterPath m"
  by (induction K m h cs rule: mounter_after.induct) (auto simp: Mount_mounterPath [OF prod.collapse [symmetric]])

lemma doMount_success:
  assumes "doMount K h '''' defaultMountCommand source target ''nfs'' options [] [] sys s = (None, s')"
    and "source \<noteq> ''''"
  shows "mount_ran K h source target options"
proof -
  obtain b s1 where sys: "(if sys then hasSystemd K h s else (False, s)) = (b, s1)" by fastforce
  let ?line = "mount_line source target options"
  let ?cmd = "if b then in_scope target ?line else ?line"
  have "succeeded (k_run K h (cmds s1) ?cmd)"
    using assms sys
    by (auto simp: doMount_def MakeMountArgsSensitiveWithMountFlags_def AddSystemdScopeSensitive_def Let_def
        mount_line_def in_scope_def succeeded_def run_cmd_def defaultMountCommand_def
        split: option.splits if_splits)
  then show ?thesis by (auto simp: mount_ran_def split: if_splits)
qed

lemma Mount_success:
  assumes "Mount K h source target ''nfs'' options s = (None, s')" and "source \<noteq> ''''"
    and "mounterPath (the_mounter s) = ''''"
  shows "list_all (mount_ran K h source target) (mount_steps options)"
  using assms
  by (auto simp: Mount_def MountSensitive_def MakeBindOptsSensitive_def checkForNetDev_def mount_steps_def Let_def
      split: prod.splits option.splits if_splits dest: doMount_success)

lemma linux_mount_codes: "mount_codes (linux_os K m os) {InvalidArgument, Aborted, Internal}"
proof -
  have "kind e = EOther" if "fst (Mount K h source t fs opts s) = Some e" for h source t fs opts s e
    using that Mount_error by (metis prod.collapse)
  then show ?thesis
    by (fastforce simp: mount_codes_def linux_os_def mount_error_def IsPermission_def)
qed

lemma publish_source_nonempty: "publish_source ord ip p \<noteq> ''''"
  using publish_source_prefix [of ord ip p] by (auto simp: HasPrefix_def)

section \<open>The commands of an unmount\<close>

text \<open>An unmount that reports success has run a command that succeeded, or one that said that the target
  was not mounted, if the mounter relies on that.\<close>

definition umount_ran :: "kernel \<Rightarrow> oscall list \<Rightarrow> Mounter \<Rightarrow> string list \<Rightarrow> bool" where
  "umount_ran K h m cmd \<longleftrightarrow>
     (\<exists>before. succeeded (k_run K h before cmd) \<or>
        withSafeNotMountedBehavior m \<and> Contains (c_output (k_run K h before cmd)) errNotMounted)"

lemma checkUmountError_None:
  "checkUmountError target r err safe = None \<Longrightarrow> c_err r = Some err \<Longrightarrow>
    succeeded r \<or> safe \<and> Contains (c_output r) errNotMounted"
  by (auto simp: checkUmountError_def succeeded_def split: if_splits)

lemma Unmount_success: "Unmount K h m target = None \<Longrightarrow> umount_ran K h m [''umount'', target]"
  unfolding umount_ran_def
  by (rule exI [of _ "[]"])
    (auto simp: Unmount_def Let_def succeeded_def split: option.splits
      dest: checkUmountError_None)

text \<open>The forced command is run only when the plain one has run into its time limit.\<close>

lemma UnmountWithForce_success:
  assumes "UnmountWithForce K h m target limit = None"
  shows "umount_ran K h m
    (if k_timedOut K h [''umount'', target] limit then [''umount'', ''-f'', target] else [''umount'', target])"
proof (cases "k_timedOut K h [''umount'', target] limit")
  case True
  let ?r = "k_run K h [[''umount'', target]] [''umount'', ''-f'', target]"
  have "succeeded ?r \<or> withSafeNotMountedBehavior m \<and> Contains (c_output ?r) errNotMounted"
    using assms True
    by (auto simp: UnmountWithForce_def tryUnmount_def forceUmount_def Let_def succeeded_def
        split: option.splits dest: checkUmountError_None)
  then show ?thesis using True by (auto simp: umount_ran_def)
next
  case False
  let ?r = "k_run K h [] [''umount'', target]"
  have "succeeded ?r \<or> withSafeNotMountedBehavior m \<and> Contains (c_output ?r) errNotMounted"
    using assms False
    by (auto simp: UnmountWithForce_def tryUnmount_def Let_def succeeded_def
        split: option.splits umount_error.splits dest: checkUmountError_None)
  then show ?thesis using False by (auto simp: umount_ran_def)
qed

text \<open>When the fast check is not sure, \<open>IsMountPoint\<close> is decided by the table of mounts.\<close>

lemma IsMountPoint_listed:
  assumes "k_mountedFast K h file = (isMnt, False, None)" and "k_evalSymlinks K h file = Inr f"
    and "ListMounts K h = Inr mps"
  shows "IsMountPoint K h file = Inr (\<exists>mp\<in>set mps. isMountPointMatch mp f)"
  using assms by (simp add: IsMountPoint_def list_ex_iff)

section \<open>A small Linux\<close>

definition demo_kernel :: kernel where
  "demo_kernel =
     \<lparr>k_lookPath = (\<lambda>h p. True),
      k_run = (\<lambda>h before cmd. if cmd = [''umount'', ''/tmp/x'']
        then \<lparr>c_output = ''umount: /tmp/x: not mounted.'', c_err = Some ''exit status 32'', c_success = False,
              c_exit = ''exit status 32''\<rparr>
        else \<lparr>c_output = '''', c_err = None, c_success = True, c_exit = ''exit status 0''\<rparr>),
      k_timedOut = (\<lambda>h cmd t. False),
      k_statx = (\<lambda>h p. if now_exists p False h
        then Inr \<lparr>Attributes_mask = STATX_ATTR_MOUNT_ROOT,
               Attributes = (if now_mounted p False h then STATX_ATTR_MOUNT_ROOT else 0),
               Dev_major = 0, Dev_minor = 0\<rparr>
        else Inl (StatxError no_entry)),
      k_stat = (\<lambda>h p. if now_exists p False h then Inr 1 else Inl no_entry),
      k_access = (\<lambda>h p. False),
      k_mountedFast = (\<lambda>h p. (now_mounted p False h, True, None)),
      k_evalSymlinks = (\<lambda>h p. Inr p),
      k_procMounts = (\<lambda>h. Inr ''''),
      k_mkdirTemp = Inr ''/tmp/x''\<rparr>"

text \<open>The same with a server that refuses every mount.\<close>

definition refusing_kernel :: kernel where
  "refusing_kernel = demo_kernel\<lparr>k_run := (\<lambda>h before cmd.
     \<lparr>c_output = ''mount.nfs: Operation not permitted'', c_err = Some ''exit status 32'', c_success = False,
      c_exit = ''exit status 32''\<rparr>)\<rparr>"

definition demo_linux :: "kernel \<Rightarrow> os" where
  "demo_linux K = linux_os K (NewMounter K [] '''') sample_os"

section \<open>Properties\<close>

text \<open>C25. Success on Linux means that the mount command succeeded: after a successful publish request
  the kernel reported the target as a mount point, or the command
  \<open>mount -t nfs [-o options] source target\<close> was run with success, directly or in a scope of systemd, with
  the source made of the published IP and with the filtered options; a bind mount takes two such commands.\<close>

theorem publish_runs_mount:
  assumes "NodePublishVolume ns d ord ord' (linux_os K m os) req w = (Return (), w')"
    and "mounterPath m = ''''"
  shows "\<exists>volCap ip p. np_VolumeCapability req = Some volCap \<and>
    map_of (np_PublishContext req) NodeAnnotation = Some ip \<and> publish_context d ord req volCap = Inr p \<and>
    (IsLikelyNotMountPoint K (w_trace w) (np_TargetPath req) = (False, None) \<or>
     (\<exists>h. list_all (mount_ran K (w_trace w @ h) (publish_source ord' ip p) (np_TargetPath req))
       (mount_steps (collectMountOptions (pv_options p)))))"
proof -
  let ?t = "np_TargetPath req"
  obtain volCap ip p where p: "np_VolumeCapability req = Some volCap"
    "map_of (np_PublishContext req) NodeAnnotation = Some ip" "publish_context d ord req volCap = Inr p"
    and made: "os_isLikelyNotMountPoint (linux_os K m os) (w_trace w) ?t = (False, None) \<or>
      mount_made (linux_os K m os) (publish_source ord' ip p) ?t (collectMountOptions (pv_options p)) w w'"
    using assms(1) by (rule NodePublishVolume_success) blast
  have "\<exists>h. list_all (mount_ran K (w_trace w @ h) source ?t) (mount_steps opts)"
    if made: "mount_made (linux_os K m os) source ?t opts w w'" and "source \<noteq> ''''" for source opts
  proof -
    obtain h where "fst (Mount K (w_trace w @ h) source ?t ''nfs'' opts
        \<lparr>the_mounter = mounter_after K m [] (w_trace w @ h), cmds = []\<rparr>) = None"
      using made by (auto simp: mount_made_def linux_os_def)
    then obtain s' where "Mount K (w_trace w @ h) source ?t ''nfs'' opts
        \<lparr>the_mounter = mounter_after K m [] (w_trace w @ h), cmds = []\<rparr> = (None, s')" by (metis prod.collapse)
    from Mount_success [OF this \<open>source \<noteq> ''''\<close>] show ?thesis
      using assms(2) by (auto simp: mounter_after_mounterPath)
  qed
  with made have "IsLikelyNotMountPoint K (w_trace w) ?t = (False, None) \<or>
     (\<exists>h. list_all (mount_ran K (w_trace w @ h) (publish_source ord' ip p) ?t)
       (mount_steps (collectMountOptions (pv_options p))))"
    using publish_source_nonempty by (auto simp: linux_os_def)
  with p show ?thesis by blast
qed

theorem publish_runs_mount_witness:
  "\<exists>w' volCap ip p h. NodePublishVolume demo_ns demo_driver in_order in_order (demo_linux demo_kernel) (demo_req [])
      sample_world = (Return (), w') \<and>
    map_of (np_PublishContext (demo_req [])) NodeAnnotation = Some ip \<and>
    publish_context demo_driver in_order (demo_req []) volCap = Inr p \<and>
    list_all (mount_ran demo_kernel h (publish_source in_order ip p) ''/mnt'')
      (mount_steps (collectMountOptions (pv_options p)))"
proof -
  let ?run = "NodePublishVolume demo_ns demo_driver in_order in_order (demo_linux demo_kernel) (demo_req []) sample_world"
  have "fst ?run = Return ()" by code_simp
  then have run: "?run = (Return (), snd ?run)" by (metis prod.collapse)
  have "mounterPath (NewMounter demo_kernel [] '''') = ''''" by code_simp
  moreover have "IsLikelyNotMountPoint demo_kernel (w_trace sample_world) (np_TargetPath (demo_req [])) \<noteq> (False, None)"
    by code_simp
  moreover have "np_TargetPath (demo_req []) = ''/mnt''" by code_simp
  ultimately show ?thesis
    using publish_runs_mount [OF run [unfolded demo_linux_def]] run by fastforce
qed

text \<open>C32. A refused mount is not reported as such: on Linux \<open>NodePublishVolume\<close> never answers with the
  code \<open>PermissionDenied\<close>, although it has a branch for it.  The errors of \<open>Mount\<close> are new errors that
  carry the output of the command as text, and \<open>os.IsPermission\<close> does not see through them.\<close>

theorem linux_never_permission_denied:
  assumes "NodePublishVolume ns d ord ord' (linux_os K m os) req w = (Fail err, w')"
  shows "\<exists>c msg. err = Status c msg \<and> c \<in> {InvalidArgument, Aborted, Internal}"
  using NodePublishVolume_codes_of [OF assms _ linux_mount_codes] by (simp add: status_in_def)

theorem linux_never_permission_denied_witness:
  "\<exists>msg w'. NodePublishVolume demo_ns demo_driver in_order in_order (demo_linux refusing_kernel) (demo_req [])
     sample_world = (Fail (Status Internal msg), w') \<and> Contains msg ''Operation not permitted''"
proof -
  let ?run = "NodePublishVolume demo_ns demo_driver in_order in_order (demo_linux refusing_kernel) (demo_req [])
     sample_world"
  have failed: "(case fst ?run of Fail (Status c msg) \<Rightarrow> c \<noteq> InvalidArgument \<and> c \<noteq> Aborted \<and>
      Contains msg ''Operation not permitted'' | _ \<Rightarrow> False)" by code_simp
  then obtain err where run: "?run = (Fail err, snd ?run)"
    by (cases "fst ?run") (auto simp: prod_eq_iff)
  from linux_never_permission_denied [OF run [unfolded demo_linux_def]] obtain c msg
    where "err = Status c msg" "c \<in> {InvalidArgument, Aborted, Internal}" by blast
  then have "c = Internal" "Contains msg ''Operation not permitted''" using failed run by (auto simp: prod_eq_iff)
  with run \<open>err = Status c msg\<close> show ?thesis by blast
qed

end
