(* ===== verification/Spec2Isabelle.thy ===== *)
theory Spec2Isabelle
  imports LBSpec LBProgress FakeLB NodeSequence LinuxMounter
begin

text \<open>
  A verification of the NFS load balancing CSI driver (\<open>cmd/nfsplugin\<close>, \<open>pkg/nfs\<close>,
  \<open>pkg/lbcontroller\<close>).

  \<^bold>\<open>The program.\<close>  The driver runs as one controller process and as one process per node.  The
  controller keeps a map from NFS server IP to the number of nodes that use it
  (\<open>lbcontroller.go\<close>).  \<open>ControllerPublishVolume\<close> assigns a node the least loaded IP, records it in
  an annotation of the node object, and returns it in the publish context;
  \<open>ControllerUnpublishVolume\<close> takes it away again (\<open>controllerserver.go\<close>).  On the node
  \<open>NodePublishVolume\<close> mounts the share from the IP in the publish context, \<open>NodeUnpublishVolume\<close>
  unmounts it, and \<open>NodeGetVolumeStats\<close> measures it through a timed cache (\<open>nodeserver.go\<close>).  Every
  handler works under a non-blocking lock per volume (\<open>utils.go\<close>).  The provisioning calls inherited
  from the upstream driver mount the share through the node server of the same process.  At start
  the map is rebuilt from the annotations of the cluster's nodes.

  \<^bold>\<open>Theories.\<close>
  \<^item> \<open>Prelude\<close>: errors, outcomes of a call (value, error, panic), Go maps, \<open>range\<close> loops.
  \<^item> \<open>GoStrings\<close>: what the driver uses of \<open>strings\<close>, \<open>strconv\<close> and \<open>path/filepath\<close>.
  \<^item> \<open>Utils\<close>: constants and helpers of \<open>utils.go\<close> and \<open>nfs.go\<close>.
  \<^item> \<open>LBController\<close>: \<open>lbcontroller.go\<close>, one definition per operation, split where the code takes the
    mutex.  \<open>LBBalance\<close>: the least-loaded contract (locale \<open>least_loaded\<close>) and the properties of
    single calls and of sequences of calls.  \<open>LBConcurrent\<close>: requests that interleave, with a stale
    informer cache and an API server that refuses outdated updates (\<open>lb_step\<close>).  \<open>LBSpec\<close>: the
    abstract assignment machine and the refinement (locale \<open>simulation\<close>).  \<open>LBDeletion\<close>: the same
    system with nodes that are deleted.  \<open>LBRestart\<close>: crashes in the middle of a request, and
    restarts.  \<open>LBProgress\<close>: the requests under way finish, and what a stopped informer does.
    \<open>FakeLB\<close>: the fixtures of \<open>fake.go\<close>, with the repository's own test tables run on the model.
  \<^item> \<open>VolumeLocks\<close>: the lock table of \<open>utils.go\<close> and concurrent handlers over it (locale
    \<open>lock_table\<close>).
  \<^item> \<open>OsModel\<close>: the operating system as an argument, and the world that the handlers change.
    \<open>MountHelpers\<close>: the clean-up functions of the vendored \<open>mount-utils\<close>, and \<open>makeDir\<close>,
    \<open>chmodIfPermissionMismatch\<close>, \<open>IsCorruptedDir\<close>.  \<open>TimedCache\<close>: the vendored statistics cache
    (locale \<open>stats_cache\<close>).  \<open>FakeMounter\<close>: \<open>fake_mounter.go\<close> and a sample system for witnesses.
  \<^item> \<open>Driver\<close>: the options, the driver object and \<open>NewDriver\<close> of \<open>nfs.go\<close>.
  \<^item> \<open>NodeServer\<close>: all of \<open>nodeserver.go\<close>.  \<open>NodeSequence\<close>: sequences of publish and unpublish requests,
    on a mounter that reports mounts as they are.
  \<^item> \<open>VolumeId\<close>: volumes, snapshots, their identifiers (locale \<open>id_codec\<close>) and internal paths, of
    \<open>controllerserver.go\<close>.  \<open>ControllerServer\<close>: publishing, capabilities, internal mounts.
    \<open>Provisioning\<close>: \<open>CreateVolume\<close>, \<open>DeleteVolume\<close>, \<open>CreateSnapshot\<close>, \<open>DeleteSnapshot\<close>.
  \<^item> \<open>GrpcServer\<close>: \<open>server.go\<close>, with \<open>serve\<close> as a function up to the call of \<open>Serve\<close> and the goroutines
    around it as the step relation \<open>grpc_step\<close>.  \<open>Server\<close>: \<open>identityserver.go\<close>, \<open>version.go\<close>, \<open>Run\<close>, and
    the command line of \<open>main.go\<close>.  \<open>Process\<close>: \<open>main\<close> itself, its goroutines, the helper script and
    the signals (\<open>proc_step\<close>, \<open>deliver\<close>).
  \<^item> \<open>Requests\<close>: every call of the three services as a request, dispatched as \<open>serve\<close> registers them
    (\<open>dispatch\<close>, over the service tables of the vendored \<open>csi.pb.go\<close>), and runs of requests from start-up
    until a panic ends the process (locale \<open>request_server\<close>).
  \<^item> \<open>LinuxMounter\<close>: the mounter of the vendored \<open>mount_linux.go\<close>, which \<open>Run\<close> creates: the commands for
    mounting and unmounting, the checks for mount points and the table of mounts.  \<open>linux_os\<close> is the
    operating system argument of the handlers with this mounter in it, over a \<open>kernel\<close>.
  \<^item> This theory: the properties that span the servers.

  \<^bold>\<open>How code and model correspond.\<close>  A struct is a record, an enumeration a datatype, a Go map an
  association list.  A handler takes the request, the world and what the code calls outside the
  repository, and returns its outcome and the world after it.  The world holds the held locks, the
  statistics cache, the load balancer's map, the state of the API server and the trace of operating
  system calls.  Go's iteration order over a map is an argument of type \<open>visit\<close>, and the properties
  hold for every order (\<open>range_ok\<close>).  The operating system, the mounter and executed programs are a
  record of functions of the calls made so far, so every behaviour of them is an instance.  The
  predicate \<open>only_calls\<close> says which calls a handler made and that it left locks, cache and map alone.
  A nil receiver or field is \<open>None\<close>, and using it is the outcome \<open>Panics\<close>.  64-bit values are words or
  integers with the wrap-around written out.  There is no fuel: the loops of the
  driver are structural recursions over the data they range over, and two library functions of
  \<open>GoStrings\<close> terminate by a measure.  The calls that wait, in \<open>server.go\<close>
  and \<open>main.go\<close>, are steps of a relation.

  \<^bold>\<open>What is shown.\<close>
  \<^item> The load balancer: as long as no annotated node is deleted, its counts are exact in every
    reachable state of concurrent requests, never negative, and bounded by the number of nodes; with
    deletions they exceed the recorded nodes by exactly the annotated nodes deleted; without them it
    refines the abstract assignment machine; a
    publish request can always be brought to success; a single call picks an IP of least load and a
    sequence of calls keeps the loads even; start-up rebuilds the counts.  After a crash at any point a
    restart regains exact counts and keeps the assignments on record.  A run that works on the requests
    under way ends, after one step for each of them.
  \<^item> The node server: a publish request touches only its target and mounts only the published IP;
    success means that the target was a mount point or has been mounted; a successful request can be
    repeated, whatever happens in between that does not detach the target; success of unpublishing
    means that the target is gone, so that a later publish request mounts it again; statistics are served from the cache until
    they expire.
  \<^item> The Linux mounter: a successful publish request means that a \<open>mount\<close> command with the expected
    arguments succeeded, a successful unmount that \<open>umount\<close> did or found nothing mounted, the forced one
    only after a time-out; the table of mounts is read back as it is written.
  \<^item> Locks: concurrent handlers hold different keys, and every handler leaves the locks as they were.
  \<^item> Identifiers and paths: round trips, independence of iteration order, containment of paths.
  \<^item> Servers and process: in test mode the server comes to an end by itself; \<open>SIGTERM\<close> ends the process
    within a bounded number of steps, and exit code 0 means that it arrived.
  \<^item> The whole process: whatever requests it gets from start-up on and whatever the API server and the
    operating system answer, no lock stays held, the map keeps the configured IPs, and each operating
    system call belongs to one of the requests; every error is a status with a code listed for the
    request; only a process without one of its servers can panic.
  \<^item> Provisioning: retained data is kept.  So is archived data, as a property of the work after the
    internal mount, which the driver as it stands never reaches.
  \<^item> Behaviour that the code has and its documentation or intent does not: provisioning calls that
    are advertised and never succeed, an ignored default policy, a count that is not released when a
    node is deleted, a stale cache that returns a released IP, a controller that goes on with a stopped
    informer after \<open>SIGINT\<close> and then refuses nodes for ever, \<open>Wait\<close> that does not return when the service
    has stopped, \<open>Stop\<close> racing with \<open>Start\<close>, a helper script that outlives \<open>main\<close>, one unpublish request that drops the IP of a node with two volumes, a read-ahead
    error that a retry loses, a refused mount that is never reported as \<open>PermissionDenied\<close>, subdirectories that leave the share, and a controller
    process that one request to delete a volume crashes, since services are registered for nil servers.

  \<^bold>\<open>Assumptions.\<close>  The API server follows optimistic concurrency control: an update succeeds only on
  the stored resource version, and versions are not reused (\<open>optimistic\<close>).  Other clients do not
  write the annotation and, except in \<open>LBDeletion\<close>, do not delete a node that carries it
  (\<open>external_change\<close>); without the second assumption the exactness of the counts fails.
  The informer is synchronised when the map is rebuilt.  A gRPC server serves until it is stopped, and
  \<open>Serve\<close> fails after that.  In \<open>NodeSequence\<close> the mounter is truthful (\<open>reports_mounts\<close>,
  \<open>reports_removals\<close>); an instance of it is given there.
  Case mapping is that of ASCII.  Error texts are format strings without their arguments.
  Handlers are atomic in the sequential model; interleaving is the subject of \<open>VolumeLocks\<close>,
  \<open>LBConcurrent\<close>, \<open>GrpcServer\<close> and \<open>Process\<close>.

  \<^bold>\<open>Not modelled.\<close>  The gRPC transport and the protocol buffers, which the driver only calls; log output
  other than that of \<open>logGRPC\<close>; YAML encoding, socket listening and the start of the helper script, whose
  results are arguments; the rest of the vendored packages, of which only \<open>mount-utils\<close>' clean-up and
  Linux mounter, the timed cache, the service tables and the signal handler take part in the driver's
  logic; the kernel and the programs \<open>mount\<close>, \<open>umount\<close> and \<open>systemd-run\<close>, which are arguments; import lists, deployment charts
  and end-to-end tests, which have no logic of the driver.  Time is a clock reading of the operating
  system and has no real-time meaning.
\<close>

section \<open>Lemmas\<close>

lemma Node_locks:
  "w_locks (snd (NodePublishVolume ns d ord ord' os req w)) = w_locks w"
  "w_locks (snd (NodeUnpublishVolume ns os v t w)) = w_locks w"
  using only_calls_frame(1) [OF NodePublishVolume_calls [OF prod.collapse [symmetric]]]
    only_calls_frame(1) [OF NodeUnpublishVolume_calls [OF prod.collapse [symmetric]]]
  by fastforce+

section \<open>Properties that span components\<close>

text \<open>C11. No handler leaks a lock: after every call of the controller and node servers that takes
  or could take a volume lock, whatever its outcome (success, error or panic), exactly the locks that
  were held before are held.\<close>

theorem handlers_release_locks:
  "w_locks (snd (ControllerPublishVolume cs get upd ord creq w)) = w_locks w \<and>
   w_locks (snd (ControllerUnpublishVolume cs get upd volumeID nodeID w)) = w_locks w \<and>
   w_locks (snd (NodePublishVolume ns d ord ord' os nreq w)) = w_locks w \<and>
   w_locks (snd (NodeUnpublishVolume ns os volumeID targetPath w)) = w_locks w \<and>
   w_locks (snd (NodeGetVolumeStats ns os volumeID path w)) = w_locks w \<and>
   w_locks (snd (CreateVolume d ords os vreq w)) = w_locks w \<and>
   w_locks (snd (DeleteVolume d ords os volumeID secrets w)) = w_locks w \<and>
   w_locks (snd (CreateSnapshot d ords os sreq w)) = w_locks w \<and>
   w_locks (snd (DeleteSnapshot d ords os snapshotID secrets w)) = w_locks w"
  by (simp add: ControllerPublishVolume_locks ControllerUnpublishVolume_locks Node_locks
      NodeGetVolumeStats_locks provisioning_world)

text \<open>C7. The node mounts from the server the controller chose: when a node publish request carries
  the publish context that \<open>ControllerPublishVolume\<close> returned, every mount it makes is of type nfs,
  on its own target, and from one and the same IP of the controller's configured list.\<close>

theorem published_ip_is_mounted:
  assumes "ControllerPublishVolume cs get upd ord creq wc = (Return ctx, wc')" and "range_ok ord"
    and "np_PublishContext nreq = ctx"
    and "NodePublishVolume ns d o1 o2 os nreq wn = (r, wn')"
  shows "\<exists>ip. ip_known (w_ipMap wc) ip \<and>
    only_calls (\<lambda>c. \<forall>source target fs opts. c = CMount source target fs opts \<longrightarrow>
      HasPrefix source (ip @ '':'') \<and> target = np_TargetPath nreq \<and> fs = ''nfs'') wn wn'"
proof -
  obtain ip where ip: "ctx = [(NodeAnnotation, ip)]" "ip_known (w_ipMap wc) ip"
    using ControllerPublishVolume_Return [OF assms(1,2)] by blast
  have "only_calls (\<lambda>c. \<forall>source target fs opts. c = CMount source target fs opts \<longrightarrow>
      HasPrefix source (ip @ '':'') \<and> target = np_TargetPath nreq \<and> fs = ''nfs'') wn wn'"
    by (rule only_calls_mono [OF NodePublishVolume_calls [OF assms(4)]])
      (auto simp: assms(3) ip(1))
  with ip(2) show ?thesis by blast
qed

theorem published_ip_is_mounted_witness:
  "\<exists>ctx wc' r wn' ip. publish_now ''v'' one_node_world = (Return ctx, wc') \<and>
    NodePublishVolume demo_ns demo_driver in_order in_order sample_os
      ((demo_req [])\<lparr>np_PublishContext := ctx\<rparr>) sample_world = (r, wn') \<and>
    is_return r \<and> ip_known (w_ipMap one_node_world) ip \<and>
    only_calls (\<lambda>c. \<forall>source target fs opts. c = CMount source target fs opts \<longrightarrow>
      HasPrefix source (ip @ '':'') \<and> target = ''/mnt'' \<and> fs = ''nfs'') sample_world wn'"
proof -
  let ?ctx = "[(NodeAnnotation, ''10.0.0.1'')]"
  let ?req = "(demo_req [])\<lparr>np_PublishContext := ?ctx\<rparr>"
  let ?run = "NodePublishVolume demo_ns demo_driver in_order in_order sample_os ?req sample_world"
  have "fst (publish_now ''v'' one_node_world) = Return ?ctx" by code_simp
  then have pub: "publish_now ''v'' one_node_world = (Return ?ctx, snd (publish_now ''v'' one_node_world))"
    by (metis prod.collapse)
  have ret: "is_return (fst ?run)" by code_simp
  have t: "np_TargetPath ?req = ''/mnt''" by code_simp
  have ctx: "np_PublishContext ?req = ?ctx" by simp
  have run: "?run = (fst ?run, snd ?run)" by simp
  obtain ip where "ip_known (w_ipMap one_node_world) ip"
    and "only_calls (\<lambda>c. \<forall>source target fs opts. c = CMount source target fs opts \<longrightarrow>
      HasPrefix source (ip @ '':'') \<and> target = ''/mnt'' \<and> fs = ''nfs'') sample_world (snd ?run)"
    using published_ip_is_mounted [OF pub [unfolded publish_now_def] range_ok_in_order ctx run]
    unfolding t by blast
  with ret pub run show ?thesis
    by (intro exI [of _ ?ctx] exI [of _ "snd (publish_now ''v'' one_node_world)"]
        exI [of _ "fst ?run"] exI [of _ "snd ?run"] exI [of _ ip] conjI)
qed

end
